(* ===== verification/Prelude.thy ===== *)
theory Prelude
  imports Main "HOL-Library.Word"
begin

text \<open>
  Shared vocabulary of the development: Rust's unsigned integers as words, its signed
  integers as mathematical integers with the representable range written out, \<open>Option\<close>
  and \<open>Result\<close> combinators as the code uses them, byte predicates on strings (a Rust
  \<open>String\<close> is the list of its UTF-8 bytes), and fallible effectful calls as functions
  on an explicit world. The collections declared here carry the component proofs.
\<close>

named_theorems checked_simps \<open>characterisations of the checked machine arithmetic\<close>
named_theorems result_simps \<open>when a fallible computation succeeds or fails\<close>
named_theorems validity_defs \<open>definitions of the validity predicates of stored records\<close>

section \<open>Machine integers\<close>

type_synonym u8 = "8 word"
type_synonym u16 = "16 word"
type_synonym u32 = "32 word"
type_synonym u64 = "64 word"

text \<open>\<open>usize\<close> has 64 bits on every platform the product ships for.\<close>

type_synonym usize = "64 word"

definition checked_add :: "'a::len word \<Rightarrow> 'a word \<Rightarrow> 'a word option" where
  "checked_add a b = (if unat a + unat b < 2 ^ LENGTH('a) then Some (a + b) else None)"

definition checked_sub :: "'a::len word \<Rightarrow> 'a word \<Rightarrow> 'a word option" where
  "checked_sub a b = (if b \<le> a then Some (a - b) else None)"

definition saturating_add :: "'a::len word \<Rightarrow> 'a word \<Rightarrow> 'a word" where
  "saturating_add a b = (case checked_add a b of Some c \<Rightarrow> c | None \<Rightarrow> - 1)"

definition saturating_sub :: "'a::len word \<Rightarrow> 'a word \<Rightarrow> 'a word" where
  "saturating_sub a b = (if b \<le> a then a - b else 0)"

lemma checked_add_eq_Some [checked_simps]:
  "checked_add a b = Some c \<longleftrightarrow> unat c = unat a + unat b"
proof
  assume "checked_add a b = Some c"
  then show "unat c = unat a + unat b"
    by (auto simp: checked_add_def unat_word_ariths split: if_splits)
next
  assume eq: "unat c = unat a + unat b"
  have "unat c < 2 ^ LENGTH('a)" by (rule unsigned_less)
  with eq have lt: "unat a + unat b < 2 ^ LENGTH('a)" by simp
  then have "unat (a + b) = unat c" using eq by (simp add: unat_word_ariths)
  then have "a + b = c" by (simp add: word_unat_eq_iff)
  with lt show "checked_add a b = Some c" by (simp add: checked_add_def)
qed

lemma checked_add_eq_None [checked_simps]:
  "checked_add (a :: 'a::len word) b = None \<longleftrightarrow> 2 ^ LENGTH('a) \<le> unat a + unat b"
  by (auto simp: checked_add_def)

lemma checked_add_value:
  "checked_add a b = Some c \<Longrightarrow> c = a + b"
  by (auto simp: checked_add_def split: if_splits)

lemma checked_sub_eq_Some [checked_simps]:
  "checked_sub a b = Some c \<longleftrightarrow> b \<le> a \<and> c = a - b"
  by (auto simp: checked_sub_def)

lemma unat_diff_le: "b \<le> a \<Longrightarrow> unat (a - b) = unat a - unat (b :: 'a::len word)"
  by (simp add: unat_sub)

lemma unat_less_pow [simp]: "unat (a :: 'a::len word) < 2 ^ LENGTH('a)"
  by (rule unsigned_less)

lemma checked_add_one_lt:
  fixes a :: "'a::len word"
  shows "checked_add a 1 = Some c \<Longrightarrow> a < c"
  by (cases "LENGTH('a) = 0") (auto simp: checked_simps word_less_nat_alt)

text \<open>
  Signed integers are mathematical integers; every operation of the code that can leave
  the representable range is one of the checked operations below.
\<close>

definition in_i64 :: "int \<Rightarrow> bool" where
  "in_i64 x \<longleftrightarrow> - (2 ^ 63) \<le> x \<and> x < 2 ^ 63"

definition in_i128 :: "int \<Rightarrow> bool" where
  "in_i128 x \<longleftrightarrow> - (2 ^ 127) \<le> x \<and> x < 2 ^ 127"

definition fit_i64 :: "int \<Rightarrow> int option" where
  "fit_i64 x = (if in_i64 x then Some x else None)"

definition fit_i128 :: "int \<Rightarrow> int option" where
  "fit_i128 x = (if in_i128 x then Some x else None)"

lemma fit_i64_eq_Some [checked_simps]: "fit_i64 x = Some y \<longleftrightarrow> in_i64 x \<and> y = x"
  by (auto simp: fit_i64_def)

lemma fit_i64_eq_None [checked_simps]: "fit_i64 x = None \<longleftrightarrow> \<not> in_i64 x"
  by (simp add: fit_i64_def)

lemma fit_i128_eq_Some [checked_simps]: "fit_i128 x = Some y \<longleftrightarrow> in_i128 x \<and> y = x"
  by (auto simp: fit_i128_def)

lemma fit_i128_eq_None [checked_simps]: "fit_i128 x = None \<longleftrightarrow> \<not> in_i128 x"
  by (simp add: fit_i128_def)

section \<open>Option and Result combinators\<close>

definition is_some_and :: "'a option \<Rightarrow> ('a \<Rightarrow> bool) \<Rightarrow> bool" where
  "is_some_and x P = (case x of None \<Rightarrow> False | Some v \<Rightarrow> P v)"

definition is_none_or :: "'a option \<Rightarrow> ('a \<Rightarrow> bool) \<Rightarrow> bool" where
  "is_none_or x P = (case x of None \<Rightarrow> True | Some v \<Rightarrow> P v)"

lemma is_some_and_simps [simp]:
  "is_some_and None P = False" "is_some_and (Some v) P = P v"
  by (simp_all add: is_some_and_def)

lemma is_none_or_simps [simp]:
  "is_none_or None P = True" "is_none_or (Some v) P = P v"
  by (simp_all add: is_none_or_def)

lemma is_none_or_kept [simp]: "is_none_or x (\<lambda>v. x = Some v)"
  by (cases x) auto

lemma is_some_and_iff: "is_some_and x P \<longleftrightarrow> (\<exists>v. x = Some v \<and> P v)"
  by (cases x) auto

lemma is_none_or_iff: "is_none_or x P \<longleftrightarrow> (\<forall>v. x = Some v \<longrightarrow> P v)"
  by (cases x) auto

text \<open>\<open>Some(v).then_some\<close> and the zip of two options.\<close>

definition then_some :: "bool \<Rightarrow> 'a \<Rightarrow> 'a option" where
  "then_some b v = (if b then Some v else None)"

lemma then_some_eq_Some [simp]: "then_some b v = Some x \<longleftrightarrow> b \<and> v = x"
  by (auto simp: then_some_def)

fun opt_zip :: "'a option \<Rightarrow> 'b option \<Rightarrow> ('a \<times> 'b) option" where
  "opt_zip (Some a) (Some b) = Some (a, b)"
| "opt_zip _ _ = None"

type_synonym ('e, 'a) result = "'e + 'a"

definition ok_or :: "'a option \<Rightarrow> 'e \<Rightarrow> ('e, 'a) result" where
  "ok_or x e = (case x of None \<Rightarrow> Inl e | Some v \<Rightarrow> Inr v)"

definition and_then :: "('e, 'a) result \<Rightarrow> ('a \<Rightarrow> ('e, 'b) result) \<Rightarrow> ('e, 'b) result" where
  "and_then r f = (case r of Inl e \<Rightarrow> Inl e | Inr a \<Rightarrow> f a)"

definition map_err :: "('e \<Rightarrow> 'f) \<Rightarrow> ('e, 'a) result \<Rightarrow> ('f, 'a) result" where
  "map_err g r = (case r of Inl e \<Rightarrow> Inl (g e) | Inr a \<Rightarrow> Inr a)"

fun is_ok :: "('e, 'a) result \<Rightarrow> bool" where
  "is_ok (Inl _) = False"
| "is_ok (Inr _) = True"

lemma and_then_simps [simp]:
  "and_then (Inl e) f = Inl e" "and_then (Inr a) f = f a"
  by (simp_all add: and_then_def)

lemma ok_or_simps [simp]:
  "ok_or None e = Inl e" "ok_or (Some v) e = Inr v"
  by (simp_all add: ok_or_def)

lemma map_err_simps [simp]:
  "map_err g (Inl e) = Inl (g e)" "map_err g (Inr a) = Inr a"
  by (simp_all add: map_err_def)

lemma and_then_eq_Inr [result_simps]:
  "and_then r f = Inr b \<longleftrightarrow> (\<exists>a. r = Inr a \<and> f a = Inr b)"
  by (cases r) auto

lemma and_then_eq_Inl [result_simps]:
  "and_then r f = Inl e \<longleftrightarrow> r = Inl e \<or> (\<exists>a. r = Inr a \<and> f a = Inl e)"
  by (cases r) auto

lemma ok_or_eq_Inr [result_simps]: "ok_or x e = Inr v \<longleftrightarrow> x = Some v"
  by (cases x) auto

lemma ok_or_eq_Inl [result_simps]: "ok_or x e = Inl f \<longleftrightarrow> x = None \<and> f = e"
  by (cases x) auto

lemma map_err_eq_Inr [result_simps]: "map_err g r = Inr v \<longleftrightarrow> r = Inr v"
  by (cases r) auto

lemma map_err_eq_Inl [result_simps]: "map_err g r = Inl f \<longleftrightarrow> (\<exists>e. r = Inl e \<and> f = g e)"
  by (cases r) auto

lemma is_ok_iff: "is_ok r \<longleftrightarrow> (\<exists>v. r = Inr v)"
  by (cases r) auto

text \<open>
  A \<open>for\<close> loop over a slice whose body only checks: it stops at the first element that
  fails.
\<close>

fun check_all :: "('a \<Rightarrow> ('e, unit) result) \<Rightarrow> 'a list \<Rightarrow> ('e, unit) result" where
  "check_all f [] = Inr ()"
| "check_all f (x # xs) = and_then (f x) (\<lambda>_. check_all f xs)"

lemma check_all_ok_iff: "check_all f xs = Inr () \<longleftrightarrow> (\<forall>x\<in>set xs. f x = Inr ())"
  by (induction xs) (auto simp: result_simps)

lemma unit_result_cases: "(r :: ('e, unit) result) = Inr () \<or> (\<exists>e. r = Inl e)"
  by (cases r) auto

section \<open>Lists\<close>

lemma filter_update:
  "i < length xs \<Longrightarrow> length (filter P (xs[i := x])) + (if P (xs ! i) then 1 else 0)
     = length (filter P xs) + (if P x then 1 else 0)"
proof (induction xs arbitrary: i)
  case (Cons y ys)
  show ?case
  proof (cases i)
    case (Suc j)
    with Cons.IH [of j] Cons.prems show ?thesis by (simp split: if_splits)
  qed simp
qed simp

lemma filter_key_one:
  assumes "distinct (map f xs)" "x \<in> set xs"
  shows "length (filter (\<lambda>y. f y \<noteq> f x) xs) + 1 = length xs"
proof -
  from assms(2) obtain ys zs where xs: "xs = ys @ x # zs" by (auto dest: split_list)
  with assms(1) have "filter (\<lambda>y. f y \<noteq> f x) ys = ys" "filter (\<lambda>y. f y \<noteq> f x) zs = zs"
    by (auto simp: filter_id_conv image_iff)
  with xs show ?thesis by simp
qed

lemma distinct_concat_disjoint:
  assumes "distinct (concat (map f xs))" "i < length xs" "j < length xs" "i \<noteq> j"
  shows "set (f (xs ! i)) \<inter> set (f (xs ! j)) = {}"
  using assms
proof (induction xs arbitrary: i j)
  case (Cons x xs)
  have disj: "set (f x) \<inter> set (f (xs ! k)) = {}" if "k < length xs" for k
    using Cons.prems(1) nth_mem [OF that] by auto
  show ?case
  proof (cases i; cases j)
    fix k l assume "i = Suc k" "j = Suc l"
    with Cons show ?thesis by simp
  qed (use Cons.prems disj in auto)
qed simp

lemma distinct_subset_length:
  assumes "distinct xs" "set xs \<subseteq> set ys"
  shows "length xs \<le> length ys"
  using card_mono [OF List.finite_set assms(2)] card_length [of ys] distinct_card [OF assms(1)] by simp

section \<open>Bytes and strings\<close>

definition byte_of :: "char \<Rightarrow> nat" where
  "byte_of c = of_char c"

definition is_ascii_digit :: "char \<Rightarrow> bool" where
  "is_ascii_digit c \<longleftrightarrow> 48 \<le> byte_of c \<and> byte_of c \<le> 57"

definition is_ascii_alphanumeric :: "char \<Rightarrow> bool" where
  "is_ascii_alphanumeric c \<longleftrightarrow> is_ascii_digit c
     \<or> (65 \<le> byte_of c \<and> byte_of c \<le> 90) \<or> (97 \<le> byte_of c \<and> byte_of c \<le> 122)"

definition is_lower_hex :: "char \<Rightarrow> bool" where
  "is_lower_hex c \<longleftrightarrow> is_ascii_digit c \<or> (97 \<le> byte_of c \<and> byte_of c \<le> 102)"

lemmas byte_defs = byte_of_def is_ascii_digit_def is_ascii_alphanumeric_def is_lower_hex_def

text \<open>
  \<open>trim().is_empty()\<close> on the UTF-8 bytes: every character is Unicode white space. The
  multi-byte cases are the encodings of U+0085, U+00A0, U+1680, U+2000 to U+200A, U+2028,
  U+2029, U+202F, U+205F and U+3000.
\<close>

fun blank_bytes :: "nat list \<Rightarrow> bool" where
  "blank_bytes [] = True"
| "blank_bytes (a # rest) =
     (if (9 \<le> a \<and> a \<le> 13) \<or> a = 32 then blank_bytes rest
      else (case rest of
              b # rest2 \<Rightarrow>
                if a = 194 \<and> (b = 133 \<or> b = 160) then blank_bytes rest2
                else (case rest2 of
                        c # rest3 \<Rightarrow>
                          if (a = 225 \<and> b = 154 \<and> c = 128)
                            \<or> (a = 226 \<and> b = 128 \<and> (128 \<le> c \<and> c \<le> 138 \<or> c = 168 \<or> c = 169 \<or> c = 175))
                            \<or> (a = 226 \<and> b = 129 \<and> c = 159)
                            \<or> (a = 227 \<and> b = 128 \<and> c = 128)
                          then blank_bytes rest3 else False
                      | [] \<Rightarrow> False)
            | [] \<Rightarrow> False))"

definition is_blank :: "string \<Rightarrow> bool" where
  "is_blank s = blank_bytes (map byte_of s)"

lemma is_blank_Nil [simp]: "is_blank []"
  by (simp add: is_blank_def)

lemma not_blank_nonempty: "\<not> is_blank s \<Longrightarrow> s \<noteq> []"
  by auto

text \<open>\<open>str::split\<close> on one byte: the pieces between its occurrences, at least one.\<close>

fun split_byte :: "nat \<Rightarrow> string \<Rightarrow> string list" where
  "split_byte b [] = [[]]"
| "split_byte b (c # s) =
     (if byte_of c = b then [] # split_byte b s
      else case split_byte b s of [] \<Rightarrow> [[c]] | p # ps \<Rightarrow> (c # p) # ps)"

text \<open>\<open>chars().count()\<close>: the bytes that do not continue a UTF-8 sequence.\<close>

definition char_count :: "string \<Rightarrow> nat" where
  "char_count s = length (filter (\<lambda>c. byte_of c < 128 \<or> 192 \<le> byte_of c) s)"

text \<open>
  \<open>char::is_control\<close> for some character of the UTF-8 text: U+0000 to U+001F, U+007F and, in two
  bytes, U+0080 to U+009F.
\<close>

fun control_bytes :: "nat list \<Rightarrow> bool" where
  "control_bytes [] = False"
| "control_bytes (a # rest) =
     (a < 32 \<or> a = 127 \<or> (a = 194 \<and> rest \<noteq> [] \<and> 128 \<le> hd rest \<and> hd rest \<le> 159) \<or> control_bytes rest)"

definition has_control :: "string \<Rightarrow> bool" where
  "has_control s = control_bytes (map byte_of s)"

text \<open>Rust compares strings byte by byte.\<close>

fun bytes_less :: "string \<Rightarrow> string \<Rightarrow> bool" where
  "bytes_less _ [] = False"
| "bytes_less [] (_ # _) = True"
| "bytes_less (a # s) (b # t) = (byte_of a < byte_of b \<or> (byte_of a = byte_of b \<and> bytes_less s t))"

lemma bytes_less_irrefl [simp]: "\<not> bytes_less s s"
  by (induction s) auto

lemma bytes_less_trans: "bytes_less r s \<Longrightarrow> bytes_less s t \<Longrightarrow> bytes_less r t"
proof (induction r s arbitrary: t rule: bytes_less.induct)
  case (2 b s)
  then show ?case by (cases t) auto
next
  case (3 a r b s)
  then show ?case by (cases t) auto
qed simp

lemma bytes_less_asym: "bytes_less s t \<Longrightarrow> \<not> bytes_less t s"
  using bytes_less_trans bytes_less_irrefl by blast

lemma transp_bytes_less: "transp bytes_less"
  by (rule transpI) (rule bytes_less_trans)

lemma bytes_less_total: "bytes_less s t \<or> s = t \<or> bytes_less t s"
proof (induction s t rule: bytes_less.induct)
  case (1 s)
  show ?case by (cases s) auto
next
  case (3 a s b t)
  then show ?case by (auto simp: byte_of_def)
qed simp

text \<open>A set is listed in one way by an asymmetric order.\<close>

lemma sorted_wrt_unique:
  assumes asym: "\<And>x y. R x y \<Longrightarrow> \<not> R y x"
    and "sorted_wrt R xs" and "sorted_wrt R ys" and "set xs = set ys"
  shows "xs = ys"
  using assms(2-)
proof (induction xs arbitrary: ys)
  case (Cons x xs)
  then obtain y ys' where ys: "ys = y # ys'" by (cases ys) auto
  have "x = y"
  proof (rule ccontr)
    assume "x \<noteq> y"
    then have "R x y" "R y x" using Cons.prems ys by auto
    then show False using asym by blast
  qed
  moreover have "x \<notin> set xs" "y \<notin> set ys'" using Cons.prems ys asym by fastforce+
  ultimately have "set xs = set ys'" using Cons.prems(3) ys by auto
  with Cons ys \<open>x = y\<close> show ?case by auto
qed simp

section \<open>Fallible calls on an explicit world\<close>

text \<open>
  A call that may change the outside world and may fail is a function from the world to a
  result and the world after it. \<open>act_bind\<close> is the \<open>?\<close> operator: an error stops
  the caller and keeps whatever the failed call already did to the world.
\<close>

type_synonym ('w, 'e, 'a) act = "'w \<Rightarrow> ('e, 'a) result \<times> 'w"

definition act_ret :: "'a \<Rightarrow> ('w, 'e, 'a) act" where
  "act_ret a = (\<lambda>w. (Inr a, w))"

definition act_fail :: "'e \<Rightarrow> ('w, 'e, 'a) act" where
  "act_fail e = (\<lambda>w. (Inl e, w))"

definition act_bind :: "('w, 'e, 'a) act \<Rightarrow> ('a \<Rightarrow> ('w, 'e, 'b) act) \<Rightarrow> ('w, 'e, 'b) act" where
  "act_bind m f = (\<lambda>w. case m w of (Inl e, w') \<Rightarrow> (Inl e, w') | (Inr a, w') \<Rightarrow> f a w')"

definition act_map_err :: "('e \<Rightarrow> 'f) \<Rightarrow> ('w, 'e, 'a) act \<Rightarrow> ('w, 'f, 'a) act" where
  "act_map_err g m = (\<lambda>w. case m w of (r, w') \<Rightarrow> (map_err g r, w'))"

text \<open>\<open>act_guard b e\<close> is \<open>if !b { return Err(e) }\<close>; \<open>act_lift\<close> is \<open>?\<close> on a pure result.\<close>

definition act_guard :: "bool \<Rightarrow> 'e \<Rightarrow> ('w, 'e, unit) act" where
  "act_guard b e = (if b then act_ret () else act_fail e)"

definition act_lift :: "('e, 'a) result \<Rightarrow> ('w, 'e, 'a) act" where
  "act_lift r = (\<lambda>w. (r, w))"

text \<open>\<open>act_try\<close> is a \<open>match\<close> on the result of a call instead of \<open>?\<close>.\<close>

definition act_try :: "('w, 'e, 'a) act \<Rightarrow> ('w, 'f, ('e, 'a) result) act" where
  "act_try m = (\<lambda>w. case m w of (r, w') \<Rightarrow> (Inr r, w'))"

text \<open>
  \<open>act_post m Q\<close>: whatever the world, the result of the call satisfies \<open>Q\<close>. Its rules follow
  the calls backwards; a call of the environment may answer anything.
\<close>

named_theorems post_intros \<open>backward rules for the result of a call\<close>

definition act_post :: "('w, 'e, 'a) act \<Rightarrow> (('e, 'a) result \<Rightarrow> bool) \<Rightarrow> bool" where
  "act_post m Q \<longleftrightarrow> (\<forall>w. Q (fst (m w)))"

lemma act_postD: "act_post m Q \<Longrightarrow> m w = (r, w') \<Longrightarrow> Q r"
  unfolding act_post_def by (metis fst_conv)

lemma act_post_mono: "act_post m P \<Longrightarrow> (\<And>r. P r \<Longrightarrow> Q r) \<Longrightarrow> act_post m Q"
  by (simp add: act_post_def)

lemma act_post_any: "(\<And>r. Q r) \<Longrightarrow> act_post m Q"
  by (simp add: act_post_def)

lemma act_post_ret [post_intros]: "Q (Inr a) \<Longrightarrow> act_post (act_ret a) Q"
  by (simp add: act_post_def act_ret_def)

lemma act_post_fail [post_intros]: "Q (Inl e) \<Longrightarrow> act_post (act_fail e) Q"
  by (simp add: act_post_def act_fail_def)

lemma act_post_lift [post_intros]: "Q r \<Longrightarrow> act_post (act_lift r) Q"
  by (simp add: act_post_def act_lift_def)

lemma act_post_map_err: "act_post m (\<lambda>r. Q (map_err g r)) \<Longrightarrow> act_post (act_map_err g m) Q"
  by (simp add: act_post_def act_map_err_def case_prod_beta)

lemma act_post_bind:
  assumes "act_post m (\<lambda>r. (\<forall>e. r = Inl e \<longrightarrow> Q (Inl e)) \<and> (\<forall>a. r = Inr a \<longrightarrow> act_post (f a) Q))"
  shows "act_post (act_bind m f) Q"
  unfolding act_post_def
proof
  fix w
  obtain r w' where m: "m w = (r, w')" by (cases "m w")
  from act_postD [OF assms m] m show "Q (fst (act_bind m f w))"
    by (cases r) (auto simp: act_bind_def act_post_def)
qed

text \<open>The usual cases of a bind: a pure result, a guard, and a call of the environment.\<close>

lemma act_post_bind_lift [post_intros]:
  "(\<And>e. r = Inl e \<Longrightarrow> Q (Inl e)) \<Longrightarrow> (\<And>a. r = Inr a \<Longrightarrow> act_post (f a) Q) \<Longrightarrow>
    act_post (act_bind (act_lift r) f) Q"
  by (rule act_post_bind) (simp add: act_post_def act_lift_def)

lemma act_post_bind_guard [post_intros]:
  "(\<not> b \<Longrightarrow> Q (Inl e)) \<Longrightarrow> (b \<Longrightarrow> act_post (f ()) Q) \<Longrightarrow> act_post (act_bind (act_guard b e) f) Q"
  by (rule act_post_bind) (simp add: act_post_def act_guard_def act_ret_def act_fail_def)

lemma act_post_bind_call [post_intros]:
  "(\<And>e. Q (Inl (g e))) \<Longrightarrow> (\<And>a. act_post (f a) Q) \<Longrightarrow> act_post (act_bind (act_map_err g m) f) Q"
  by (rule act_post_bind) (auto simp: act_post_def act_map_err_def map_err_eq_Inl case_prod_beta)

lemma act_post_if [post_intros]:
  "(b \<Longrightarrow> act_post m Q) \<Longrightarrow> (\<not> b \<Longrightarrow> act_post n Q) \<Longrightarrow> act_post (if b then m else n) Q"
  by simp

text \<open>Reading the clock is a call that cannot fail.\<close>

definition act_now :: "('w \<Rightarrow> nat \<times> 'w) \<Rightarrow> ('w, 'e, nat) act" where
  "act_now now = (\<lambda>w. case now w of (t, w') \<Rightarrow> (Inr t, w'))"

lemma act_post_bind_now [post_intros]:
  "(\<And>t. act_post (f t) Q) \<Longrightarrow> act_post (act_bind (act_now now) f) Q"
  by (rule act_post_bind) (simp add: act_post_def act_now_def case_prod_beta)

lemmas act_defs = act_ret_def act_fail_def act_bind_def act_map_err_def act_guard_def act_lift_def
  act_try_def act_now_def

section \<open>Logged calls\<close>

text \<open>
  A call with a log: the world is paired with the list of events so far, and \<open>log_call\<close>
  appends the event of one call with its answer. \<open>act_logs m Q\<close> states what a run of \<open>m\<close>
  appends and returns, whatever the world and the earlier log; its rules compute backwards.
\<close>

named_theorems log_intros \<open>backward rules for the events a logged call appends\<close>

definition log_call ::
    "(('e, 'a) result \<Rightarrow> 'ev) \<Rightarrow> ('w, 'e, 'a) act \<Rightarrow> ('w \<times> 'ev list, 'e, 'a) act" where
  "log_call ev m = (\<lambda>(w, log). case m w of (r, w') \<Rightarrow> (r, (w', log @ [ev r])))"

definition silent_call :: "('w, 'e, 'a) act \<Rightarrow> ('w \<times> 'ev list, 'e, 'a) act" where
  "silent_call m = (\<lambda>(w, log). case m w of (r, w') \<Rightarrow> (r, (w', log)))"

definition act_logs ::
    "('w \<times> 'ev list, 'e, 'a) act \<Rightarrow> ('ev list \<Rightarrow> ('e, 'a) result \<Rightarrow> bool) \<Rightarrow> bool" where
  "act_logs m Q \<longleftrightarrow> (\<forall>w log. \<exists>evs w'. snd (m (w, log)) = (w', log @ evs) \<and> Q evs (fst (m (w, log))))"

lemma act_logsD:
  "act_logs m Q \<Longrightarrow> m (w, []) = (r, (w', evs)) \<Longrightarrow> Q evs r"
  unfolding act_logs_def by (metis append_Nil fst_conv snd_conv)

lemma act_logs_mono:
  "act_logs m P \<Longrightarrow> (\<And>evs r. P evs r \<Longrightarrow> Q evs r) \<Longrightarrow> act_logs m Q"
  unfolding act_logs_def by blast

lemma act_logs_ret [log_intros]: "Q [] (Inr a) \<Longrightarrow> act_logs (act_ret a) Q"
  by (simp add: act_logs_def act_ret_def)

lemma act_logs_fail [log_intros]: "Q [] (Inl e) \<Longrightarrow> act_logs (act_fail e) Q"
  by (simp add: act_logs_def act_fail_def)

lemma act_logs_lift [log_intros]: "Q [] r \<Longrightarrow> act_logs (act_lift r) Q"
  by (simp add: act_logs_def act_lift_def)

lemma act_logs_guard [log_intros]:
  "(b \<Longrightarrow> Q [] (Inr ())) \<Longrightarrow> (\<not> b \<Longrightarrow> Q [] (Inl e)) \<Longrightarrow> act_logs (act_guard b e) Q"
  by (simp add: act_logs_def act_guard_def act_ret_def act_fail_def)

lemma act_logs_if [log_intros]:
  "(b \<Longrightarrow> act_logs m Q) \<Longrightarrow> (\<not> b \<Longrightarrow> act_logs n Q) \<Longrightarrow> act_logs (if b then m else n) Q"
  by simp

lemma act_logs_call [log_intros]: "(\<And>r. Q [ev r] r) \<Longrightarrow> act_logs (log_call ev m) Q"
  by (simp add: act_logs_def log_call_def split: prod.splits)

lemma act_logs_silent [log_intros]: "(\<And>r. Q [] r) \<Longrightarrow> act_logs (silent_call m) Q"
  by (simp add: act_logs_def silent_call_def split: prod.splits)

definition silent_now :: "('w \<Rightarrow> nat \<times> 'w) \<Rightarrow> ('w \<times> 'ev list \<Rightarrow> nat \<times> ('w \<times> 'ev list))" where
  "silent_now now = (\<lambda>(w, log). case now w of (t, w') \<Rightarrow> (t, (w', log)))"

lemma act_logs_now [log_intros]: "(\<And>t. Q [] (Inr t)) \<Longrightarrow> act_logs (act_now (silent_now now)) Q"
  by (simp add: act_logs_def act_now_def silent_now_def case_prod_beta)

lemma act_logs_map_err [log_intros]:
  "act_logs m (\<lambda>evs r. Q evs (map_err g r)) \<Longrightarrow> act_logs (act_map_err g m) Q"
  unfolding act_logs_def act_map_err_def by (simp add: case_prod_beta)

lemma act_logs_try [log_intros]:
  "act_logs m (\<lambda>evs r. Q evs (Inr r)) \<Longrightarrow> act_logs (act_try m) Q"
  unfolding act_logs_def act_try_def by (simp add: case_prod_beta)

lemma act_logs_bind:
  assumes "act_logs m (\<lambda>evs r. case r of Inl e \<Rightarrow> Q evs (Inl e)
      | Inr a \<Rightarrow> act_logs (f a) (\<lambda>more. Q (evs @ more)))"
  shows "act_logs (act_bind m f) Q"
  unfolding act_logs_def
proof (intro allI)
  fix w log
  let ?post = "\<lambda>evs r. case r of Inl e \<Rightarrow> Q evs (Inl e) | Inr a \<Rightarrow> act_logs (f a) (\<lambda>more. Q (evs @ more))"
  define r where "r = fst (m (w, log))"
  obtain evs w' where s: "snd (m (w, log)) = (w', log @ evs)" and Q: "?post evs r"
    using assms unfolding act_logs_def [of m] r_def by blast
  have m: "m (w, log) = (r, (w', log @ evs))" using s r_def by (metis prod.collapse)
  show "\<exists>evs w'. snd (act_bind m f (w, log)) = (w', log @ evs) \<and> Q evs (fst (act_bind m f (w, log)))"
  proof (cases r)
    case (Inl e)
    with m Q show ?thesis by (auto simp: act_bind_def)
  next
    case (Inr a)
    with Q have "act_logs (f a) (\<lambda>more. Q (evs @ more))" by simp
    then obtain more w2 where "snd (f a (w', log @ evs)) = (w2, (log @ evs) @ more)"
        "Q (evs @ more) (fst (f a (w', log @ evs)))"
      unfolding act_logs_def by blast
    with Inr m show ?thesis by (auto simp: act_bind_def)
  qed
qed

lemma act_logs_bind' [log_intros]:
  assumes "act_logs m (\<lambda>evs r. (\<forall>e. r = Inl e \<longrightarrow> Q evs (Inl e))
      \<and> (\<forall>a. r = Inr a \<longrightarrow> act_logs (f a) (\<lambda>more. Q (evs @ more))))"
  shows "act_logs (act_bind m f) Q"
  by (rule act_logs_bind, rule act_logs_mono [OF assms]) (auto split: sum.splits)

lemma act_logs_guard_bind:
  "(b \<Longrightarrow> act_logs (f ()) Q) \<Longrightarrow> (\<not> b \<Longrightarrow> Q [] (Inl e)) \<Longrightarrow>
    act_logs (act_bind (act_guard b e) f) Q"
  by (simp add: act_guard_def act_bind_def act_ret_def act_fail_def act_logs_def)

text \<open>
  Two environments with different logs run in step: \<open>act_maps h m m'\<close> says that \<open>m'\<close> on the
  image of a world does what \<open>m\<close> does on the world.
\<close>

named_theorems maps_intros \<open>calls that commute with a map of the world\<close>

definition act_maps :: "('w \<Rightarrow> 'v) \<Rightarrow> ('w, 'e, 'a) act \<Rightarrow> ('v, 'e, 'a) act \<Rightarrow> bool" where
  "act_maps h m m' \<longleftrightarrow> (\<forall>w. m' (h w) = map_prod id h (m w))"

lemma act_maps_pure [maps_intros]:
  "act_maps h (act_ret a) (act_ret a)" "act_maps h (act_fail e) (act_fail e)"
  "act_maps h (act_lift r) (act_lift r)" "act_maps h (act_guard b e) (act_guard b e)"
  by (simp_all add: act_maps_def act_ret_def act_fail_def act_lift_def act_guard_def)

lemma act_maps_bind [maps_intros]:
  assumes "act_maps h m m'" and "\<And>a. act_maps h (f a) (f' a)"
  shows "act_maps h (act_bind m f) (act_bind m' f')"
  using assms unfolding act_maps_def act_bind_def
  by (auto split: prod.splits sum.splits)

lemma act_maps_wrap [maps_intros]:
  "act_maps h m m' \<Longrightarrow> act_maps h (act_map_err g m) (act_map_err g m')"
  "act_maps h m m' \<Longrightarrow> act_maps h (act_try m) (act_try m')"
  by (auto simp: act_maps_def act_map_err_def act_try_def split: prod.splits)

lemma act_maps_if [maps_intros]:
  "act_maps h m m' \<Longrightarrow> act_maps h n n' \<Longrightarrow> act_maps h (if b then m else n) (if b then m' else n')"
  by simp

definition relabel_log :: "'ev list \<Rightarrow> ('x \<Rightarrow> 'ev) \<Rightarrow> 'w \<times> 'x list \<Rightarrow> 'w \<times> 'ev list" where
  "relabel_log before emb = (\<lambda>(w, log). (w, before @ map emb log))"

lemma relabel_call [maps_intros]:
  "(\<And>r. ev' r = emb (ev r)) \<Longrightarrow> act_maps (relabel_log before emb) (log_call ev m) (log_call ev' m)"
  by (auto simp: act_maps_def relabel_log_def log_call_def split: prod.splits)

lemma relabel_now [maps_intros]:
  "act_maps (relabel_log before emb) (act_now (silent_now now)) (act_now (silent_now now))"
  by (auto simp: act_maps_def relabel_log_def act_now_def silent_now_def split: prod.splits)

lemma relabel_logs:
  assumes "\<And>before. act_maps (relabel_log before emb) m m'" and "act_logs m P"
  shows "act_logs m' (\<lambda>evs r. \<exists>l. evs = map emb l \<and> P l r)"
  unfolding act_logs_def
proof (intro allI)
  fix w log
  obtain l w' where l: "snd (m (w, [])) = (w', l)" "P l (fst (m (w, [])))"
    using assms(2) unfolding act_logs_def by (metis append_Nil)
  have "m' (w, log) = map_prod id (relabel_log log emb) (m (w, []))"
    using assms(1) [of log] unfolding act_maps_def relabel_log_def by (metis append_Nil2 list.map(1) case_prod_conv)
  then have "snd (m' (w, log)) = (w', log @ map emb l)" "fst (m' (w, log)) = fst (m (w, []))"
    using l(1) by (simp_all add: relabel_log_def)
  with l(2) show "\<exists>evs w'. snd (m' (w, log)) = (w', log @ evs)
      \<and> (\<exists>l. evs = map emb l \<and> P l (fst (m' (w, log))))"
    by auto
qed

section \<open>Instants and durations\<close>

text \<open>
  A monotonic instant is a count of nanoseconds, a deadline too. \<open>Instant::checked_add\<close>
  fails when the seconds leave the 63 bits of the platform's clock value; elapsed time is
  the saturated difference. Reading the clock is a call on the world.
\<close>

type_synonym instant = nat

definition instant_limit :: nat where
  "instant_limit = 2 ^ 63 * 1000000000"

definition instant_add_ms :: "instant \<Rightarrow> u64 \<Rightarrow> instant option" where
  "instant_add_ms t ms =
     (let n = t + unat ms * 1000000 in if n < instant_limit then Some n else None)"

definition elapsed_ms :: "instant \<Rightarrow> instant \<Rightarrow> nat" where
  "elapsed_ms now started = (now - started) div 1000000"

definition u64_try_from :: "nat \<Rightarrow> u64 option" where
  "u64_try_from n = (if n < 2 ^ 64 then Some (of_nat n) else None)"

lemma u64_try_from_eq_Some [checked_simps]: "u64_try_from n = Some w \<longleftrightarrow> unat w = n"
proof
  assume "u64_try_from n = Some w"
  then show "unat w = n"
    by (auto simp: u64_try_from_def unat_of_nat split: if_splits)
next
  assume eq: "unat w = n"
  have "unat w < 2 ^ 64" using unsigned_less [of w] by simp
  with eq show "u64_try_from n = Some w" by (auto simp: u64_try_from_def)
qed

definition u32_try_from :: "nat \<Rightarrow> u32 option" where
  "u32_try_from n = (if n < 2 ^ 32 then Some (of_nat n) else None)"

lemma u32_try_from_Some [checked_simps]: "u32_try_from n = Some w \<longleftrightarrow> unat w = n"
proof
  assume "u32_try_from n = Some w"
  then show "unat w = n" by (auto simp: u32_try_from_def unat_of_nat split: if_splits)
next
  assume eq: "unat w = n"
  have "unat w < 2 ^ 32" using unsigned_less [of w] by simp
  with eq show "u32_try_from n = Some w" by (auto simp: u32_try_from_def)
qed

end
