(* ===== verification/Billing.thy ===== *)
theory Billing
  imports Decimal
begin

text \<open>
  Exact money arithmetic of the Customer-local billing model (\<open>policy-core/src/billing.rs\<close>):
  decimal parsing and printing, exchange rates, token and image charges, the one-million-token
  reference price and the admission decision for one member. Amounts are nanos of a currency
  unit held in an \<open>i64\<close>; intermediate products are \<open>i128\<close>. Every overflow, missing price
  and currency mismatch of the code is an error value here.
\<close>

definition NANOS_PER_UNIT :: int where
  "NANOS_PER_UNIT = 1000000000"

definition TOKENS_PER_MILLION :: int where
  "TOKENS_PER_MILLION = 1000000"

datatype Currency = Cny | Usd

record Money =
  m_currency :: Currency
  nanos :: int

datatype BillingError =
    InvalidDecimal
  | UnsupportedUsage
  | UnsupportedImageSpec
  | InvalidImageCount
  | InconsistentRateCard
  | CurrencyMismatch
  | InvalidRate
  | Overflow
  | InvalidParallelLimit
  | TrackerUnavailable

section \<open>Amounts\<close>

definition Money_zero :: "Currency \<Rightarrow> Money" where
  "Money_zero c = \<lparr>m_currency = c, nanos = 0\<rparr>"

text \<open>The two halves of \<open>split_once('.')\<close>.\<close>

definition split_dot :: "string \<Rightarrow> string \<times> string" where
  "split_dot s = (takeWhile (\<lambda>c. c \<noteq> CHR ''.'') s, drop 1 (dropWhile (\<lambda>c. c \<noteq> CHR ''.'') s))"

definition Money_parse :: "Currency \<Rightarrow> string \<Rightarrow> (BillingError, Money) result" where
  "Money_parse c s =
     (let (whole, fraction) = split_dot s in
      if whole = [] \<or> \<not> list_all is_ascii_digit whole \<or> length fraction > 9
         \<or> \<not> list_all is_ascii_digit fraction \<or> (CHR ''.'' \<in> set s \<and> fraction = [])
      then Inl InvalidDecimal
      else and_then (ok_or (fit_i128 (digits_value whole)) Overflow) (\<lambda>w.
        let f = (if fraction = [] then 0
                 else digits_value fraction * 10 ^ (9 - length fraction)) in
        and_then (ok_or (Option.bind (Option.bind (fit_i128 (w * NANOS_PER_UNIT))
                            (\<lambda>v. fit_i128 (v + f))) fit_i64) Overflow) (\<lambda>n.
        Inr \<lparr>m_currency = c, nanos = n\<rparr>)))"

definition Money_checked_add :: "Money \<Rightarrow> Money \<Rightarrow> (BillingError, Money) result" where
  "Money_checked_add a b =
     (if m_currency a \<noteq> m_currency b then Inl CurrencyMismatch
      else and_then (ok_or (fit_i64 (nanos a + nanos b)) Overflow)
             (\<lambda>n. Inr \<lparr>m_currency = m_currency a, nanos = n\<rparr>))"

text \<open>\<open>{fraction:09}\<close>: the decimal digits padded with zeros to width nine.\<close>

fun pad_digits :: "nat \<Rightarrow> nat \<Rightarrow> string" where
  "pad_digits 0 n = []"
| "pad_digits (Suc k) n = pad_digits k (n div 10) @ [digit_char (n mod 10)]"

definition trim_end_zeros :: "string \<Rightarrow> string" where
  "trim_end_zeros s = rev (dropWhile (\<lambda>c. c = CHR ''0'') (rev s))"

definition Money_decimal :: "Money \<Rightarrow> string" where
  "Money_decimal m =
     (let magnitude = \<bar>nanos m\<bar>;
          whole = nat (magnitude div NANOS_PER_UNIT);
          fraction = nat (magnitude mod NANOS_PER_UNIT);
          sign = (if nanos m < 0 then ''-'' else '''')
      in if fraction = 0 then sign @ show_nat whole
         else sign @ show_nat whole @ ''.'' @ trim_end_zeros (pad_digits 9 fraction))"

section \<open>Rounded division and exchange rates\<close>

definition round_div :: "int \<Rightarrow> int \<Rightarrow> (BillingError, int) result" where
  "round_div numerator denominator =
     (if numerator < 0 \<or> denominator \<le> 0 then Inl InvalidRate
      else and_then (ok_or (fit_i128 (numerator + denominator div 2)) Overflow)
             (\<lambda>v. Inr (v div denominator)))"

record ExchangeRate =
  er_from :: Currency
  er_to :: Currency
  destination_nanos_per_unit :: int

definition ExchangeRate_convert :: "ExchangeRate \<Rightarrow> Money \<Rightarrow> (BillingError, Money) result" where
  "ExchangeRate_convert r amount =
     (if m_currency amount \<noteq> er_from r \<or> er_from r = er_to r then Inl CurrencyMismatch
      else if destination_nanos_per_unit r \<le> 0 then Inl InvalidRate
      else and_then (ok_or (fit_i128 (nanos amount * destination_nanos_per_unit r)) Overflow) (\<lambda>num.
           and_then (round_div num NANOS_PER_UNIT) (\<lambda>n.
           and_then (ok_or (fit_i64 n) Overflow) (\<lambda>n'.
           Inr \<lparr>m_currency = er_to r, nanos = n'\<rparr>))))"

definition ExchangeRate_convert_reverse ::
    "ExchangeRate \<Rightarrow> Money \<Rightarrow> (BillingError, Money) result" where
  "ExchangeRate_convert_reverse r amount =
     (if m_currency amount \<noteq> er_to r \<or> er_from r = er_to r then Inl CurrencyMismatch
      else if destination_nanos_per_unit r \<le> 0 then Inl InvalidRate
      else and_then (ok_or (fit_i128 (nanos amount * NANOS_PER_UNIT)) Overflow) (\<lambda>num.
           and_then (round_div num (destination_nanos_per_unit r)) (\<lambda>n.
           and_then (ok_or (fit_i64 n) Overflow) (\<lambda>n'.
           Inr \<lparr>m_currency = er_from r, nanos = n'\<rparr>))))"

section \<open>Token and image charges\<close>

record TokenUsage =
  tu_input :: u64
  tu_cached_read :: u64
  tu_cached_write :: u64
  tu_output :: u64
  tu_image_input :: u64
  tu_image_output :: u64

record TokenPrices =
  tp_input :: "int option"
  tp_cached_read :: "int option"
  tp_cached_write :: "int option"
  tp_output :: "int option"
  tp_image_input :: "int option"
  tp_image_output :: "int option"

definition price_list :: "TokenPrices \<Rightarrow> int option list" where
  "price_list p = [tp_input p, tp_cached_read p, tp_cached_write p,
                   tp_output p, tp_image_input p, tp_image_output p]"

definition usage_list :: "TokenUsage \<Rightarrow> u64 list" where
  "usage_list u = [tu_input u, tu_cached_read u, tu_cached_write u,
                   tu_output u, tu_image_input u, tu_image_output u]"

definition TokenPrices_validate :: "TokenPrices \<Rightarrow> (BillingError, unit) result" where
  "TokenPrices_validate p =
     (if list_ex (\<lambda>x. is_some_and x (\<lambda>v. v < 0)) (price_list p)
      then Inl InvalidRate else Inr ())"

fun charge_lines :: "int \<Rightarrow> (u64 \<times> int option) list \<Rightarrow> (BillingError, int) result" where
  "charge_lines numerator [] = Inr numerator"
| "charge_lines numerator ((tokens, price) # rest) =
     (if tokens = 0 then charge_lines numerator rest
      else and_then (ok_or price UnsupportedUsage) (\<lambda>pr.
           if pr < 0 then Inl InvalidRate
           else and_then (ok_or (fit_i128 (uint tokens * pr)) Overflow) (\<lambda>line.
                and_then (ok_or (fit_i128 (numerator + line)) Overflow) (\<lambda>n.
                charge_lines n rest))))"

definition TokenPrices_charge ::
    "TokenPrices \<Rightarrow> Currency \<Rightarrow> TokenUsage \<Rightarrow> (BillingError, Money) result" where
  "TokenPrices_charge p c u =
     and_then (TokenPrices_validate p) (\<lambda>_.
     and_then (charge_lines 0 (zip (usage_list u) (price_list p))) (\<lambda>numerator.
     and_then (round_div numerator TOKENS_PER_MILLION) (\<lambda>n.
     and_then (ok_or (fit_i64 n) Overflow) (\<lambda>n'.
     Inr \<lparr>m_currency = c, nanos = n'\<rparr>))))"

text \<open>\<open>Iterator::max\<close> over the categories that have a price.\<close>

fun list_max :: "int list \<Rightarrow> int option" where
  "list_max [] = None"
| "list_max (x # xs) = Some (case list_max xs of None \<Rightarrow> x | Some m \<Rightarrow> max x m)"

definition priced :: "TokenPrices \<Rightarrow> int list" where
  "priced p = List.map_filter (\<lambda>x. x) (price_list p)"

definition TokenPrices_reference :: "TokenPrices \<Rightarrow> Currency \<Rightarrow> (BillingError, Money) result" where
  "TokenPrices_reference p c =
     and_then (TokenPrices_validate p) (\<lambda>_.
     and_then (ok_or (list_max (priced p)) UnsupportedUsage) (\<lambda>maximum.
     if maximum < 0 then Inl InvalidRate
     else Inr \<lparr>m_currency = c, nanos = maximum\<rparr>))"

definition image_charge :: "Money \<Rightarrow> u32 \<Rightarrow> (BillingError, Money) result" where
  "image_charge unit_price confirmed_count =
     (if nanos unit_price < 0 then Inl InvalidRate
      else and_then (ok_or (fit_i64 (nanos unit_price * uint confirmed_count)) Overflow) (\<lambda>n.
           Inr \<lparr>m_currency = m_currency unit_price, nanos = n\<rparr>))"

section \<open>Admission of one request\<close>

record AdmissionSnapshot =
  balance :: Money
  in_flight_reference :: Money
  in_flight_count :: u32
  max_parallel :: "u32 option"

datatype AdmissionDecision = Admit | Queue | RejectInsufficientBalance

definition AdmissionSnapshot_decide ::
    "AdmissionSnapshot \<Rightarrow> Money \<Rightarrow> (BillingError, AdmissionDecision) result" where
  "AdmissionSnapshot_decide s request_reference =
     (if m_currency (balance s) \<noteq> m_currency (in_flight_reference s)
         \<or> m_currency (balance s) \<noteq> m_currency request_reference
      then Inl CurrencyMismatch
      else if nanos (in_flight_reference s) < 0 \<or> nanos request_reference < 0
      then Inl InvalidRate
      else if max_parallel s = Some 0 then Inl InvalidParallelLimit
      else if nanos (balance s) \<le> 0
      then Inr (if in_flight_count s = 0 then RejectInsufficientBalance else Queue)
      else if is_some_and (max_parallel s) (\<lambda>limit. in_flight_count s \<ge> limit)
      then Inr Queue
      else if in_flight_count s = 0 then Inr Admit
      else Inr (if nanos (balance s) \<ge> nanos (in_flight_reference s) + nanos request_reference
                then Admit else Queue))"

text \<open>An amount the code can hold.\<close>

definition money_ok :: "Money \<Rightarrow> bool" where
  "money_ok m \<longleftrightarrow> in_i64 (nanos m)"


section \<open>Rounded division\<close>

lemma round_div_eq_Inr:
  "round_div n d = Inr q \<longleftrightarrow> 0 \<le> n \<and> 0 < d \<and> in_i128 (n + d div 2) \<and> q = (n + d div 2) div d"
  by (auto simp: round_div_def result_simps checked_simps)

lemma nearest_quotient:
  assumes "(0::int) < d" and "q = (n + d div 2) div d"
  shows "2 * (q * d) \<le> 2 * n + d" and "2 * n < 2 * (q * d) + d + 1"
proof -
  have eq: "q * d + (n + d div 2) mod d = n + d div 2"
    using assms(2) by (simp add: mult.commute)
  have "0 \<le> (n + d div 2) mod d" "(n + d div 2) mod d < d"
    using assms(1) by simp_all
  with eq show "2 * (q * d) \<le> 2 * n + d" "2 * n < 2 * (q * d) + d + 1"
    by linarith+
qed

lemma round_div_nearest:
  assumes "round_div n d = Inr q"
  shows "2 * \<bar>q * d - n\<bar> \<le> d" and "0 \<le> q"
proof -
  from assms have d: "0 < d" and n: "0 \<le> n" and q: "q = (n + d div 2) div d"
    by (auto simp: round_div_eq_Inr)
  show "2 * \<bar>q * d - n\<bar> \<le> d" using nearest_quotient [OF d q] by (simp add: abs_if)
  show "0 \<le> q" using d n by (simp add: q pos_imp_zdiv_nonneg_iff)
qed

lemma round_div_mono:
  assumes "round_div a d = Inr x" and "round_div b d = Inr y" and "a \<le> b"
  shows "x \<le> y"
  using assms by (auto simp: round_div_eq_Inr intro: zdiv_mono1)

text \<open>The quotient is the only integer strictly less than half a step away.\<close>

lemma round_div_unique:
  fixes n d x :: int
  assumes "0 < d" and "2 * (x * d) < 2 * n + d" and "2 * n < 2 * (x * d) + d"
  shows "(n + d div 2) div d = x"
proof (rule int_div_pos_eq)
  show "n + d div 2 = d * x + (n + d div 2 - d * x)" by simp
  show "0 \<le> n + d div 2 - d * x" using assms(1,2) by (simp add: mult.commute)
  show "n + d div 2 - d * x < d" using assms(1,3) by (simp add: mult.commute)
qed

section \<open>Exchange\<close>

lemma in_i64_prod_i128: "in_i64 a \<Longrightarrow> in_i64 b \<Longrightarrow> in_i128 (a * b)"
proof -
  assume "in_i64 a" "in_i64 b"
  then have "\<bar>a\<bar> \<le> 2 ^ 63" "\<bar>b\<bar> \<le> 2 ^ 63" by (auto simp: in_i64_def)
  then have "\<bar>a\<bar> * \<bar>b\<bar> \<le> 2 ^ 63 * 2 ^ 63" by (intro mult_mono) auto
  then have "\<bar>a * b\<bar> \<le> 2 ^ 126" by (simp add: abs_mult)
  then show ?thesis by (auto simp: in_i128_def abs_le_iff)
qed

lemma convert_eq_Inr:
  "ExchangeRate_convert r a = Inr b \<longleftrightarrow>
     m_currency a = er_from r \<and> er_from r \<noteq> er_to r \<and> 0 < destination_nanos_per_unit r
     \<and> in_i128 (nanos a * destination_nanos_per_unit r)
     \<and> (\<exists>n. round_div (nanos a * destination_nanos_per_unit r) NANOS_PER_UNIT = Inr n
            \<and> in_i64 n \<and> b = \<lparr>m_currency = er_to r, nanos = n\<rparr>)"
  by (auto simp: ExchangeRate_convert_def result_simps checked_simps)

lemma convert_reverse_eq_Inr:
  "ExchangeRate_convert_reverse r b = Inr a \<longleftrightarrow>
     m_currency b = er_to r \<and> er_from r \<noteq> er_to r \<and> 0 < destination_nanos_per_unit r
     \<and> in_i128 (nanos b * NANOS_PER_UNIT)
     \<and> (\<exists>n. round_div (nanos b * NANOS_PER_UNIT) (destination_nanos_per_unit r) = Inr n
            \<and> in_i64 n \<and> a = \<lparr>m_currency = er_from r, nanos = n\<rparr>)"
  by (auto simp: ExchangeRate_convert_reverse_def result_simps checked_simps)

lemma reverse_quotient:
  fixes x y k r :: int
  assumes "0 < k" and "k \<le> r" and y: "y = (x * r + k div 2) div k"
  shows "(y * k + r div 2) div r = x"
proof (cases "r = k")
  case True
  with assms(1) show ?thesis by (simp add: y)
next
  case False
  with assms(2) have lt: "k < r" by simp
  have "2 * (y * k) \<le> 2 * (x * r) + k" "2 * (x * r) < 2 * (y * k) + k + 1"
    using nearest_quotient [OF assms(1) y] by auto
  with lt assms(1) show ?thesis by (intro round_div_unique) linarith+
qed

section \<open>Decimal text\<close>

lemma length_pad_digits [simp]: "length (pad_digits k n) = k"
  by (induction k arbitrary: n) auto

lemma pad_digits_digits: "list_all is_ascii_digit (pad_digits k n)"
  by (induction k arbitrary: n) auto

lemma pad_digits_value: "n < 10 ^ k \<Longrightarrow> digits_value (pad_digits k n) = int n"
proof (induction k arbitrary: n)
  case (Suc k)
  then have "n div 10 < 10 ^ k" by (simp add: less_mult_imp_div_less mult.commute)
  moreover have "int (n div 10) * 10 + int (n mod 10) = int n"
    by (metis div_mult_mod_eq of_nat_add of_nat_mult of_nat_numeral)
  ultimately show ?case using Suc.IH by simp
qed simp

lemma trim_end_zeros_split:
  "s = trim_end_zeros s @ replicate (length s - length (trim_end_zeros s)) (CHR ''0'')"
proof -
  let ?P = "\<lambda>c. c = CHR ''0''"
  have eq: "s = trim_end_zeros s @ rev (takeWhile ?P (rev s))"
    by (metis rev_append rev_rev_ident takeWhile_dropWhile_id trim_end_zeros_def)
  have "takeWhile ?P (rev s) = replicate (length (takeWhile ?P (rev s))) (CHR ''0'')"
    by (metis (full_types) replicate_length_same set_takeWhileD)
  then have "rev (takeWhile ?P (rev s)) = replicate (length (takeWhile ?P (rev s))) (CHR ''0'')"
    by (metis rev_replicate)
  moreover have "length (takeWhile ?P (rev s)) = length s - length (trim_end_zeros s)"
    by (metis add_diff_cancel_left' eq length_append length_rev)
  ultimately show ?thesis using eq by simp
qed

lemma digit_not_dot: "is_ascii_digit c \<Longrightarrow> c \<noteq> CHR ''.''"
  by (auto simp: is_ascii_digit_def byte_of_def)

lemma digits_no_dot: "list_all is_ascii_digit s \<Longrightarrow> CHR ''.'' \<notin> set s"
  using digit_not_dot by (auto simp: list_all_iff)

lemma takeWhile_sep: "d \<notin> set s \<Longrightarrow> takeWhile (\<lambda>c. c \<noteq> d) (s @ d # t) = s"
  by (induction s) auto

lemma dropWhile_sep: "d \<notin> set s \<Longrightarrow> dropWhile (\<lambda>c. c \<noteq> d) (s @ d # t) = d # t"
  by (induction s) auto

lemma takeWhile_no_sep: "d \<notin> set s \<Longrightarrow> takeWhile (\<lambda>c. c \<noteq> d) s = s"
  by (induction s) auto

lemma dropWhile_no_sep: "d \<notin> set s \<Longrightarrow> dropWhile (\<lambda>c. c \<noteq> d) s = []"
  by (induction s) auto

lemma split_dot_plain: "list_all is_ascii_digit s \<Longrightarrow> split_dot s = (s, [])"
  unfolding split_dot_def
  by (simp add: takeWhile_no_sep [OF digits_no_dot] dropWhile_no_sep [OF digits_no_dot])

lemma split_dot_fraction:
  "list_all is_ascii_digit s \<Longrightarrow> split_dot (s @ ''.'' @ t) = (s, t)"
  unfolding split_dot_def append.simps
  by (simp add: takeWhile_sep [OF digits_no_dot] dropWhile_sep [OF digits_no_dot])

text \<open>The fraction text of an amount: at most nine digits, not empty, worth the nanos.\<close>

lemma fraction_text:
  assumes "0 < f" and "f < 1000000000"
  defines "t \<equiv> trim_end_zeros (pad_digits 9 f)"
  shows "list_all is_ascii_digit t" and "t \<noteq> []" and "length t \<le> 9"
    and "digits_value t * 10 ^ (9 - length t) = int f"
proof -
  have split: "pad_digits 9 f = t @ replicate (9 - length t) (CHR ''0'')"
    using trim_end_zeros_split [of "pad_digits 9 f"] by (simp add: t_def)
  then show "list_all is_ascii_digit t"
    using pad_digits_digits [of 9 f] by (metis list_all_append)
  show "length t \<le> 9" using arg_cong [OF split, of length] by simp
  have "digits_value (pad_digits 9 f) = int f" using assms(2) by (intro pad_digits_value) simp
  with split show dv: "digits_value t * 10 ^ (9 - length t) = int f"
    by (simp add: digits_value_zeros)
  show "t \<noteq> []" using dv assms(1) by auto
qed

lemma parse_digits:
  assumes "list_all is_ascii_digit w" and "w \<noteq> []" and "digits_value w = x"
    and "0 \<le> x" and "in_i64 (x * NANOS_PER_UNIT)"
  shows "Money_parse c w = Inr \<lparr>m_currency = c, nanos = x * NANOS_PER_UNIT\<rparr>"
proof -
  have "in_i128 x" "in_i128 (x * NANOS_PER_UNIT)"
    using assms(4,5) by (auto simp: in_i128_def in_i64_def NANOS_PER_UNIT_def)
  with assms show ?thesis
    using digits_no_dot [OF assms(1)]
    by (simp add: Money_parse_def split_dot_plain fit_i128_def fit_i64_def)
qed

lemma parse_digits_fraction:
  assumes "list_all is_ascii_digit w" and "w \<noteq> []" and "digits_value w = x"
    and "list_all is_ascii_digit t" and "t \<noteq> []" and "length t \<le> 9"
    and "digits_value t * 10 ^ (9 - length t) = f"
    and "0 \<le> x" and "0 \<le> f" and "in_i64 (x * NANOS_PER_UNIT + f)"
  shows "Money_parse c (w @ ''.'' @ t) = Inr \<lparr>m_currency = c, nanos = x * NANOS_PER_UNIT + f\<rparr>"
proof -
  have "in_i128 x" "in_i128 (x * NANOS_PER_UNIT)" "in_i128 (x * NANOS_PER_UNIT + f)"
    using assms(8-10) by (auto simp: in_i128_def in_i64_def NANOS_PER_UNIT_def)
  with assms show ?thesis
    unfolding Money_parse_def split_dot_fraction [OF assms(1)]
    by (simp add: fit_i128_def fit_i64_def)
qed

text \<open>
  C30: printing a non-negative amount and parsing the text in the same currency gives back
  exactly that amount, for every amount the program can hold.
\<close>

theorem decimal_parse_roundtrip:
  assumes "0 \<le> nanos m" and "money_ok m"
  shows "Money_parse (m_currency m) (Money_decimal m) = Inr m"
proof -
  define x where "x = nanos m div NANOS_PER_UNIT"
  define f where "f = nanos m mod NANOS_PER_UNIT"
  have eq: "nanos m = x * NANOS_PER_UNIT + f" by (simp add: x_def f_def)
  have x: "0 \<le> x" and f: "0 \<le> f" "f < 1000000000"
    using assms(1) by (auto simp: x_def f_def NANOS_PER_UNIT_def)
  have m: "m = \<lparr>m_currency = m_currency m, nanos = x * NANOS_PER_UNIT + f\<rparr>"
    using eq by simp
  note w = show_nat_digits [of "nat x"]
  have dec: "Money_decimal m = (if f = 0 then show_nat (nat x)
      else show_nat (nat x) @ ''.'' @ trim_end_zeros (pad_digits 9 (nat f)))"
    using assms(1) f x by (simp add: Money_decimal_def Let_def x_def [symmetric] f_def [symmetric])
  show ?thesis
  proof (cases "f = 0")
    case True
    have "Money_parse (m_currency m) (Money_decimal m)
        = Inr \<lparr>m_currency = m_currency m, nanos = x * NANOS_PER_UNIT\<rparr>"
      unfolding dec if_P [OF True]
      by (rule parse_digits) (use assms(2) eq x w True in \<open>auto simp: money_ok_def\<close>)
    with m True show ?thesis by simp
  next
    case False
    with f have "0 < nat f" "nat f < 1000000000" by auto
    note t = fraction_text [OF this]
    have "Money_parse (m_currency m) (Money_decimal m)
        = Inr \<lparr>m_currency = m_currency m, nanos = x * NANOS_PER_UNIT + f\<rparr>"
      unfolding dec if_not_P [OF False]
      by (rule parse_digits_fraction) (use assms(2) eq x f w t in \<open>auto simp: money_ok_def\<close>)
    with m show ?thesis by simp
  qed
qed

theorem decimal_parse_roundtrip_witness:
  "Money_parse Cny (Money_decimal \<lparr>m_currency = Cny, nanos = 3600000001\<rparr>)
     = Inr \<lparr>m_currency = Cny, nanos = 3600000001\<rparr>"
  using decimal_parse_roundtrip [of "\<lparr>m_currency = Cny, nanos = 3600000001\<rparr>"]
  by (simp add: money_ok_def in_i64_def)

text \<open>
  an exchange rate of at least one destination unit per source unit loses nothing:
  converting an amount and converting the result back with the same rate gives the amount
  again, without an overflow on the way back.
\<close>

theorem convert_reverse_roundtrip:
  assumes "ExchangeRate_convert r a = Inr b" and "money_ok a"
    and "NANOS_PER_UNIT \<le> destination_nanos_per_unit r" and "in_i64 (destination_nanos_per_unit r)"
  shows "ExchangeRate_convert_reverse r b = Inr a"
proof -
  let ?r = "destination_nanos_per_unit r"
  from assms(1) obtain n where conv: "m_currency a = er_from r" "er_from r \<noteq> er_to r" "0 < ?r"
      "round_div (nanos a * ?r) NANOS_PER_UNIT = Inr n" "in_i64 n"
      "b = \<lparr>m_currency = er_to r, nanos = n\<rparr>"
    by (auto simp: convert_eq_Inr)
  have n: "n = (nanos a * ?r + NANOS_PER_UNIT div 2) div NANOS_PER_UNIT"
    using conv(4) by (simp add: round_div_eq_Inr)
  have pos: "0 \<le> n" using conv(4) by (rule round_div_nearest(2))
  have inv: "(n * NANOS_PER_UNIT + ?r div 2) div ?r = nanos a"
    by (rule reverse_quotient [OF _ assms(3) n]) (simp add: NANOS_PER_UNIT_def)
  have "in_i128 (n * NANOS_PER_UNIT)" "in_i128 (n * NANOS_PER_UNIT + ?r div 2)"
    using conv(3,5) assms(4) pos by (auto simp: in_i128_def in_i64_def NANOS_PER_UNIT_def)
  moreover have "0 \<le> n * NANOS_PER_UNIT" using pos by (simp add: NANOS_PER_UNIT_def)
  ultimately show ?thesis
    using conv inv assms(2)
    by (auto simp: convert_reverse_eq_Inr round_div_eq_Inr money_ok_def)
qed

theorem convert_reverse_roundtrip_witness:
  "ExchangeRate_convert_reverse
     \<lparr>er_from = Usd, er_to = Cny, destination_nanos_per_unit = 7200000000\<rparr>
     \<lparr>m_currency = Cny, nanos = 3600000000\<rparr> = Inr \<lparr>m_currency = Usd, nanos = 500000000\<rparr>"
  by (rule convert_reverse_roundtrip)
    (simp_all add: convert_eq_Inr round_div_eq_Inr NANOS_PER_UNIT_def in_i128_def in_i64_def money_ok_def)

section \<open>Charges\<close>

definition line_cost :: "u64 \<times> int option \<Rightarrow> int" where
  "line_cost l = uint (fst l) * (case snd l of None \<Rightarrow> 0 | Some p \<Rightarrow> p)"

definition exact_cost :: "TokenPrices \<Rightarrow> TokenUsage \<Rightarrow> int" where
  "exact_cost p u = sum_list (map line_cost (zip (usage_list u) (price_list p)))"

definition total_tokens :: "TokenUsage \<Rightarrow> int" where
  "total_tokens u = sum_list (map uint (usage_list u))"

lemma charge_lines_Inr:
  assumes "charge_lines acc ls = Inr n"
  shows "n = acc + sum_list (map line_cost ls)"
    and "\<forall>(t, p)\<in>set ls. t \<noteq> 0 \<longrightarrow> (\<exists>v\<ge>0. p = Some v)"
proof -
  have "n = acc + sum_list (map line_cost ls)
    \<and> (\<forall>(t, p)\<in>set ls. t \<noteq> 0 \<longrightarrow> (\<exists>v\<ge>0. p = Some v))"
    using assms
  proof (induction ls arbitrary: acc)
    case (Cons l ls)
    obtain t p where l: "l = (t, p)" by (cases l)
    show ?case
    proof (cases "t = 0")
      case True
      with Cons l show ?thesis by (auto simp: line_cost_def)
    next
      case False
      with Cons.prems l obtain v where v: "p = Some v" "0 \<le> v"
          and rest: "charge_lines (acc + uint t * v) ls = Inr n"
        by (auto simp: result_simps checked_simps split: if_splits)
      from Cons.IH [OF rest] l v show ?thesis by (auto simp: line_cost_def)
    qed
  qed simp
  then show "n = acc + sum_list (map line_cost ls)"
    and "\<forall>(t, p)\<in>set ls. t \<noteq> 0 \<longrightarrow> (\<exists>v\<ge>0. p = Some v)"
    by simp_all
qed

lemma validate_prices_ok_iff:
  "TokenPrices_validate p = Inr () \<longleftrightarrow> (\<forall>v. Some v \<in> set (price_list p) \<longrightarrow> 0 \<le> v)"
  by (auto simp: TokenPrices_validate_def list_ex_iff is_some_and_iff not_less split: if_splits)

lemma charge_eq_Inr:
  "TokenPrices_charge p c u = Inr m \<longleftrightarrow>
     TokenPrices_validate p = Inr () \<and> m_currency m = c \<and> in_i64 (nanos m)
     \<and> (\<exists>k. charge_lines 0 (zip (usage_list u) (price_list p)) = Inr k
            \<and> round_div k TOKENS_PER_MILLION = Inr (nanos m))"
  by (cases m) (auto simp: TokenPrices_charge_def result_simps checked_simps)

text \<open>
  C12: a charge that the code returns is the exact cost rounded to the nearest nano, counted
  once per token category, in the requested currency; every category with at least one token
  had a non-negative price, so a missing price is never billed as free.
\<close>

theorem charge_exact:
  assumes "TokenPrices_charge p c u = Inr m"
  shows "m_currency m = c \<and> 0 \<le> nanos m
    \<and> 2 * \<bar>nanos m * TOKENS_PER_MILLION - exact_cost p u\<bar> \<le> TOKENS_PER_MILLION
    \<and> (\<forall>(t, price)\<in>set (zip (usage_list u) (price_list p)). t \<noteq> 0 \<longrightarrow> (\<exists>v\<ge>0. price = Some v))"
proof -
  from assms obtain k where k: "charge_lines 0 (zip (usage_list u) (price_list p)) = Inr k"
      "round_div k TOKENS_PER_MILLION = Inr (nanos m)" "m_currency m = c"
    by (auto simp: charge_eq_Inr)
  with charge_lines_Inr [OF k(1)] round_div_nearest [OF k(2)] show ?thesis
    by (simp add: exact_cost_def)
qed

theorem charge_exact_witness:
  "nanos \<lparr>m_currency = Usd, nanos = 1000000000\<rparr> = 1000000000 \<and>
   2 * \<bar>1000000000 * TOKENS_PER_MILLION
        - exact_cost \<lparr>tp_input = Some 1000000000, tp_cached_read = Some 200000000,
             tp_cached_write = None, tp_output = Some 4000000000, tp_image_input = None,
             tp_image_output = None\<rparr>
           \<lparr>tu_input = 500000, tu_cached_read = 500000, tu_cached_write = 0,
             tu_output = 100000, tu_image_input = 0, tu_image_output = 0\<rparr>\<bar> \<le> TOKENS_PER_MILLION"
  using charge_exact [of "\<lparr>tp_input = Some 1000000000, tp_cached_read = Some 200000000,
             tp_cached_write = None, tp_output = Some 4000000000, tp_image_input = None,
             tp_image_output = None\<rparr>" Usd
           "\<lparr>tu_input = 500000, tu_cached_read = 500000, tu_cached_write = 0,
             tu_output = 100000, tu_image_input = 0, tu_image_output = 0\<rparr>"
           "\<lparr>m_currency = Usd, nanos = 1000000000\<rparr>"]
  by (simp add: charge_eq_Inr TokenPrices_validate_def price_list_def usage_list_def fit_i128_def
      in_i128_def in_i64_def round_div_eq_Inr TOKENS_PER_MILLION_def)

section \<open>The reference price bounds a million tokens\<close>

lemma list_max_eq_None: "list_max xs = None \<longleftrightarrow> xs = []"
  by (cases xs) auto

lemma list_max_upper: "list_max xs = Some m \<Longrightarrow> x \<in> set xs \<Longrightarrow> x \<le> m"
  by (induction xs arbitrary: m) (force simp: list_max_eq_None split: option.splits)+

lemma list_max_mem: "list_max xs = Some m \<Longrightarrow> m \<in> set xs"
  by (induction xs arbitrary: m) (auto simp: max_def list_max_eq_None split: option.splits if_splits)

lemma set_priced: "set (priced p) = {v. Some v \<in> set (price_list p)}"
  by (force simp: priced_def List.map_filter_def image_iff)

lemma reference_eq_Inr:
  "TokenPrices_reference p c = Inr m \<longleftrightarrow>
     TokenPrices_validate p = Inr () \<and> list_max (priced p) = Some (nanos m)
     \<and> 0 \<le> nanos m \<and> m_currency m = c"
  by (cases m) (auto simp: TokenPrices_reference_def result_simps not_less split: if_splits)

lemma cost_le_max:
  assumes "\<forall>(t, p)\<in>set ls. t \<noteq> 0 \<longrightarrow> (\<exists>v. p = Some v \<and> v \<le> (k::int))" and "0 \<le> k"
  shows "sum_list (map line_cost ls) \<le> k * sum_list (map (\<lambda>l. uint (fst l)) ls)"
  using assms(1)
proof (induction ls)
  case (Cons l ls)
  have "line_cost l \<le> k * uint (fst l)"
  proof (cases "fst l = 0")
    case False
    with Cons.prems obtain v where "snd l = Some v" "v \<le> k" by (cases l) auto
    then show ?thesis by (simp add: line_cost_def mult.commute [of k] mult_left_mono)
  qed (simp add: line_cost_def)
  with Cons show ?case by (simp add: distrib_left)
qed simp

text \<open>
  Any number of tokens: the charge is at most the reference for every million, rounded to the
  nearest nano, so \<open>k\<close> references cover \<open>k\<close> million tokens.
\<close>

lemma charge_scaled_by_reference:
  assumes "TokenPrices_charge p c u = Inr m" and "TokenPrices_reference p c = Inr r"
  shows "nanos m \<le> (nanos r * total_tokens u + TOKENS_PER_MILLION div 2) div TOKENS_PER_MILLION"
    and "total_tokens u \<le> k * TOKENS_PER_MILLION \<Longrightarrow> nanos m \<le> k * nanos r"
proof -
  let ?ls = "zip (usage_list u) (price_list p)"
  from assms(1) obtain n where n: "charge_lines 0 ?ls = Inr n" "round_div n TOKENS_PER_MILLION = Inr (nanos m)"
    by (auto simp: charge_eq_Inr)
  from assms(2) have r: "list_max (priced p) = Some (nanos r)" "0 \<le> nanos r"
    by (auto simp: reference_eq_Inr)
  have "\<forall>(t, q)\<in>set ?ls. t \<noteq> 0 \<longrightarrow> (\<exists>v. q = Some v \<and> v \<le> nanos r)"
    using charge_lines_Inr(2) [OF n(1)] list_max_upper [OF r(1)]
    by (fastforce simp: set_priced dest: set_zip_rightD)
  then have "n \<le> nanos r * sum_list (map (\<lambda>l. uint (fst l)) ?ls)"
    using charge_lines_Inr(1) [OF n(1)] r(2) cost_le_max by auto
  also have "sum_list (map (\<lambda>l. uint (fst l)) ?ls) = total_tokens u"
    by (simp add: total_tokens_def usage_list_def price_list_def)
  finally have n_le: "n \<le> nanos r * total_tokens u" .
  have m: "nanos m = (n + TOKENS_PER_MILLION div 2) div TOKENS_PER_MILLION"
    using n(2) by (simp add: round_div_eq_Inr)
  show bound: "nanos m \<le> (nanos r * total_tokens u + TOKENS_PER_MILLION div 2) div TOKENS_PER_MILLION"
    unfolding m using n_le by (intro zdiv_mono1) (simp_all add: TOKENS_PER_MILLION_def)
  assume "total_tokens u \<le> k * TOKENS_PER_MILLION"
  then have "nanos r * total_tokens u \<le> nanos r * (k * TOKENS_PER_MILLION)"
    using r(2) by (rule mult_left_mono)
  then have "(nanos r * total_tokens u + TOKENS_PER_MILLION div 2) div TOKENS_PER_MILLION
      \<le> (nanos r * k * TOKENS_PER_MILLION + TOKENS_PER_MILLION div 2) div TOKENS_PER_MILLION"
    by (intro zdiv_mono1) (simp_all add: TOKENS_PER_MILLION_def mult.assoc)
  with bound show "nanos m \<le> k * nanos r" by (simp add: TOKENS_PER_MILLION_def mult.commute)
qed

section \<open>The admission decision\<close>

lemma decide_Admit_iff:
  "AdmissionSnapshot_decide s r = Inr Admit \<longleftrightarrow>
     m_currency (balance s) = m_currency (in_flight_reference s) \<and> m_currency (balance s) = m_currency r
     \<and> 0 \<le> nanos (in_flight_reference s) \<and> 0 \<le> nanos r \<and> max_parallel s \<noteq> Some 0
     \<and> 0 < nanos (balance s) \<and> is_none_or (max_parallel s) (\<lambda>limit. in_flight_count s < limit)
     \<and> (in_flight_count s = 0 \<or> nanos (in_flight_reference s) + nanos r \<le> nanos (balance s))"
  by (cases "max_parallel s") (auto simp: AdmissionSnapshot_decide_def not_le split: if_splits)

lemma decide_Reject_iff:
  "AdmissionSnapshot_decide s r = Inr RejectInsufficientBalance \<longleftrightarrow>
     m_currency (balance s) = m_currency (in_flight_reference s) \<and> m_currency (balance s) = m_currency r
     \<and> 0 \<le> nanos (in_flight_reference s) \<and> 0 \<le> nanos r \<and> max_parallel s \<noteq> Some 0
     \<and> nanos (balance s) \<le> 0 \<and> in_flight_count s = 0"
  by (auto simp: AdmissionSnapshot_decide_def split: if_splits)

end
