(* ===== verification/Admission.thy ===== *)
theory Admission
  imports Billing "HOL-Library.AList"
begin

text \<open>
  Per-member accounting of requests in flight (\<open>policy-core/src/billing/admission.rs\<close>):
  the in-memory tracker behind the mutex, the coordinator that turns an acquired identifier
  into a permit, and the release a dropped permit performs. The tracker trait is the locale
  \<open>in_flight_tracker\<close>; the coordinator's guarantees are proved there and the in-memory
  tracker interprets it. Because every operation runs under one lock, concurrent callers are
  sequences of operations.
\<close>

section \<open>The tracker\<close>

datatype TrackerDecision = Acquired u64 | TrackerQueue | TrackerReject

text \<open>
  A hash map whose values are iterated is an association list in iteration order; the other
  maps are only looked up. \<open>poisoned\<close> is the state of the mutex after a panic of a holder.
\<close>

record MemoryState =
  next_id :: u64
  members :: "string \<rightharpoonup> (u64 \<times> Money) list"
  permit_members :: "u64 \<rightharpoonup> string"
  poisoned :: bool

definition MemoryState_default :: MemoryState where
  "MemoryState_default =
     \<lparr>next_id = 0, members = Map.empty, permit_members = Map.empty, poisoned = False\<rparr>"

fun sum_references :: "Money \<Rightarrow> Money list \<Rightarrow> (BillingError, Money) result" where
  "sum_references acc [] = Inr acc"
| "sum_references acc (m # ms) = and_then (Money_checked_add acc m) (\<lambda>acc'. sum_references acc' ms)"

definition active_entries :: "MemoryState \<Rightarrow> string \<Rightarrow> (u64 \<times> Money) list" where
  "active_entries s member = (case members s member of None \<Rightarrow> [] | Some es \<Rightarrow> es)"

definition Memory_try_acquire ::
    "MemoryState \<Rightarrow> string \<Rightarrow> Money \<Rightarrow> Money \<Rightarrow> u32 option
      \<Rightarrow> (BillingError, TrackerDecision) result \<times> MemoryState" where
  "Memory_try_acquire s member bal request_reference limit =
     (if poisoned s then (Inl TrackerUnavailable, s)
      else
        let entries = active_entries s member in
        case u32_try_from (length entries) of
          None \<Rightarrow> (Inl Overflow, s)
        | Some count \<Rightarrow>
           (case sum_references (Money_zero (m_currency bal)) (map snd entries) of
              Inl e \<Rightarrow> (Inl e, s)
            | Inr reference \<Rightarrow>
               (case AdmissionSnapshot_decide
                       \<lparr>balance = bal, in_flight_reference = reference,
                        in_flight_count = count, max_parallel = limit\<rparr> request_reference of
                  Inl e \<Rightarrow> (Inl e, s)
                | Inr Queue \<Rightarrow> (Inr TrackerQueue, s)
                | Inr RejectInsufficientBalance \<Rightarrow> (Inr TrackerReject, s)
                | Inr Admit \<Rightarrow>
                   (case checked_add (next_id s) 1 of
                      None \<Rightarrow> (Inl Overflow, s)
                    | Some pid \<Rightarrow>
                       (Inr (Acquired pid),
                        s\<lparr>next_id := pid,
                          permit_members := (permit_members s)(pid \<mapsto> member),
                          members := (members s)(member \<mapsto> AList.update pid request_reference entries)\<rparr>)))))"

definition Memory_release :: "MemoryState \<Rightarrow> u64 \<Rightarrow> MemoryState" where
  "Memory_release s pid =
     (if poisoned s then s
      else case permit_members s pid of
             None \<Rightarrow> s
           | Some member \<Rightarrow>
              (let s' = s\<lparr>permit_members := (permit_members s)(pid := None)\<rparr> in
               case members s' member of
                 None \<Rightarrow> s'
               | Some entries \<Rightarrow>
                  (let left = AList.delete pid entries in
                   if left = [] then s'\<lparr>members := (members s')(member := None)\<rparr>
                   else s'\<lparr>members := (members s')(member \<mapsto> left)\<rparr>)))"

section \<open>The coordinator\<close>

text \<open>A permit keeps the identifier to release; dropping it releases on every path.\<close>

record InFlightPermit =
  permit_id :: u64

datatype AdmissionOutcome =
  OutcomeAcquired InFlightPermit | OutcomeQueue | OutcomeReject

definition Coordinator_try_acquire ::
    "('s \<Rightarrow> string \<Rightarrow> Money \<Rightarrow> Money \<Rightarrow> u32 option
        \<Rightarrow> (BillingError, TrackerDecision) result \<times> 's)
      \<Rightarrow> 's \<Rightarrow> string \<Rightarrow> Money \<Rightarrow> Money \<Rightarrow> u32 option
      \<Rightarrow> (BillingError, AdmissionOutcome) result \<times> 's" where
  "Coordinator_try_acquire try_acquire s member bal request_reference limit =
     (case try_acquire s member bal request_reference limit of
        (Inl e, s') \<Rightarrow> (Inl e, s')
      | (Inr (Acquired pid), s') \<Rightarrow> (Inr (OutcomeAcquired \<lparr>permit_id = pid\<rparr>), s')
      | (Inr TrackerQueue, s') \<Rightarrow> (Inr OutcomeQueue, s')
      | (Inr TrackerReject, s') \<Rightarrow> (Inr OutcomeReject, s'))"

definition InFlightPermit_drop :: "('s \<Rightarrow> u64 \<Rightarrow> 's) \<Rightarrow> 's \<Rightarrow> InFlightPermit \<Rightarrow> 's" where
  "InFlightPermit_drop release s p = release s (permit_id p)"

text \<open>Calls as they reach the lock, in the order it serialises them.\<close>

datatype tracker_op = TryAcquire string Money Money "u32 option" | DropPermit u64

fun run_ops :: "('s \<Rightarrow> string \<Rightarrow> Money \<Rightarrow> Money \<Rightarrow> u32 option
      \<Rightarrow> (BillingError, TrackerDecision) result \<times> 's)
    \<Rightarrow> ('s \<Rightarrow> u64 \<Rightarrow> 's) \<Rightarrow> 's \<Rightarrow> tracker_op list \<Rightarrow> 's" where
  "run_ops acq rel s [] = s"
| "run_ops acq rel s (TryAcquire m b r l # ops) = run_ops acq rel (snd (acq s m b r l)) ops"
| "run_ops acq rel s (DropPermit pid # ops) = run_ops acq rel (rel s pid) ops"

section \<open>What a tracker promises\<close>

text \<open>
  \<open>live\<close> is the abstract state: which identifiers are in flight, for which member and
  reference amount.
\<close>

locale in_flight_tracker =
  fixes try_acquire :: "'s \<Rightarrow> string \<Rightarrow> Money \<Rightarrow> Money \<Rightarrow> u32 option
      \<Rightarrow> (BillingError, TrackerDecision) result \<times> 's"
    and release :: "'s \<Rightarrow> u64 \<Rightarrow> 's"
    and invar :: "'s \<Rightarrow> bool"
    and live :: "'s \<Rightarrow> u64 \<Rightarrow> (string \<times> Money) option"
  assumes acquired: "invar s \<Longrightarrow> try_acquire s m b r l = (Inr (Acquired pid), s') \<Longrightarrow>
      live s pid = None \<and> live s' = (live s)(pid \<mapsto> (m, r))"
    and refused: "invar s \<Longrightarrow> try_acquire s m b r l = (d, s') \<Longrightarrow>
      \<forall>pid. d \<noteq> Inr (Acquired pid) \<Longrightarrow> s' = s"
    and released: "invar s \<Longrightarrow> live (release s pid) = (live s)(pid := None)"
    and invar_acquire: "invar s \<Longrightarrow> invar (snd (try_acquire s m b r l))"
    and invar_release: "invar s \<Longrightarrow> invar (release s pid)"
begin

lemma invar_run_ops: "invar s \<Longrightarrow> invar (run_ops try_acquire release s ops)"
proof (induction ops arbitrary: s)
  case (Cons op ops)
  then show ?case by (cases op) (auto simp: invar_acquire invar_release)
qed simp

lemma coordinator_acquired:
  assumes "invar s"
    and "Coordinator_try_acquire try_acquire s m b r l = (Inr (OutcomeAcquired p), s')"
  shows "live s (permit_id p) = None \<and> live s' = (live s)(permit_id p \<mapsto> (m, r))"
proof -
  from assms(2) obtain pid where "try_acquire s m b r l = (Inr (Acquired pid), s')"
      and "p = \<lparr>permit_id = pid\<rparr>"
    by (auto simp: Coordinator_try_acquire_def split: prod.splits sum.splits TrackerDecision.splits)
  with acquired [OF assms(1)] show ?thesis by simp
qed

lemma coordinator_not_acquired:
  assumes "invar s" and "Coordinator_try_acquire try_acquire s m b r l = (d, s')"
    and "\<forall>p. d \<noteq> Inr (OutcomeAcquired p)"
  shows "s' = s"
proof -
  obtain d' where t: "try_acquire s m b r l = (d', s')"
    using assms(2)
    by (auto simp: Coordinator_try_acquire_def split: prod.splits sum.splits TrackerDecision.splits)
  with assms(2,3) have "\<forall>pid. d' \<noteq> Inr (Acquired pid)"
    by (auto simp: Coordinator_try_acquire_def)
  with refused [OF assms(1) t] show ?thesis .
qed

text \<open>A permit taken and dropped again leaves no trace in the accounting.\<close>

lemma coordinator_acquire_drop:
  assumes "invar s"
    and "Coordinator_try_acquire try_acquire s m b r l = (Inr (OutcomeAcquired p), s')"
  shows "live (InFlightPermit_drop release s' p) = live s"
proof -
  have "invar s'"
    using invar_acquire [OF assms(1), of m b r l] assms(2)
    by (auto simp: Coordinator_try_acquire_def split: prod.splits sum.splits TrackerDecision.splits)
  with coordinator_acquired [OF assms] show ?thesis
    by (auto simp: InFlightPermit_drop_def released)
qed

text \<open>Dropping every live permit, in any order, empties the accounting.\<close>

lemma drop_all:
  assumes "invar s" and "dom (live s) \<subseteq> set pids"
  shows "live (run_ops try_acquire release s (map DropPermit pids)) = Map.empty"
  using assms
proof (induction pids arbitrary: s)
  case Nil
  then show ?case by simp
next
  case (Cons pid pids)
  have "dom (live (release s pid)) \<subseteq> set pids"
    using Cons.prems by (auto simp: released)
  with Cons.IH [of "release s pid"] Cons.prems(1) show ?case by (simp add: invar_release)
qed

end

section \<open>The in-memory tracker keeps its maps consistent\<close>

definition Memory_live :: "MemoryState \<Rightarrow> u64 \<Rightarrow> (string \<times> Money) option" where
  "Memory_live s pid =
     (case permit_members s pid of None \<Rightarrow> None
      | Some m \<Rightarrow> map_option (\<lambda>r. (m, r)) (map_of (active_entries s m) pid))"

text \<open>
  Each member entry is non-empty, holds each identifier once, and the two maps agree; every
  identifier in use was handed out before.
\<close>

definition entries_ok :: "MemoryState \<Rightarrow> string \<Rightarrow> (u64 \<times> Money) list \<Rightarrow> bool" where
  "entries_ok s m es \<longleftrightarrow> es \<noteq> [] \<and> distinct (map fst es)
     \<and> (\<forall>(pid, r)\<in>set es. permit_members s pid = Some m \<and> 0 \<le> nanos r)"

definition memory_ok :: "MemoryState \<Rightarrow> bool" where
  "memory_ok s \<longleftrightarrow> \<not> poisoned s
     \<and> (\<forall>m es. members s m = Some es \<longrightarrow> entries_ok s m es)
     \<and> (\<forall>pid m. permit_members s pid = Some m \<longrightarrow>
           pid \<in> fst ` set (active_entries s m) \<and> pid \<le> next_id s)"

lemma memory_ok_default: "memory_ok MemoryState_default"
  by (simp add: memory_ok_def MemoryState_default_def)

lemma memory_okD:
  assumes "memory_ok s"
  shows "\<not> poisoned s" and "members s m = Some es \<Longrightarrow> entries_ok s m es"
    and "permit_members s pid = Some m \<Longrightarrow> pid \<in> fst ` set (active_entries s m)"
    and "permit_members s pid = Some m \<Longrightarrow> pid \<le> next_id s"
  using assms unfolding memory_ok_def by blast+

lemma active_entries_distinct: "memory_ok s \<Longrightarrow> distinct (map fst (active_entries s m))"
  by (auto simp: active_entries_def entries_ok_def dest!: memory_okD(2) split: option.splits)

lemma active_entries_permit:
  "memory_ok s \<Longrightarrow> (pid, r) \<in> set (active_entries s m) \<Longrightarrow> permit_members s pid = Some m \<and> 0 \<le> nanos r"
proof -
  assume ok: "memory_ok s" and mem: "(pid, r) \<in> set (active_entries s m)"
  then obtain es where "members s m = Some es" "(pid, r) \<in> set es"
    by (cases "members s m") (auto simp: active_entries_def)
  with memory_okD(2) [OF ok] show ?thesis by (fastforce simp: entries_ok_def)
qed

lemma fresh_id:
  assumes "memory_ok s" and "checked_add (next_id s) 1 = Some pid"
  shows "permit_members s pid = None"
proof (rule ccontr)
  assume "permit_members s pid \<noteq> None"
  then have "pid \<le> next_id s" using memory_okD(4) [OF assms(1)] by auto
  with checked_add_one_lt [OF assms(2)] show False by simp
qed

lemma update_fresh: "pid \<notin> fst ` set es \<Longrightarrow> AList.update pid r es = es @ [(pid, r)]"
  by (induction es) auto

lemma Memory_acquire_cases:
  assumes "Memory_try_acquire s m b r l = (Inr (Acquired pid), s')"
  obtains count reference where
    "checked_add (next_id s) 1 = Some pid"
    "u32_try_from (length (active_entries s m)) = Some count"
    "sum_references (Money_zero (m_currency b)) (map snd (active_entries s m)) = Inr reference"
    "AdmissionSnapshot_decide \<lparr>balance = b, in_flight_reference = reference,
        in_flight_count = count, max_parallel = l\<rparr> r = Inr Admit"
    "s' = s\<lparr>next_id := pid, permit_members := (permit_members s)(pid \<mapsto> m),
        members := (members s)(m \<mapsto> AList.update pid r (active_entries s m))\<rparr>"
  using assms
  by (auto simp: Memory_try_acquire_def Let_def
      split: if_splits option.splits sum.splits AdmissionDecision.splits)

lemma Memory_not_acquired:
  "Memory_try_acquire s m b r l = (d, s') \<Longrightarrow> \<forall>pid. d \<noteq> Inr (Acquired pid) \<Longrightarrow> s' = s"
  by (auto simp: Memory_try_acquire_def Let_def
      split: if_splits option.splits sum.splits AdmissionDecision.splits)

lemma Memory_acquired_effect:
  assumes ok: "memory_ok s" and "Memory_try_acquire s m b r l = (Inr (Acquired pid), s')"
  shows "permit_members s pid = None" and "pid \<notin> fst ` set (active_entries s k)"
    and "active_entries s' k = (if k = m then active_entries s m @ [(pid, r)] else active_entries s k)"
    and "permit_members s' = (permit_members s)(pid \<mapsto> m)"
    and "next_id s < pid" and "next_id s' = pid" and "0 \<le> nanos r"
    and "members s' = (members s)(m \<mapsto> active_entries s m @ [(pid, r)])" and "poisoned s' = poisoned s"
proof -
  obtain count reference where c: "checked_add (next_id s) 1 = Some pid"
      "AdmissionSnapshot_decide \<lparr>balance = b, in_flight_reference = reference,
        in_flight_count = count, max_parallel = l\<rparr> r = Inr Admit"
      "s' = s\<lparr>next_id := pid, permit_members := (permit_members s)(pid \<mapsto> m),
        members := (members s)(m \<mapsto> AList.update pid r (active_entries s m))\<rparr>"
    using assms(2) by (rule Memory_acquire_cases)
  show fresh: "permit_members s pid = None" using fresh_id [OF ok c(1)] .
  then show out: "pid \<notin> fst ` set (active_entries s k)" for k
    using active_entries_permit [OF ok] by fastforce
  show "members s' = (members s)(m \<mapsto> active_entries s m @ [(pid, r)])"
    using c(3) update_fresh [OF out] by simp
  then show "active_entries s' k = (if k = m then active_entries s m @ [(pid, r)] else active_entries s k)"
    by (simp add: active_entries_def)
  show "next_id s < pid" using checked_add_one_lt [OF c(1)] .
  show "0 \<le> nanos r" using c(2) by (simp add: decide_Admit_iff)
qed (use assms(2) in \<open>auto elim!: Memory_acquire_cases\<close>)

lemma Memory_acquire_ok:
  assumes ok: "memory_ok s"
  shows "memory_ok (snd (Memory_try_acquire s m b r l))"
proof (cases "\<exists>pid. fst (Memory_try_acquire s m b r l) = Inr (Acquired pid)")
  case False
  then have "snd (Memory_try_acquire s m b r l) = s"
    by (cases "Memory_try_acquire s m b r l") (auto dest: Memory_not_acquired)
  with ok show ?thesis by simp
next
  case True
  then obtain pid s' where t: "Memory_try_acquire s m b r l = (Inr (Acquired pid), s')"
    by (cases "Memory_try_acquire s m b r l") auto
  note eff = Memory_acquired_effect [OF ok t]
  have "entries_ok s' k es" if "members s' k = Some es" for k es
  proof (cases "k = m")
    case True
    with that eff(8) have "es = active_entries s m @ [(pid, r)]" by simp
    moreover have "pid \<notin> fst ` set (active_entries s m)" by (rule eff(2))
    ultimately show ?thesis
      using active_entries_distinct [OF ok, of m] active_entries_permit [OF ok] eff(1,4,7) True
      by (auto simp: entries_ok_def)
  next
    case False
    with that eff(8) have "members s k = Some es" by simp
    with memory_okD(2) [OF ok] eff(1,4) show ?thesis by (fastforce simp: entries_ok_def)
  qed
  moreover have "q \<in> fst ` set (active_entries s' k) \<and> q \<le> next_id s'"
    if "permit_members s' q = Some k" for q k
  proof (cases "q = pid")
    case True
    with that eff(4) have "k = m" by simp
    with True eff(3,6) show ?thesis by simp
  next
    case False
    with that eff(4) have "permit_members s q = Some k" by simp
    with memory_okD(3,4) [OF ok, of q k] have "q \<in> fst ` set (active_entries s k)" "q \<le> next_id s"
      by auto
    with eff(3) [of k] eff(5,6) show ?thesis by auto
  qed
  ultimately have "memory_ok s'" using memory_okD(1) [OF ok] eff(9) by (simp add: memory_ok_def)
  with t show ?thesis by simp
qed

lemma Memory_release_effect:
  assumes ok: "memory_ok s"
  shows "permit_members (Memory_release s pid) = (permit_members s)(pid := None)"
    and "active_entries (Memory_release s pid) k = AList.delete pid (active_entries s k)"
    and "next_id (Memory_release s pid) = next_id s" and "poisoned (Memory_release s pid) = poisoned s"
    and "members (Memory_release s pid) k = Some es \<Longrightarrow> es \<noteq> []"
proof -
  have other: "AList.delete pid (active_entries s k) = active_entries s k"
    if "permit_members s pid \<noteq> Some k" for k
    using that active_entries_permit [OF ok, of pid _ k]
    by (fastforce simp: AList.delete_eq filter_id_conv)
  have "\<exists>es. members s m = Some es" if "permit_members s pid = Some m" for m
    using memory_okD(3) [OF ok that] by (cases "members s m") (auto simp: active_entries_def)
  then show "permit_members (Memory_release s pid) = (permit_members s)(pid := None)"
    and "active_entries (Memory_release s pid) k = AList.delete pid (active_entries s k)"
    and "next_id (Memory_release s pid) = next_id s" and "poisoned (Memory_release s pid) = poisoned s"
    and "members (Memory_release s pid) k = Some es \<Longrightarrow> es \<noteq> []"
    using memory_okD(1,2) [OF ok] other [of k]
    by (auto simp: Memory_release_def Let_def active_entries_def entries_ok_def
        split: option.splits if_splits)
qed

lemma Memory_release_ok:
  assumes ok: "memory_ok s"
  shows "memory_ok (Memory_release s pid)"
proof -
  note eff = Memory_release_effect [OF ok, of pid]
  have "entries_ok (Memory_release s pid) k es" if k: "members (Memory_release s pid) k = Some es" for k es
  proof -
    have es: "es = AList.delete pid (active_entries s k)"
      using eff(2) [of k] k by (simp add: active_entries_def)
    have "permit_members s q = Some k \<and> 0 \<le> nanos r \<and> q \<noteq> pid" if "(q, r) \<in> set es" for q r
      using that active_entries_permit [OF ok, of q r k] unfolding es
      by (auto simp: AList.delete_eq)
    with es eff(1) eff(5) [OF k] active_entries_distinct [OF ok, of k] show ?thesis
      by (auto simp: entries_ok_def AList.distinct_delete)
  qed
  moreover have "q \<in> fst ` set (active_entries (Memory_release s pid) k) \<and> q \<le> next_id s"
    if "permit_members (Memory_release s pid) q = Some k" for q k
    using that eff(1,2) memory_okD(3,4) [OF ok, of q k]
    by (auto simp: AList.delete_eq image_iff split: if_splits)
  ultimately show ?thesis using memory_okD(1) [OF ok] eff(3,4) by (simp add: memory_ok_def)
qed

interpretation memory_tracker: in_flight_tracker Memory_try_acquire Memory_release memory_ok Memory_live
proof (unfold_locales, goal_cases)
  case (1 s m b r l pid s')
  note eff = Memory_acquired_effect [OF 1]
  have "pid \<notin> fst ` set (active_entries s m)" by (rule eff(2))
  then have none: "map_of (active_entries s m) pid = None" by (simp add: map_of_eq_None_iff)
  have "Memory_live s' q = ((Memory_live s)(pid \<mapsto> (m, r))) q" for q
    using eff(1,3,4) none by (auto simp: Memory_live_def map_add_def split: option.splits)
  with eff(1) show ?case by (auto simp: Memory_live_def)
next
  case (2 s m b r l d s')
  then show ?case using Memory_not_acquired by blast
next
  case (3 s pid)
  note eff = Memory_release_effect [OF 3, of pid]
  have "Memory_live (Memory_release s pid) q = ((Memory_live s)(pid := None)) q" for q
    using eff(1,2) by (auto simp: Memory_live_def AList.delete_conv' split: option.splits)
  then show ?case by blast
next
  case (4 s m b r l)
  then show ?case by (rule Memory_acquire_ok)
next
  case (5 s pid)
  then show ?case by (rule Memory_release_ok)
qed

section \<open>Safety of the accounting\<close>

abbreviation memory_run :: "tracker_op list \<Rightarrow> MemoryState" where
  "memory_run ops \<equiv> run_ops Memory_try_acquire Memory_release MemoryState_default ops"

definition in_flight_total :: "MemoryState \<Rightarrow> string \<Rightarrow> int" where
  "in_flight_total s m = sum_list (map (\<lambda>e. nanos (snd e)) (active_entries s m))"

lemma memory_run_ok: "memory_ok (memory_run ops)"
  using memory_ok_default by (rule memory_tracker.invar_run_ops)

lemma sum_references_total:
  "sum_references acc ms = Inr t \<Longrightarrow>
     m_currency t = m_currency acc \<and> nanos t = nanos acc + sum_list (map nanos ms)"
  by (induction ms arbitrary: acc) (auto simp: result_simps checked_simps Money_checked_add_def split: if_splits)

text \<open>
  The iteration order of the hash map does not matter: for non-negative amounts the sum
  succeeds exactly when the currencies agree and the total fits, which is the same for every
  order.
\<close>

lemma sum_references_order:
  assumes "\<forall>m\<in>set ms. 0 \<le> nanos m" and "0 \<le> nanos acc" and "money_ok acc"
  shows "is_ok (sum_references acc ms) \<longleftrightarrow>
    (\<forall>m\<in>set ms. m_currency m = m_currency acc) \<and> in_i64 (nanos acc + sum_list (map nanos ms))"
  using assms
proof (induction ms arbitrary: acc)
  case Nil
  then show ?case by (simp add: money_ok_def)
next
  case (Cons m ms)
  let ?acc = "\<lparr>m_currency = m_currency acc, nanos = nanos acc + nanos m\<rparr>"
  have rest: "0 \<le> sum_list (map nanos ms)"
    using Cons.prems(1) by (intro sum_list_nonneg) auto
  show ?case
  proof (cases "m_currency m = m_currency acc \<and> in_i64 (nanos acc + nanos m)")
    case True
    with Cons.prems Cons.IH [of ?acc] show ?thesis
      by (simp add: Money_checked_add_def fit_i64_def money_ok_def add.assoc)
  next
    case False
    with Cons.prems rest show ?thesis
      by (auto simp: Money_checked_add_def fit_i64_def in_i64_def)
  qed
qed

lemma Memory_acquire_admits:
  assumes "memory_ok s" and "Memory_try_acquire s m b r l = (Inr (Acquired pid), s')"
  shows "0 < nanos b" and "is_none_or l (\<lambda>n. length (active_entries s' m) \<le> unat n)"
    and "active_entries s m = [] \<or> in_flight_total s' m \<le> nanos b"
proof -
  obtain count reference where c:
      "u32_try_from (length (active_entries s m)) = Some count"
      "sum_references (Money_zero (m_currency b)) (map snd (active_entries s m)) = Inr reference"
      "AdmissionSnapshot_decide \<lparr>balance = b, in_flight_reference = reference,
        in_flight_count = count, max_parallel = l\<rparr> r = Inr Admit"
    using assms(2) by (rule Memory_acquire_cases)
  have entries: "active_entries s' m = active_entries s m @ [(pid, r)]"
    using Memory_acquired_effect(3) [OF assms] by simp
  have n: "unat count = length (active_entries s m)" using c(1) by (simp add: u32_try_from_Some)
  have "nanos reference = in_flight_total s m"
    using sum_references_total [OF c(2)] by (simp add: in_flight_total_def Money_zero_def comp_def)
  then have total: "in_flight_total s' m = nanos reference + nanos r"
    by (simp add: in_flight_total_def entries)
  show "0 < nanos b" using c(3) by (simp add: decide_Admit_iff)
  show "is_none_or l (\<lambda>n. length (active_entries s' m) \<le> unat n)"
    using c(3) n entries by (cases l) (auto simp: decide_Admit_iff word_less_nat_alt)
  show "active_entries s m = [] \<or> in_flight_total s' m \<le> nanos b"
    using c(3) n total by (cases "count = 0") (auto simp: decide_Admit_iff)
qed

text \<open>
  C4: whatever requests and drops reached the lock before, a request the tracker admits gets
  an identifier that is not in flight, the account has a positive balance, the member's
  parallel limit still holds with the new request counted, and when other requests of the
  member are in flight the balance covers all their reference amounts and the new one's.
\<close>

theorem admitted_exposure_is_covered:
  assumes "Memory_try_acquire (memory_run ops) m b r l = (Inr (Acquired pid), s')"
  shows "Memory_live (memory_run ops) pid = None
    \<and> Memory_live s' = (Memory_live (memory_run ops))(pid \<mapsto> (m, r))
    \<and> 0 < nanos b \<and> is_none_or l (\<lambda>n. length (active_entries s' m) \<le> unat n)
    \<and> (active_entries (memory_run ops) m = [] \<or> in_flight_total s' m \<le> nanos b)"
  using memory_tracker.acquired [OF memory_run_ok assms] Memory_acquire_admits [OF memory_run_ok assms]
  by blast

text \<open>Two requests of one member and one of another are in flight, one of which ended.\<close>

definition sample_admissions :: "tracker_op list" where
  "sample_admissions =
     [TryAcquire ''a'' \<lparr>m_currency = Usd, nanos = 500\<rparr> \<lparr>m_currency = Usd, nanos = 100\<rparr> (Some 3),
      TryAcquire ''b'' \<lparr>m_currency = Usd, nanos = 900\<rparr> \<lparr>m_currency = Usd, nanos = 800\<rparr> None,
      TryAcquire ''a'' \<lparr>m_currency = Usd, nanos = 500\<rparr> \<lparr>m_currency = Usd, nanos = 150\<rparr> (Some 3), DropPermit 2]"

lemma sample_admissions_run:
  "memory_run sample_admissions = \<lparr>next_id = 3,
     members = [''a'' \<mapsto> [(1, \<lparr>m_currency = Usd, nanos = 100\<rparr>), (3, \<lparr>m_currency = Usd, nanos = 150\<rparr>)]],
     permit_members = [1 \<mapsto> ''a'', 3 \<mapsto> ''a''], poisoned = False\<rparr>"
  by (simp add: sample_admissions_def Memory_try_acquire_def Memory_release_def MemoryState_default_def active_entries_def
      u32_try_from_def Money_zero_def Money_checked_add_def AdmissionSnapshot_decide_def checked_add_def fit_i64_def in_i64_def
      Let_def word_less_nat_alt word_le_nat_alt fun_upd_twist ext)

theorem admitted_exposure_is_covered_witness:
  "\<exists>s'. Memory_try_acquire (memory_run sample_admissions) ''a'' \<lparr>m_currency = Usd, nanos = 500\<rparr>
       \<lparr>m_currency = Usd, nanos = 200\<rparr> (Some 3) = (Inr (Acquired 4), s')
     \<and> length (active_entries (memory_run sample_admissions) ''a'') = 2
     \<and> Memory_live (memory_run sample_admissions) 4 = None
     \<and> length (active_entries s' ''a'') \<le> 3 \<and> in_flight_total s' ''a'' \<le> 500"
proof -
  let ?b = "\<lparr>m_currency = Usd, nanos = 500\<rparr>" and ?r = "\<lparr>m_currency = Usd, nanos = 200\<rparr>"
  have "fst (Memory_try_acquire (memory_run sample_admissions) ''a'' ?b ?r (Some 3)) = Inr (Acquired 4)"
    by (simp add: sample_admissions_run Memory_try_acquire_def active_entries_def u32_try_from_def Money_zero_def
        Money_checked_add_def AdmissionSnapshot_decide_def checked_add_def fit_i64_def in_i64_def word_less_nat_alt)
  then have acq: "Memory_try_acquire (memory_run sample_admissions) ''a'' ?b ?r (Some 3)
      = (Inr (Acquired 4), snd (Memory_try_acquire (memory_run sample_admissions) ''a'' ?b ?r (Some 3)))"
    by (metis prod.collapse)
  have two: "length (active_entries (memory_run sample_admissions) ''a'') = 2"
    by (simp add: sample_admissions_run active_entries_def)
  then have "active_entries (memory_run sample_admissions) ''a'' \<noteq> []" by auto
  with admitted_exposure_is_covered [OF acq] two acq show ?thesis by auto
qed

lemma run_ops_snoc:
  "run_ops acq rel s (ops @ [op]) = run_ops acq rel (run_ops acq rel s ops) [op]"
  by (induction acq rel s ops rule: run_ops.induct) auto

lemma delete_length: "length (AList.delete k es) \<le> length es"
  by (simp add: AList.delete_eq)

text \<open>
  if every request of a member is made with the parallel limit \<open>n\<close>, then after any
  interleaving of requests and drops of all members at most \<open>n\<close> requests of that member
  are in flight.
\<close>

theorem parallel_limit_holds:
  assumes "\<forall>b r l. TryAcquire m b r l \<in> set ops \<longrightarrow> l = Some n"
  shows "length (active_entries (memory_run ops) m) \<le> unat n"
  using assms
proof (induction ops rule: rev_induct)
  case Nil
  then show ?case by (simp add: MemoryState_default_def active_entries_def)
next
  case (snoc op ops)
  let ?s = "memory_run ops"
  have ih: "length (active_entries ?s m) \<le> unat n" using snoc by simp
  show ?case
  proof (cases op)
    case (DropPermit pid)
    then show ?thesis
      using ih delete_length [of pid "active_entries ?s m"]
      by (simp add: run_ops_snoc Memory_release_effect(2) [OF memory_run_ok])
  next
    case (TryAcquire k b r l)
    obtain d s' where t: "Memory_try_acquire ?s k b r l = (d, s')" by fastforce
    then have eq: "memory_run (ops @ [op]) = s'" using TryAcquire by (simp add: run_ops_snoc)
    show ?thesis
    proof (cases "\<exists>pid. d = Inr (Acquired pid)")
      case False
      with Memory_not_acquired [OF t] ih eq show ?thesis by simp
    next
      case True
      then obtain pid where t': "Memory_try_acquire ?s k b r l = (Inr (Acquired pid), s')"
        using t by blast
      show ?thesis
      proof (cases "k = m")
        case True
        with snoc.prems TryAcquire have "l = Some n" by simp
        with Memory_acquire_admits(2) [OF memory_run_ok t'] eq True show ?thesis by simp
      next
        case False
        with Memory_acquired_effect(3) [OF memory_run_ok t', of m] ih eq show ?thesis by simp
      qed
    qed
  qed
qed

theorem parallel_limit_holds_witness:
  "length (active_entries (memory_run
      [TryAcquire ''member'' \<lparr>m_currency = Cny, nanos = 300\<rparr> \<lparr>m_currency = Cny, nanos = 100\<rparr> (Some 2),
       TryAcquire ''member'' \<lparr>m_currency = Cny, nanos = 300\<rparr> \<lparr>m_currency = Cny, nanos = 100\<rparr> (Some 2),
       TryAcquire ''member'' \<lparr>m_currency = Cny, nanos = 300\<rparr> \<lparr>m_currency = Cny, nanos = 100\<rparr> (Some 2)])
      ''member'') \<le> unat (2 :: u32)"
  by (rule parallel_limit_holds) auto

text \<open>
  no reference amount leaks: after any history, dropping the permits that are in flight,
  in any order, empties the accounting of every member.
\<close>

theorem dropped_permits_leave_nothing:
  assumes "dom (Memory_live (memory_run ops)) \<subseteq> set pids"
  shows "Memory_live (memory_run (ops @ map DropPermit pids)) = Map.empty
    \<and> members (memory_run (ops @ map DropPermit pids)) = Map.empty"
proof -
  let ?t = "memory_run (ops @ map DropPermit pids)"
  have app: "run_ops acq rel s (xs @ ys) = run_ops acq rel (run_ops acq rel s xs) ys"
    for acq rel and s :: MemoryState and xs ys
    by (induction acq rel s xs rule: run_ops.induct) auto
  have live: "Memory_live ?t = Map.empty"
    using memory_tracker.drop_all [OF memory_run_ok assms] by (simp add: app)
  have "members ?t m = None" for m
  proof (rule ccontr)
    assume "members ?t m \<noteq> None"
    then obtain es where es: "members ?t m = Some es" by auto
    with memory_okD(2) [OF memory_run_ok] have ok: "entries_ok ?t m es" by blast
    then obtain pid r where "(pid, r) \<in> set es" by (cases es) (auto simp: entries_ok_def)
    with ok es have "Memory_live ?t pid \<noteq> None"
      by (fastforce simp: Memory_live_def entries_ok_def active_entries_def map_of_eq_None_iff)
    with live show False by simp
  qed
  with live show ?thesis by auto
qed

theorem dropped_permits_leave_nothing_witness:
  "members (memory_run ([TryAcquire ''member-a'' \<lparr>m_currency = Usd, nanos = 500\<rparr>
       \<lparr>m_currency = Usd, nanos = 1000\<rparr> None] @ map DropPermit [1])) = Map.empty"
proof -
  let ?ops = "[TryAcquire ''member-a'' \<lparr>m_currency = Usd, nanos = 500\<rparr> \<lparr>m_currency = Usd, nanos = 1000\<rparr> None]"
  have "dom (Memory_live (memory_run ?ops)) \<subseteq> set [1]"
    by (auto simp: Memory_try_acquire_def MemoryState_default_def active_entries_def u32_try_from_def
        Money_zero_def AdmissionSnapshot_decide_def checked_add_def Memory_live_def split: if_splits)
  from dropped_permits_leave_nothing [OF this] show ?thesis by blast
qed

end
