(* ===== verification/UpgradeBase.thy ===== *)
theory UpgradeBase
  imports Prelude
begin

text \<open>
  Shared contracts of the upgrade executor (\<open>upgrade-core/src/lib.rs\<close> and
  \<open>upgrade-core/src/runtime.rs\<close>): release slots, the active-slot and maintenance-job files
  with their validation, runtime snapshots and the comparisons that make one snapshot evidence
  about another, readiness contracts and the proxy summary. The traits of \<open>runtime.rs\<close> become
  records of calls on a world, next to the code that uses them.
\<close>

section \<open>Identifiers, checksums and versions\<close>

definition valid_identifier :: "string \<Rightarrow> bool" where
  "valid_identifier s \<longleftrightarrow> s \<noteq> [] \<and> length s \<le> 160
     \<and> list_all (\<lambda>b. is_ascii_alphanumeric b \<or> byte_of b \<in> {95, 45, 46, 64}) s"

definition valid_checksum :: "string \<Rightarrow> bool" where
  "valid_checksum s \<longleftrightarrow> length s = 64 \<and> list_all is_lower_hex s"

definition version_core :: "string \<Rightarrow> string" where
  "version_core s = takeWhile (\<lambda>c. byte_of c \<noteq> 45 \<and> byte_of c \<noteq> 43) s"

definition valid_version :: "string \<Rightarrow> bool" where
  "valid_version s \<longleftrightarrow>
     (let parts = split_byte 46 (version_core s) in
      length parts = 3 \<and> list_all (\<lambda>p. p \<noteq> [] \<and> list_all is_ascii_digit p) parts
      \<and> length s \<le> 128
      \<and> list_all (\<lambda>b. is_ascii_alphanumeric b \<or> byte_of b \<in> {46, 45, 43}) s)"

section \<open>Modes and slots\<close>

datatype UpgradeMode = Maintenance | BlueGreen

record UpgradeCapabilities =
  database_driver :: string
  supported_modes :: "UpgradeMode list"
  unavailable_reason :: string

text \<open>\<open>linux_amd64\<close> is the compile-time condition on the target.\<close>

definition UpgradeCapabilities_for_database :: "bool \<Rightarrow> string \<Rightarrow> UpgradeCapabilities" where
  "UpgradeCapabilities_for_database linux_amd64 driver =
     \<lparr>database_driver = driver,
      supported_modes = (if driver = ''sqlcipher'' \<or> (driver = ''mariadb'' \<and> linux_amd64)
                         then [Maintenance] else []),
      unavailable_reason =
        (if driver = ''sqlcipher'' then ''sqlite_requires_maintenance''
         else if driver = ''mariadb'' \<and> linux_amd64 then ''blue_green_runtime_not_available''
         else if driver = ''mariadb'' then ''external_database_platform_not_supported''
         else ''database_driver_unknown'')\<rparr>"

definition UpgradeCapabilities_supports :: "UpgradeCapabilities \<Rightarrow> UpgradeMode \<Rightarrow> bool" where
  "UpgradeCapabilities_supports c mode = (mode \<in> set (supported_modes c))"

datatype ReleaseSlot = Blue | Green

fun ReleaseSlot_id :: "ReleaseSlot \<Rightarrow> string" where
  "ReleaseSlot_id Blue = ''blue''"
| "ReleaseSlot_id Green = ''green''"

fun ReleaseSlot_other :: "ReleaseSlot \<Rightarrow> ReleaseSlot" where
  "ReleaseSlot_other Blue = Green"
| "ReleaseSlot_other Green = Blue"

fun ReleaseSlot_runtime_port :: "ReleaseSlot \<Rightarrow> u16" where
  "ReleaseSlot_runtime_port Blue = 11383"
| "ReleaseSlot_runtime_port Green = 11483"

record ReleaseSlotPorts =
  api_port :: u16
  member_port :: u16
  admin_port :: u16

fun ReleaseSlot_ports :: "ReleaseSlot \<Rightarrow> ReleaseSlotPorts" where
  "ReleaseSlot_ports Blue = \<lparr>api_port = 11380, member_port = 11381, admin_port = 11382\<rparr>"
| "ReleaseSlot_ports Green = \<lparr>api_port = 11480, member_port = 11481, admin_port = 11482\<rparr>"

section \<open>Active slot and maintenance jobs\<close>

definition MAINTENANCE_JOB_SCHEMA :: string where
  "MAINTENANCE_JOB_SCHEMA = ''aster.maintenance-job.v1''"

definition ACTIVE_SLOT_SCHEMA :: string where
  "ACTIVE_SLOT_SCHEMA = ''aster.active-release-slot.v1''"

definition ACTIVE_SLOT_RUNTIME_SCHEMA :: string where
  "ACTIVE_SLOT_RUNTIME_SCHEMA = ''aster.active-release-slot.v2''"

datatype MaintenanceJobError =
  InvalidSchema | InvalidIdentifier | InvalidChecksum | InvalidVersion | InvalidArchive

record ActiveLocalRunner =
  ar_runner_id :: string
  ar_manifest_sha256 :: string

record ActiveReleaseSlot =
  as_schema :: string
  as_slot :: ReleaseSlot
  as_version :: string
  as_local_runner :: "ActiveLocalRunner option"

definition strip_prefix :: "string \<Rightarrow> string \<Rightarrow> string option" where
  "strip_prefix pre s = (if take (length pre) s = pre then Some (drop (length pre) s) else None)"

definition ActiveReleaseSlot_validate :: "ActiveReleaseSlot \<Rightarrow> (MaintenanceJobError, unit) result" where
  "ActiveReleaseSlot_validate a =
     (if (case as_local_runner a of
            None \<Rightarrow> as_schema a = ACTIVE_SLOT_SCHEMA
          | Some runner \<Rightarrow> as_schema a = ACTIVE_SLOT_RUNTIME_SCHEMA
              \<and> is_some_and (strip_prefix ''runner_'' (ar_runner_id runner))
                  (\<lambda>i. length i = 32 \<and> list_all is_lower_hex i)
              \<and> length (ar_manifest_sha256 runner) = 64
              \<and> list_all is_lower_hex (ar_manifest_sha256 runner))
      then (if valid_version (as_version a) then Inr () else Inl InvalidVersion)
      else Inl InvalidSchema)"

datatype MaintenanceOperation =
    OpUpgrade (archive: string) (archive_sha256: string)
  | OpDeleteVersion (delete_version: string)

datatype MaintenanceStatus =
    Queued | Verifying | Staging | StoppingServices | RestoringPrevious | StartingCandidate
  | Migrating | JobSwitchingTraffic | JobDrainingPrevious | Succeeded | Failed

definition MaintenanceStatus_terminal :: "MaintenanceStatus \<Rightarrow> bool" where
  "MaintenanceStatus_terminal s = (s = Succeeded \<or> s = Failed)"

record MaintenanceJob =
  mj_schema :: string
  mj_id :: string
  mj_requested_by :: string
  mj_operation :: MaintenanceOperation
  mj_status :: MaintenanceStatus
  mj_upgrade_mode :: "UpgradeMode option"
  mj_runner_was_running :: "bool option"
  mj_current_version :: string
  mj_target_version :: "string option"
  mj_previous_release :: "string option"
  mj_candidate_release :: "string option"
  mj_message :: string
  mj_created_at :: string
  mj_updated_at :: string

text \<open>A path is absolute when it starts with a slash, as on the supported hosts.\<close>

definition path_is_absolute :: "string \<Rightarrow> bool" where
  "path_is_absolute p = (case p of [] \<Rightarrow> False | c # _ \<Rightarrow> byte_of c = 47)"

definition MaintenanceJob_validate :: "MaintenanceJob \<Rightarrow> (MaintenanceJobError, unit) result" where
  "MaintenanceJob_validate j =
     (if mj_schema j \<noteq> MAINTENANCE_JOB_SCHEMA then Inl InvalidSchema
      else if \<not> valid_identifier (mj_id j) \<or> \<not> valid_identifier (mj_requested_by j)
      then Inl InvalidIdentifier
      else if \<not> valid_version (mj_current_version j)
              \<or> is_some_and (mj_target_version j) (\<lambda>v. \<not> valid_version v)
      then Inl InvalidVersion
      else case mj_operation j of
             OpUpgrade path checksum \<Rightarrow>
               if \<not> path_is_absolute path then Inl InvalidArchive
               else if \<not> valid_checksum checksum then Inl InvalidChecksum else Inr ()
           | OpDeleteVersion v \<Rightarrow> if \<not> valid_version v then Inl InvalidVersion else Inr ())"

section \<open>Runtime snapshots\<close>

record LifecycleSnapshot =
  accepting :: bool
  stopping :: bool
  revision :: u64
  in_flight :: usize
  oldest_request_age_ms :: u64

record ServiceInvocation =
  process_id :: u32
  invocation_id :: string

definition ServiceInvocation_valid :: "ServiceInvocation \<Rightarrow> bool" where
  "ServiceInvocation_valid s \<longleftrightarrow> 0 < process_id s \<and> length (invocation_id s) = 32
     \<and> list_all is_lower_hex (invocation_id s)
     \<and> list_ex (\<lambda>b. byte_of b \<noteq> 48) (invocation_id s)"

record RuntimeSnapshot =
  rs_schema :: string
  installation_id :: string
  rs_slot :: ReleaseSlot
  instance_id :: string
  service :: "ServiceInvocation option"
  product_version :: string
  lifecycle :: LifecycleSnapshot

definition CONTROL_RUNTIME_SCHEMA :: string where
  "CONTROL_RUNTIME_SCHEMA = ''aster.control-runtime.v1''"

definition same_process :: "RuntimeSnapshot \<Rightarrow> RuntimeSnapshot \<Rightarrow> bool" where
  "same_process s t \<longleftrightarrow> rs_schema s = CONTROL_RUNTIME_SCHEMA \<and> rs_schema t = rs_schema s
     \<and> instance_id s \<noteq> [] \<and> installation_id s = installation_id t \<and> rs_slot s = rs_slot t
     \<and> instance_id s = instance_id t \<and> service s = service t \<and> product_version s = product_version t"

definition observes_drain :: "RuntimeSnapshot \<Rightarrow> RuntimeSnapshot \<Rightarrow> bool" where
  "observes_drain s closed \<longleftrightarrow> same_process s closed
     \<and> revision (lifecycle s) = revision (lifecycle closed)
     \<and> \<not> accepting (lifecycle closed) \<and> \<not> stopping (lifecycle closed)
     \<and> \<not> accepting (lifecycle s) \<and> \<not> stopping (lifecycle s)"

definition observes_retirement :: "RuntimeSnapshot \<Rightarrow> RuntimeSnapshot \<Rightarrow> bool" where
  "observes_retirement s drained \<longleftrightarrow> same_process s drained
     \<and> \<not> accepting (lifecycle drained) \<and> \<not> stopping (lifecycle drained)
     \<and> in_flight (lifecycle drained) = 0
     \<and> checked_add (revision (lifecycle drained)) 1 = Some (revision (lifecycle s))
     \<and> \<not> accepting (lifecycle s) \<and> stopping (lifecycle s) \<and> in_flight (lifecycle s) = 0"

record RuntimeRequestBudget =
  rb_runtime :: RuntimeSnapshot
  request_budget_ms :: u64

definition RuntimeRequestBudget_valid_for :: "RuntimeRequestBudget \<Rightarrow> RuntimeSnapshot \<Rightarrow> bool" where
  "RuntimeRequestBudget_valid_for b observed \<longleftrightarrow> same_process (rb_runtime b) observed
     \<and> \<not> stopping (lifecycle (rb_runtime b))
     \<and> revision (lifecycle (rb_runtime b)) = revision (lifecycle observed)
     \<and> accepting (lifecycle (rb_runtime b)) = accepting (lifecycle observed)
     \<and> 0 < request_budget_ms b"

datatype ProcessProgress = Running | Stopping | Exited

section \<open>Readiness contracts\<close>

definition valid_names :: "string list \<Rightarrow> nat \<Rightarrow> bool" where
  "valid_names values maximum \<longleftrightarrow> values \<noteq> [] \<and> length values \<le> maximum
     \<and> list_all (\<lambda>v. v \<noteq> [] \<and> length v \<le> 128) values
     \<and> card (set values) = length values"

record ReadinessExpectation =
  re_manifest_sha256 :: string
  re_models :: "string list"
  re_runner_ids :: "string list"

definition ReadinessExpectation_valid :: "ReadinessExpectation \<Rightarrow> bool" where
  "ReadinessExpectation_valid e \<longleftrightarrow> valid_checksum (re_manifest_sha256 e)
     \<and> valid_names (re_models e) 32 \<and> valid_names (re_runner_ids e) 8"

record ReadinessModelInventory =
  inv_schema :: string
  inv_installation_id :: string
  inv_instance_id :: string
  inv_slot :: ReleaseSlot
  inv_revision :: u64
  inv_models :: "string list"

definition valid_models :: "string list \<Rightarrow> bool" where
  "valid_models models \<longleftrightarrow> valid_names models 32 \<and> successively bytes_less models"

definition READINESS_MODELS_SCHEMA :: string where
  "READINESS_MODELS_SCHEMA = ''aster.readiness-models.v1''"

definition ReadinessModelInventory_valid_for :: "ReadinessModelInventory \<Rightarrow> RuntimeSnapshot \<Rightarrow> bool" where
  "ReadinessModelInventory_valid_for i observed \<longleftrightarrow> inv_schema i = READINESS_MODELS_SCHEMA
     \<and> rs_schema observed = CONTROL_RUNTIME_SCHEMA
     \<and> inv_installation_id i \<noteq> [] \<and> inv_instance_id i \<noteq> []
     \<and> \<not> stopping (lifecycle observed)
     \<and> inv_installation_id i = installation_id observed
     \<and> inv_instance_id i = instance_id observed
     \<and> inv_slot i = rs_slot observed
     \<and> inv_revision i = revision (lifecycle observed)
     \<and> valid_models (inv_models i)"

datatype DrainProgress = Outstanding (outstanding_count: usize) (outstanding_age_ms: u64) | Drained

text \<open>The trait \<open>SlotRuntime\<close> with its extension \<open>SlotRetirement\<close>.\<close>

record ('w, 'r, 'permit) SlotRuntime =
  rt_status :: "instant \<Rightarrow> ('w, 'r, RuntimeSnapshot) act"
  rt_readiness :: "RuntimeSnapshot \<Rightarrow> ReadinessExpectation \<Rightarrow> instant \<Rightarrow> ('w, 'r, 'permit) act"
  rt_open_admission :: "'permit \<Rightarrow> instant \<Rightarrow> ('w, 'r, RuntimeSnapshot) act"
  rt_close_admission :: "RuntimeSnapshot \<Rightarrow> instant \<Rightarrow> ('w, 'r, RuntimeSnapshot) act"
  rt_observe_drain :: "RuntimeSnapshot \<Rightarrow> instant \<Rightarrow> ('w, 'r, DrainProgress) act"
  rt_retire_drained :: "RuntimeSnapshot \<Rightarrow> instant \<Rightarrow> ('w, 'r, RuntimeSnapshot) act"

record ProxySnapshot =
  ps_slot :: ReleaseSlot
  configuration_sha256 :: string
  stream_close_delay_ms :: u64

record UpgradeClock =
  boot_id :: string
  uptime_ms :: u64

section \<open>Facts shared by the upgrade components\<close>

lemma ReleaseSlot_other_other [simp]: "ReleaseSlot_other (ReleaseSlot_other s) = s"
  by (cases s) auto

lemma ReleaseSlot_other_neq [simp]: "ReleaseSlot_other s \<noteq> s" "s \<noteq> ReleaseSlot_other s"
  by (cases s; simp)+

lemma neq_ReleaseSlot_other: "s \<noteq> t \<longleftrightarrow> s = ReleaseSlot_other t"
  by (cases s; cases t) auto

lemma same_process_sym: "same_process s t = same_process t s"
  by (auto simp: same_process_def)

lemma same_process_trans: "same_process r s \<Longrightarrow> same_process s t \<Longrightarrow> same_process r t"
  by (auto simp: same_process_def)

lemma same_process_left: "same_process s t \<Longrightarrow> same_process s s"
  by (auto simp: same_process_def)

lemma retirement_not_drain: "observes_retirement s d \<Longrightarrow> \<not> observes_drain s c"
  by (auto simp: observes_retirement_def observes_drain_def)

lemma valid_names_distinct: "valid_names vs n \<Longrightarrow> distinct vs"
  by (auto simp: valid_names_def card_distinct)

text \<open>A sorted inventory is a set listed in one way.\<close>

lemma successively_bytes_less:
  "successively bytes_less vs \<longleftrightarrow> sorted_wrt bytes_less vs"
  by (rule successively_iff_sorted_wrt_strong) (use bytes_less_trans in blast)

section \<open>Sample snapshots for the witnesses\<close>

fun sample_hex :: "ReleaseSlot \<Rightarrow> char" where
  "sample_hex Blue = CHR ''a''"
| "sample_hex Green = CHR ''b''"

fun sample_service :: "ReleaseSlot \<Rightarrow> ServiceInvocation" where
  "sample_service Blue = \<lparr>process_id = 7, invocation_id = replicate 32 (CHR ''a'')\<rparr>"
| "sample_service Green = \<lparr>process_id = 8, invocation_id = replicate 32 (CHR ''b'')\<rparr>"

declare sample_service.simps [simp del]

fun sample_release :: "ReleaseSlot \<Rightarrow> string" where
  "sample_release Blue = ''1.2.3''"
| "sample_release Green = ''1.2.4''"

definition sample_runtime :: "ReleaseSlot \<Rightarrow> bool \<Rightarrow> bool \<Rightarrow> u64 \<Rightarrow> usize \<Rightarrow> RuntimeSnapshot" where
  "sample_runtime slot acc stop r n =
     \<lparr>rs_schema = CONTROL_RUNTIME_SCHEMA, installation_id = ''installation'', rs_slot = slot,
      instance_id = ReleaseSlot_id slot, service = Some (sample_service slot), product_version = sample_release slot,
      lifecycle = \<lparr>accepting = acc, stopping = stop, revision = r, in_flight = n,
                   oldest_request_age_ms = 0\<rparr>\<rparr>"

lemma sample_service_valid: "ServiceInvocation_valid (sample_service slot)"
  by (cases slot)
     (simp_all add: sample_service.simps ServiceInvocation_valid_def byte_defs list_all_iff list_ex_iff word_gt_0)

definition sample_active_slot :: "ReleaseSlot \<Rightarrow> ActiveReleaseSlot" where
  "sample_active_slot slot =
     \<lparr>as_schema = ACTIVE_SLOT_RUNTIME_SCHEMA, as_slot = slot, as_version = sample_release slot,
      as_local_runner = Some \<lparr>ar_runner_id = ''runner_'' @ replicate 32 (sample_hex slot),
        ar_manifest_sha256 = replicate 64 (sample_hex slot)\<rparr>\<rparr>"

lemma sample_hex_lower [simp]: "is_lower_hex (sample_hex slot)"
  by (cases slot) (simp_all add: byte_defs)

lemma sample_checksum [simp]: "is_lower_hex c \<Longrightarrow> valid_checksum (replicate 64 c)"
  by (simp add: valid_checksum_def list_all_iff)

lemma sample_release_ok: "valid_version (sample_release slot)"
  by (cases slot) (simp_all add: valid_version_def version_core_def byte_defs Let_def)

lemma sample_active_slot_valid: "ActiveReleaseSlot_validate (sample_active_slot slot) = Inr ()"
  by (simp add: ActiveReleaseSlot_validate_def sample_active_slot_def strip_prefix_def list_all_iff
      sample_release_ok)

end
