(* ===== verification/Retirement.thy ===== *)
theory Retirement
  imports UpgradeBase
begin

text \<open>
  Retirement of a drained Control process (\<open>upgrade-core/src/retirement.rs\<close>): one bounded step
  that reconciles the private retirement command with what the service manager reports. The
  traits \<open>SlotRetirement\<close> and \<open>ControlProcessObserver\<close> and the clock are the record
  \<open>retirement_env\<close> of calls on a world; \<open>traced_retirement\<close> is the same environment with a log of
  the calls and their answers, on which the ordering results are stated.
\<close>

section \<open>The environment\<close>

record ('w, 'r, 'p) retirement_env =
  ret_now :: "'w \<Rightarrow> instant \<times> 'w"
  ret_status :: "instant \<Rightarrow> ('w, 'r, RuntimeSnapshot) act"
  ret_retire_drained :: "RuntimeSnapshot \<Rightarrow> instant \<Rightarrow> ('w, 'r, RuntimeSnapshot) act"
  ret_observe_control :: "RuntimeSnapshot \<Rightarrow> instant \<Rightarrow> ('w, 'p, ProcessProgress) act"

datatype ControlRetirementProgress = RetirementWaiting | RetirementExited

datatype ('r, 'p) RetirementError =
    InvalidDrain
  | Deadline
  | RuntimeChanged
  | RetirementRuntime 'r
  | RetirementProcess 'p

section \<open>The step\<close>

definition retirable :: "RuntimeSnapshot \<Rightarrow> bool" where
  "retirable drained \<longleftrightarrow> \<not> (\<not> same_process drained drained
     \<or> installation_id drained = []
     \<or> accepting (lifecycle drained)
     \<or> stopping (lifecycle drained)
     \<or> in_flight (lifecycle drained) \<noteq> 0
     \<or> revision (lifecycle drained) = - 1
     \<or> \<not> is_some_and (service drained) ServiceInvocation_valid)"

definition check_deadline ::
    "('w, 'r, 'p) retirement_env \<Rightarrow> instant \<Rightarrow> ('w, ('r, 'p) RetirementError, unit) act" where
  "check_deadline E deadline =
     act_bind (act_now (ret_now E)) (\<lambda>now. act_guard (now < deadline) Deadline)"

definition observe ::
    "('w, 'r, 'p) retirement_env \<Rightarrow> RuntimeSnapshot \<Rightarrow> instant
      \<Rightarrow> ('w, ('r, 'p) RetirementError, ProcessProgress) act" where
  "observe E drained deadline =
     act_bind (check_deadline E deadline) (\<lambda>_.
     act_bind (act_map_err RetirementProcess (ret_observe_control E drained deadline)) (\<lambda>state.
     act_bind (check_deadline E deadline) (\<lambda>_. act_ret state)))"

fun reconcile_failure :: "ProcessProgress \<Rightarrow> 'r \<Rightarrow> (('r, 'p) RetirementError, ControlRetirementProgress) result" where
  "reconcile_failure Exited e = Inr RetirementExited"
| "reconcile_failure Stopping e = Inr RetirementWaiting"
| "reconcile_failure Running e = Inl (RetirementRuntime e)"

text \<open>The \<open>match\<close> on a call of the runtime: its error is reconciled with a fresh observation.\<close>

definition or_reconcile ::
    "('w, 'r, 'p) retirement_env \<Rightarrow> RuntimeSnapshot \<Rightarrow> instant \<Rightarrow> ('w, 'r, RuntimeSnapshot) act
      \<Rightarrow> (RuntimeSnapshot \<Rightarrow> ('w, ('r, 'p) RetirementError, ControlRetirementProgress) act)
      \<Rightarrow> ('w, ('r, 'p) RetirementError, ControlRetirementProgress) act" where
  "or_reconcile E drained deadline m k =
     act_bind (act_try m) (\<lambda>r.
       case r of
         Inr reply \<Rightarrow> k reply
       | Inl error \<Rightarrow>
           act_bind (observe E drained deadline) (\<lambda>state. act_lift (reconcile_failure state error)))"

definition final_observation ::
    "('w, 'r, 'p) retirement_env \<Rightarrow> RuntimeSnapshot \<Rightarrow> instant
      \<Rightarrow> ('w, ('r, 'p) RetirementError, ControlRetirementProgress) act" where
  "final_observation E drained deadline =
     act_bind (observe E drained deadline) (\<lambda>state.
       act_ret (case state of Exited \<Rightarrow> RetirementExited | _ \<Rightarrow> RetirementWaiting))"

definition retire_running ::
    "('w, 'r, 'p) retirement_env \<Rightarrow> RuntimeSnapshot \<Rightarrow> instant
      \<Rightarrow> ('w, ('r, 'p) RetirementError, ControlRetirementProgress) act" where
  "retire_running E drained deadline =
     or_reconcile E drained deadline (ret_status E deadline) (\<lambda>observed.
     act_bind (check_deadline E deadline) (\<lambda>_.
     if observes_retirement observed drained then final_observation E drained deadline
     else if \<not> observes_drain observed drained \<or> in_flight (lifecycle observed) \<noteq> 0
     then act_fail RuntimeChanged
     else or_reconcile E drained deadline (ret_retire_drained E drained deadline) (\<lambda>reply.
            if observes_retirement reply drained then final_observation E drained deadline
            else act_fail RuntimeChanged)))"

definition retire_control ::
    "('w, 'r, 'p) retirement_env \<Rightarrow> RuntimeSnapshot \<Rightarrow> instant
      \<Rightarrow> ('w, ('r, 'p) RetirementError, ControlRetirementProgress) act" where
  "retire_control E drained deadline =
     act_bind (act_guard (retirable drained) InvalidDrain) (\<lambda>_.
     act_bind (observe E drained deadline) (\<lambda>state.
     case state of
       Exited \<Rightarrow> act_ret RetirementExited
     | Stopping \<Rightarrow> act_ret RetirementWaiting
     | Running \<Rightarrow> retire_running E drained deadline))"

section \<open>The same environment with a log\<close>

datatype ('r, 'p) retirement_event =
    EvStatus "('r, RuntimeSnapshot) result"
  | EvRetire RuntimeSnapshot "('r, RuntimeSnapshot) result"
  | EvObserve "('p, ProcessProgress) result"

definition traced_retirement ::
    "('w, 'r, 'p) retirement_env \<Rightarrow> ('w \<times> ('r, 'p) retirement_event list, 'r, 'p) retirement_env" where
  "traced_retirement E =
     \<lparr>ret_now = silent_now (ret_now E),
      ret_status = (\<lambda>deadline. log_call EvStatus (ret_status E deadline)),
      ret_retire_drained = (\<lambda>drained deadline. log_call (EvRetire drained) (ret_retire_drained E drained deadline)),
      ret_observe_control = (\<lambda>drained deadline. log_call EvObserve (ret_observe_control E drained deadline))\<rparr>"

lemma traced_calls [simp]:
  "ret_status (traced_retirement E) deadline = log_call EvStatus (ret_status E deadline)"
  "ret_retire_drained (traced_retirement E) x deadline = log_call (EvRetire x) (ret_retire_drained E x deadline)"
  "ret_observe_control (traced_retirement E) x deadline = log_call EvObserve (ret_observe_control E x deadline)"
  "ret_now (traced_retirement E) = silent_now (ret_now E)"
  by (simp_all add: traced_retirement_def)

lemma logs_check_deadline:
  "Q [] (Inl Deadline) \<Longrightarrow> Q [] (Inr ()) \<Longrightarrow> act_logs (check_deadline (traced_retirement E) d) Q"
  unfolding check_deadline_def traced_calls
  by (intro act_logs_bind' act_logs_now) (auto simp: act_guard_def intro!: act_logs_ret act_logs_fail)

lemma logs_observe:
  assumes "Q [] (Inl Deadline)" and "\<And>p. Q [EvObserve (Inl p)] (Inl (RetirementProcess p))"
    and "\<And>x. Q [EvObserve (Inr x)] (Inl Deadline)" and "\<And>x. Q [EvObserve (Inr x)] (Inr x)"
  shows "act_logs (observe (traced_retirement E) drained d) Q"
  unfolding observe_def
  using assms
  by (auto intro!: act_logs_bind' logs_check_deadline act_logs_map_err act_logs_ret act_logs_call
      simp: result_simps)

text \<open>What a run of the step may have logged when it returns.\<close>

fun retirement_log_ok ::
    "RuntimeSnapshot \<Rightarrow> ('r, 'p) retirement_event list
      \<Rightarrow> (('r, 'p) RetirementError, ControlRetirementProgress) result \<Rightarrow> bool" where
  "retirement_log_ok drained log r \<longleftrightarrow>
     length (filter (\<lambda>ev. \<exists>x y. ev = EvRetire x y) log) \<le> 1
     \<and> (\<forall>x y. EvRetire x y \<in> set log \<longrightarrow> retirable drained
          \<and> (\<exists>st rest. log = [EvObserve (Inr Running), EvStatus (Inr st), EvRetire drained y] @ rest
              \<and> observes_drain st drained \<and> in_flight (lifecycle st) = 0))
     \<and> (r = Inr RetirementExited \<longrightarrow> log \<noteq> [] \<and> last log = EvObserve (Inr Exited))"

lemma not_waiting: "progress \<noteq> RetirementWaiting \<longleftrightarrow> progress = RetirementExited"
  by (cases progress) auto

lemma retirement_log_exited:
  "retirement_log_ok drained log (Inr RetirementExited) \<Longrightarrow> log \<noteq> [] \<and> last log = EvObserve (Inr Exited)"
  by simp

lemma retirement_log_retire:
  "retirement_log_ok drained log r \<Longrightarrow> EvRetire x y \<in> set log \<Longrightarrow>
    \<exists>st rest. log = [EvObserve (Inr Running), EvStatus (Inr st), EvRetire drained y] @ rest
      \<and> observes_drain st drained \<and> in_flight (lifecycle st) = 0"
  unfolding retirement_log_ok.simps by blast

lemma logs_reconcile:
  "act_logs (act_bind (observe (traced_retirement E) drained d) (\<lambda>state. act_lift (reconcile_failure state e)))
     (\<lambda>evs r. evs \<in> insert [] ((\<lambda>x. [EvObserve x]) ` UNIV)
        \<and> (r = Inr RetirementExited \<longrightarrow> evs = [EvObserve (Inr Exited)]))"
  by (intro act_logs_bind' logs_observe)
     (auto intro!: act_logs_lift elim: reconcile_failure.elims)

lemma logs_final:
  "act_logs (final_observation (traced_retirement E) drained d)
     (\<lambda>evs r. evs \<in> insert [] ((\<lambda>x. [EvObserve x]) ` UNIV)
        \<and> (r = Inr RetirementExited \<longrightarrow> evs = [EvObserve (Inr Exited)]))"
  unfolding final_observation_def
  by (intro act_logs_bind' logs_observe)
     (auto intro!: act_logs_ret split: ProcessProgress.splits)

lemma logs_retire_running:
  assumes "retirable drained"
  shows "act_logs (retire_running (traced_retirement E) drained d)
    (\<lambda>evs. retirement_log_ok drained (EvObserve (Inr Running) # evs))"
  unfolding retire_running_def or_reconcile_def
  using assms
  by (auto intro!: act_logs_bind' act_logs_try act_logs_call logs_check_deadline act_logs_fail
      act_logs_mono [OF logs_final] act_logs_mono [OF logs_reconcile] split: sum.splits)

lemma logs_retire_control:
  "act_logs (retire_control (traced_retirement E) drained d) (retirement_log_ok drained)"
  unfolding retire_control_def
proof (rule act_logs_guard_bind)
  assume ok: "retirable drained"
  show "act_logs (act_bind (observe (traced_retirement E) drained d) (\<lambda>state. case state of
      Running \<Rightarrow> retire_running (traced_retirement E) drained d
    | Stopping \<Rightarrow> act_ret RetirementWaiting | Exited \<Rightarrow> act_ret RetirementExited))
    (retirement_log_ok drained)"
    by (intro act_logs_bind' logs_observe)
       (auto intro!: act_logs_ret act_logs_mono [OF logs_retire_running [OF ok]] split: ProcessProgress.splits)
qed simp

section \<open>Retirement is issued once, after evidence\<close>

text \<open>
  C17: whatever the runtime, the service manager and the clock answer, one step issues the
  retirement command at most once, and only as the third call, for the given drained process:
  after the service manager reported it running and the runtime reported that same process,
  at the same admission revision, closed with nothing in flight. The step reports an exit only
  when its last call was an observation that proved the exit.
\<close>

theorem retirement_order:
  assumes "retire_control (traced_retirement E) drained deadline (w, []) = (r, (w', log))"
  shows "length (filter (\<lambda>ev. \<exists>x y. ev = EvRetire x y) log) \<le> 1
    \<and> (\<forall>x y. EvRetire x y \<in> set log \<longrightarrow> retirable drained
         \<and> (\<exists>st rest. log = [EvObserve (Inr Running), EvStatus (Inr st), EvRetire drained y] @ rest
             \<and> observes_drain st drained \<and> in_flight (lifecycle st) = 0))
    \<and> (r = Inr RetirementExited \<longrightarrow> log \<noteq> [] \<and> last log = EvObserve (Inr Exited))"
  using act_logsD [OF logs_retire_control assms] by simp

definition sample_retirement_env :: "(bool, unit, unit) retirement_env" where
  "sample_retirement_env =
     \<lparr>ret_now = (\<lambda>w. (5, w)),
      ret_status = (\<lambda>deadline w. (Inr (sample_runtime Blue False False 3 0), w)),
      ret_retire_drained = (\<lambda>drained deadline w. (Inr (sample_runtime Blue False True 4 0), True)),
      ret_observe_control = (\<lambda>drained deadline w. (Inr (if w then Exited else Running), w))\<rparr>"

lemma sample_retirement_run:
  "retire_control (traced_retirement sample_retirement_env) (sample_runtime Blue False False 3 0) 9 (False, [])
    = (Inr RetirementExited, (True,
        [EvObserve (Inr Running), EvStatus (Inr (sample_runtime Blue False False 3 0)),
         EvRetire (sample_runtime Blue False False 3 0) (Inr (sample_runtime Blue False True 4 0)),
         EvObserve (Inr Exited)]))"
  using sample_service_valid
  by (simp add: retire_control_def retire_running_def final_observation_def or_reconcile_def observe_def
      check_deadline_def traced_retirement_def silent_now_def sample_retirement_env_def log_call_def act_defs
      retirable_def sample_runtime_def same_process_def observes_retirement_def observes_drain_def
      checked_add_def)

theorem retirement_order_witness:
  "retirable (sample_runtime Blue False False 3 0)"
  using retirement_order [OF sample_retirement_run] by auto

end
