(* ===== verification/Journal.thy ===== *)
theory Journal
  imports Prelude
begin

text \<open>
  What the durable journals of the upgrade executor have in common: every record is valid, a
  successor keeps the plan and raises the revision by one, and the revision of a valid record is
  bounded by its phase. The locale \<open>journal_store\<close> states these laws for journals that may save
  the same record again, \<open>journal_protocol\<close> extends it to journals that may not; their lemmas bound
  every history of saved records and describe a store that replaces its record only by a
  successor. The preparation journal interprets the first, the journals of the forward cutover
  and of the switchback the second.
\<close>

section \<open>Histories and stores\<close>

text \<open>\<open>linked follows prev js\<close>: the records \<open>js\<close> were saved one after the other after \<open>prev\<close>.\<close>

fun linked :: "('j \<Rightarrow> 'j option \<Rightarrow> bool) \<Rightarrow> 'j option \<Rightarrow> 'j list \<Rightarrow> bool" where
  "linked follows prev [] = True"
| "linked follows prev (j # js) = (follows j prev \<and> linked follows (Some j) js)"

lemma linked_step:
  "linked follows prev js \<Longrightarrow> Suc i < length js \<Longrightarrow> follows (js ! Suc i) (Some (js ! i))"
proof (induction js arbitrary: prev i)
  case (Cons j js)
  then show ?case by (cases i; cases js) auto
qed simp

lemma linked_first: "linked follows prev js \<Longrightarrow> js \<noteq> [] \<Longrightarrow> follows (js ! 0) prev"
  by (cases js) auto

text \<open>
  A compare-and-swap store: an attempt names the record it believes current and the next one.
  A stale or unlawful attempt leaves the store as it was.
\<close>

fun cas_save :: "('j \<Rightarrow> 'j option \<Rightarrow> bool) \<Rightarrow> 'j option \<Rightarrow> 'j option \<times> 'j \<Rightarrow> 'j option" where
  "cas_save follows stored (expected, new) =
     (if stored = expected \<and> follows new expected then Some new else stored)"

text \<open>
  The weaker contract: a successor may also be the same record again, after a lost
  acknowledgement.
\<close>

locale journal_store =
  fixes valid :: "'j \<Rightarrow> bool"
    and follows :: "'j \<Rightarrow> 'j option \<Rightarrow> bool"
    and rev_of :: "'j \<Rightarrow> nat"
    and plan_of :: "'j \<Rightarrow> 'p"
    and bound :: nat
  assumes follows_valid: "follows j prev \<Longrightarrow> valid j"
    and follows_None: "follows j None \<Longrightarrow> rev_of j = 0"
    and follows_Some: "follows j (Some p) \<Longrightarrow>
      valid p \<and> plan_of j = plan_of p \<and> (j = p \<or> rev_of j = Suc (rev_of p))"
    and valid_bound: "valid j \<Longrightarrow> rev_of j \<le> bound"
begin

text \<open>Whatever attempts reach the store, from whichever executor, it only moves forward.\<close>

lemma cas_save_moves_forward:
  assumes "foldl (cas_save follows) (Some p) attempts = Some q" and "valid p"
  shows "valid q \<and> plan_of q = plan_of p \<and> rev_of p \<le> rev_of q \<and> (rev_of q = rev_of p \<longrightarrow> q = p)"
  using assms
proof (induction attempts arbitrary: p)
  case (Cons a attempts)
  obtain expected new where a: "a = (expected, new)" by (cases a)
  show ?case
  proof (cases "Some p = expected \<and> follows new expected")
    case True
    then have f: "follows new (Some p)" and s: "cas_save follows (Some p) a = Some new" using a by auto
    have "foldl (cas_save follows) (Some new) attempts = Some q" using Cons.prems(1) s by simp
    from Cons.IH [OF this follows_valid [OF f]] follows_Some [OF f] show ?thesis by auto
  next
    case False
    then have "cas_save follows (Some p) a = Some p" using a by auto
    with Cons show ?thesis by simp
  qed
qed simp

lemma cas_save_stays_present: "foldl (cas_save follows) (Some p) attempts \<noteq> None"
proof (induction attempts arbitrary: p)
  case (Cons a attempts)
  then show ?case by (cases a) auto
qed simp

text \<open>Records that differ from their predecessor are numbered, so there are few of them.\<close>

lemma linked_distinct_bound:
  assumes "linked follows (Some p) js" and "valid p"
  shows "rev_of p + length (remdups_adj (p # js)) \<le> Suc bound"
  using assms
proof (induction js arbitrary: p)
  case Nil
  then show ?case using valid_bound by simp
next
  case (Cons j js)
  then have f: "follows j (Some p)" and rest: "linked follows (Some j) js" by simp_all
  note ih = Cons.IH [OF rest follows_valid [OF f]]
  from follows_Some [OF f] consider "j = p" | "j \<noteq> p" "rev_of j = Suc (rev_of p)" by blast
  then show ?case
    using ih by cases auto
qed

lemma history_bound:
  assumes "linked follows None js"
  shows "length (remdups_adj js) \<le> Suc bound"
proof (cases js)
  case (Cons j js')
  then have j: "follows j None" "linked follows (Some j) js'" using assms by simp_all
  from linked_distinct_bound [OF j(2) follows_valid [OF j(1)]] follows_None [OF j(1)] Cons
  show ?thesis by simp
qed simp

end

text \<open>The stricter contract: every save is a new record.\<close>

locale journal_protocol = journal_store +
  assumes follows_strict: "follows j (Some p) \<Longrightarrow> rev_of j = Suc (rev_of p)"
begin

lemma linked_nth:
  assumes "linked follows (Some p) js" and "i < length js"
  shows "valid (js ! i) \<and> plan_of (js ! i) = plan_of p \<and> rev_of (js ! i) = rev_of p + Suc i"
  using assms
proof (induction js arbitrary: p i)
  case (Cons j js)
  then have j: "valid j" "plan_of j = plan_of p" "rev_of j = Suc (rev_of p)"
    using follows_valid follows_Some follows_strict by auto
  show ?case
  proof (cases i)
    case 0
    with j show ?thesis by simp
  next
    case (Suc k)
    with Cons.prems Cons.IH [of j k] j show ?thesis by simp
  qed
qed simp

lemma linked_length:
  assumes "linked follows (Some p) js" and "valid p"
  shows "rev_of p + length js \<le> bound"
proof (cases "js = []")
  case True
  with valid_bound [OF assms(2)] show ?thesis by simp
next
  case False
  then have "length js - 1 < length js" by simp
  from linked_nth [OF assms(1) this] valid_bound have "rev_of p + Suc (length js - 1) \<le> bound"
    by metis
  with False show ?thesis by simp
qed

text \<open>A history from an empty store: consecutive revisions, one plan, bounded length.\<close>

lemma history:
  assumes "linked follows None js"
  shows "length js \<le> Suc bound"
    and "i < length js \<Longrightarrow> valid (js ! i) \<and> rev_of (js ! i) = i \<and> plan_of (js ! i) = plan_of (js ! 0)"
proof -
  have "length js \<le> Suc bound \<and> (i < length js \<longrightarrow>
      valid (js ! i) \<and> rev_of (js ! i) = i \<and> plan_of (js ! i) = plan_of (js ! 0))"
  proof (cases js)
    case (Cons j js')
    then have j: "valid j" "rev_of j = 0" and rest: "linked follows (Some j) js'"
      using assms follows_valid follows_None by auto
    from linked_length [OF rest j(1)] j(2) have "length js' \<le> bound" by simp
    moreover have "valid (js ! i) \<and> rev_of (js ! i) = i \<and> plan_of (js ! i) = plan_of (js ! 0)"
      if "i < length js"
      using that linked_nth [OF rest] j Cons by (cases i) auto
    ultimately show ?thesis using Cons by simp
  qed simp
  then show "length js \<le> Suc bound"
    and "i < length js \<Longrightarrow> valid (js ! i) \<and> rev_of (js ! i) = i \<and> plan_of (js ! i) = plan_of (js ! 0)"
    by auto
qed

text \<open>At the last revision a record has no successor.\<close>

lemma last_revision_final: "rev_of p = bound \<Longrightarrow> \<not> follows j (Some p)"
  using follows_strict follows_valid valid_bound by fastforce

end

end
