(* ===== verification/Online.thy ===== *)
theory Online
  imports Retirement Journal
begin

text \<open>
  The recoverable forward cutover (\<open>upgrade-core/src/online.rs\<close>): the plan pinned before the
  first mutation, the durable journal with its validity and succession rules, and \<open>advance\<close>, one
  bounded step that observes, issues at most the phase's commands and saves the next journal.
  Runtimes, deployment and clock are the record \<open>online_env\<close> of calls on a world. \<open>advance\<close>
  returns its progress with the journal after it; an error leaves the caller's journal as it was,
  because the code replaces it only after a successful save.
\<close>

section \<open>Plan\<close>

record OnlinePlan =
  job_id :: string
  previous_slot :: ActiveReleaseSlot
  candidate_slot :: ActiveReleaseSlot
  previous_process :: RuntimeSnapshot
  candidate_process :: RuntimeSnapshot
  previous_runner_process :: ServiceInvocation
  candidate_runner_process :: ServiceInvocation
  readiness :: ReadinessExpectation
  proxy :: ProxySnapshot
  plan_clock :: UpgradeClock
  drain_budget_ms :: u64

fun distinct_services :: "ServiceInvocation list \<Rightarrow> ServiceInvocation list \<Rightarrow> bool" where
  "distinct_services before [] = True"
| "distinct_services before (s # rest) =
     (ServiceInvocation_valid s
      \<and> list_all (\<lambda>other. process_id s \<noteq> process_id other \<and> invocation_id s \<noteq> invocation_id other) before
      \<and> distinct_services (before @ [s]) rest)"

definition distinct_service_invocations :: "OnlinePlan \<Rightarrow> bool" where
  "distinct_service_invocations p =
     (case (service (previous_process p), service (candidate_process p)) of
        (Some old, Some new) \<Rightarrow>
          distinct_services [] [old, new, previous_runner_process p, candidate_runner_process p]
      | _ \<Rightarrow> False)"

definition pair_valid :: "ActiveReleaseSlot \<Rightarrow> RuntimeSnapshot \<Rightarrow> bool" where
  "pair_valid release process \<longleftrightarrow> is_ok (ActiveReleaseSlot_validate release)
     \<and> as_schema release = ACTIVE_SLOT_RUNTIME_SCHEMA
     \<and> same_process process process \<and> installation_id process \<noteq> []
     \<and> as_slot release = rs_slot process \<and> as_version release = product_version process
     \<and> \<not> stopping (lifecycle process)
     \<and> is_some_and (service process) ServiceInvocation_valid
     \<and> revision (lifecycle process) < - 1"

definition OnlinePlan_valid :: "OnlinePlan \<Rightarrow> bool" where
  "OnlinePlan_valid p \<longleftrightarrow> valid_identifier (job_id p)
     \<and> pair_valid (previous_slot p) (previous_process p)
     \<and> pair_valid (candidate_slot p) (candidate_process p)
     \<and> as_slot (previous_slot p) \<noteq> as_slot (candidate_slot p)
     \<and> installation_id (previous_process p) = installation_id (candidate_process p)
     \<and> instance_id (previous_process p) \<noteq> instance_id (candidate_process p)
     \<and> distinct_service_invocations p
     \<and> accepting (lifecycle (previous_process p))
     \<and> \<not> accepting (lifecycle (candidate_process p))
     \<and> in_flight (lifecycle (candidate_process p)) = 0
     \<and> 0 < drain_budget_ms p
     \<and> ps_slot (proxy p) = as_slot (previous_slot p)
     \<and> valid_checksum (configuration_sha256 (proxy p))
     \<and> drain_budget_ms p < stream_close_delay_ms (proxy p)
     \<and> valid_identifier (boot_id (plan_clock p))
     \<and> checked_add (uptime_ms (plan_clock p)) (stream_close_delay_ms (proxy p)) \<noteq> None
     \<and> ReadinessExpectation_valid (readiness p)
     \<and> is_some_and (as_local_runner (candidate_slot p)) (\<lambda>runner.
          re_manifest_sha256 (readiness p) = ar_manifest_sha256 runner
          \<and> ar_runner_id runner \<in> set (re_runner_ids (readiness p))
          \<and> is_some_and (as_local_runner (previous_slot p)) (\<lambda>old. ar_runner_id old \<noteq> ar_runner_id runner))"

section \<open>Journal\<close>

datatype OnlinePhase =
    OpeningCandidate
  | SwitchingTraffic
  | ClosingPrevious
  | DrainingPrevious
  | DrainBudgetExhausted
  | RetiringPrevious
  | Committing
  | Complete

record OnlineJournal =
  oj_schema :: string
  oj_revision :: u64
  oj_plan :: OnlinePlan
  oj_phase :: OnlinePhase
  opened :: "RuntimeSnapshot option"
  closed :: "RuntimeSnapshot option"
  cutover_started_at_ms :: "u64 option"
  drain_started_at_ms :: "u64 option"
  drained :: "RuntimeSnapshot option"
  exhausted :: "RuntimeSnapshot option"

datatype OnlineProgress =
    Advanced OnlinePhase
  | Draining usize u64
  | ProgressDrainBudgetExhausted
  | ProgressRetiringPrevious
  | ProgressComplete

text \<open>\<open>OnlineUnreachable\<close> is the panic of \<open>unreachable!\<close>.\<close>

datatype ('r, 'd) OnlineError =
    OnlineInvalidJournal
  | OnlineDeadline
  | OnlineClock
  | OnlineBootChanged
  | ProxyWindowElapsed
  | OnlineRuntimeChanged
  | OnlineTrafficChanged
  | OnlineRuntime 'r
  | OnlineDeployment 'd
  | OnlineRetirement "('r, 'd) RetirementError"
  | OnlineUnreachable

definition JOURNAL_SCHEMA :: string where
  "JOURNAL_SCHEMA = ''aster.online-transition.v2''"

definition unchanged_admission :: "RuntimeSnapshot \<Rightarrow> RuntimeSnapshot \<Rightarrow> bool" where
  "unchanged_admission current initial \<longleftrightarrow> same_process current initial
     \<and> \<not> stopping (lifecycle current)
     \<and> accepting (lifecycle current) = accepting (lifecycle initial)
     \<and> revision (lifecycle current) = revision (lifecycle initial)"

definition changed_admission :: "RuntimeSnapshot \<Rightarrow> RuntimeSnapshot \<Rightarrow> bool \<Rightarrow> bool" where
  "changed_admission current initial acc \<longleftrightarrow> same_process current initial
     \<and> \<not> stopping (lifecycle current)
     \<and> accepting (lifecycle current) = acc
     \<and> checked_add (revision (lifecycle initial)) 1 = Some (revision (lifecycle current))"

fun expected_revision :: "OnlinePhase \<Rightarrow> u64" where
  "expected_revision OpeningCandidate = 0"
| "expected_revision SwitchingTraffic = 1"
| "expected_revision ClosingPrevious = 2"
| "expected_revision DrainingPrevious = 3"
| "expected_revision DrainBudgetExhausted = 4"
| "expected_revision RetiringPrevious = 4"
| "expected_revision Committing = 5"
| "expected_revision Complete = 6"

definition opened_ok :: "OnlineJournal \<Rightarrow> bool" where
  "opened_ok j = is_some_and (opened j) (\<lambda>v. changed_admission v (candidate_process (oj_plan j)) True)"

definition closed_ok :: "OnlineJournal \<Rightarrow> bool" where
  "closed_ok j = is_some_and (closed j) (\<lambda>v. changed_admission v (previous_process (oj_plan j)) False)"

definition drained_ok :: "OnlineJournal \<Rightarrow> bool" where
  "drained_ok j = is_some_and (drained j) (\<lambda>v.
     is_some_and (closed j) (\<lambda>c. observes_drain v c) \<and> in_flight (lifecycle v) = 0)"

definition cutover_valid :: "OnlineJournal \<Rightarrow> bool" where
  "cutover_valid j = is_some_and (cutover_started_at_ms j) (\<lambda>start.
     uptime_ms (plan_clock (oj_plan j)) \<le> start
     \<and> checked_add start (stream_close_delay_ms (proxy (oj_plan j))) \<noteq> None)"

definition clock_valid :: "OnlineJournal \<Rightarrow> bool" where
  "clock_valid j = is_some_and (drain_started_at_ms j) (\<lambda>start.
     is_some_and (cutover_started_at_ms j) (\<lambda>cutover. cutover \<le> start)
     \<and> is_some_and (checked_add start (drain_budget_ms (oj_plan j))) (\<lambda>drain_end.
         is_some_and (Option.bind (cutover_started_at_ms j)
             (\<lambda>cutover. checked_add cutover (stream_close_delay_ms (proxy (oj_plan j)))))
           (\<lambda>proxy_end. drain_end \<le> proxy_end)))"

definition exhaustion_valid :: "OnlineJournal \<Rightarrow> bool" where
  "exhaustion_valid j =
     (if oj_phase j = DrainBudgetExhausted
      then is_some_and (exhausted j) (\<lambda>v. is_some_and (closed j) (\<lambda>c. observes_drain v c))
      else exhausted j = None)"

definition OnlineJournal_valid :: "OnlineJournal \<Rightarrow> bool" where
  "OnlineJournal_valid j \<longleftrightarrow>
     oj_schema j = JOURNAL_SCHEMA \<and> OnlinePlan_valid (oj_plan j)
     \<and> oj_revision j = expected_revision (oj_phase j)
     \<and> exhaustion_valid j
     \<and> (case oj_phase j of
          OpeningCandidate \<Rightarrow>
            oj_revision j = 0 \<and> opened j = None \<and> closed j = None \<and> cutover_started_at_ms j = None
            \<and> drain_started_at_ms j = None \<and> drained j = None
        | SwitchingTraffic \<Rightarrow>
            opened_ok j \<and> cutover_valid j \<and> closed j = None \<and> drain_started_at_ms j = None \<and> drained j = None
        | ClosingPrevious \<Rightarrow>
            opened_ok j \<and> cutover_valid j \<and> closed j = None \<and> clock_valid j \<and> drained j = None
        | DrainingPrevious \<Rightarrow>
            opened_ok j \<and> closed_ok j \<and> cutover_valid j \<and> clock_valid j \<and> drained j = None
        | DrainBudgetExhausted \<Rightarrow>
            opened_ok j \<and> closed_ok j \<and> cutover_valid j \<and> clock_valid j \<and> drained j = None
        | RetiringPrevious \<Rightarrow> opened_ok j \<and> closed_ok j \<and> cutover_valid j \<and> clock_valid j \<and> drained_ok j
        | Committing \<Rightarrow> opened_ok j \<and> closed_ok j \<and> cutover_valid j \<and> clock_valid j \<and> drained_ok j
        | Complete \<Rightarrow> opened_ok j \<and> closed_ok j \<and> cutover_valid j \<and> clock_valid j \<and> drained_ok j)"

definition phase_follows :: "OnlinePhase \<Rightarrow> OnlinePhase \<Rightarrow> bool" where
  "phase_follows p q \<longleftrightarrow> (p, q) \<in>
     {(OpeningCandidate, SwitchingTraffic), (SwitchingTraffic, ClosingPrevious),
      (ClosingPrevious, DrainingPrevious), (DrainingPrevious, RetiringPrevious),
      (DrainingPrevious, DrainBudgetExhausted), (RetiringPrevious, Committing), (Committing, Complete)}"

definition OnlineJournal_follows :: "OnlineJournal \<Rightarrow> OnlineJournal option \<Rightarrow> bool" where
  "OnlineJournal_follows j prev \<longleftrightarrow> OnlineJournal_valid j
     \<and> (case prev of
          None \<Rightarrow> oj_phase j = OpeningCandidate
        | Some p \<Rightarrow> OnlineJournal_valid p \<and> oj_plan j = oj_plan p
            \<and> checked_add (oj_revision p) 1 = Some (oj_revision j)
            \<and> phase_follows (oj_phase p) (oj_phase j)
            \<and> is_none_or (opened p) (\<lambda>v. opened j = Some v)
            \<and> is_none_or (closed p) (\<lambda>v. closed j = Some v)
            \<and> is_none_or (drained p) (\<lambda>v. drained j = Some v)
            \<and> is_none_or (drain_started_at_ms p) (\<lambda>v. drain_started_at_ms j = Some v)
            \<and> is_none_or (cutover_started_at_ms p) (\<lambda>v. cutover_started_at_ms j = Some v))"

definition OnlineJournal_accepts_proxy :: "OnlineJournal \<Rightarrow> ProxySnapshot \<Rightarrow> ReleaseSlot \<Rightarrow> bool" where
  "OnlineJournal_accepts_proxy j live disk =
     (if \<not> OnlineJournal_valid j
         \<or> configuration_sha256 live \<noteq> configuration_sha256 (proxy (oj_plan j))
         \<or> stream_close_delay_ms live \<noteq> stream_close_delay_ms (proxy (oj_plan j))
      then False
      else
        let old = as_slot (previous_slot (oj_plan j)); new = as_slot (candidate_slot (oj_plan j)) in
        case oj_phase j of
          OpeningCandidate \<Rightarrow> ps_slot live = old \<and> disk = old
        | SwitchingTraffic \<Rightarrow> (ps_slot live = old \<and> (disk = old \<or> disk = new))
            \<or> (ps_slot live = new \<and> disk = new)
        | _ \<Rightarrow> ps_slot live = new \<and> disk = new)"

section \<open>Environment\<close>

text \<open>The traits \<open>OnlineJournalStorage\<close> and \<open>OnlineDeployment\<close>.\<close>

record ('w, 'd) OnlineDeployment =
  dp_load :: "('w, 'd, OnlineJournal option) act"
  dp_assert_current :: "OnlineJournal \<Rightarrow> ('w, 'd, unit) act"
  dp_save :: "OnlineJournal option \<Rightarrow> OnlineJournal \<Rightarrow> ('w, 'd, unit) act"
  dp_traffic :: "instant \<Rightarrow> ('w, 'd, RuntimeSnapshot) act"
  dp_switch_to :: "RuntimeSnapshot \<Rightarrow> instant \<Rightarrow> ('w, 'd, unit) act"
  dp_observe_control :: "RuntimeSnapshot \<Rightarrow> instant \<Rightarrow> ('w, 'd, ProcessProgress) act"
  dp_retire :: "OnlineJournal \<Rightarrow> instant \<Rightarrow> ('w, 'd, ProcessProgress) act"
  dp_commit :: "OnlineJournal \<Rightarrow> instant \<Rightarrow> ('w, 'd, unit) act"

record ('w, 'r, 'd, 'permit) online_env =
  on_now :: "'w \<Rightarrow> instant \<times> 'w"
  on_previous :: "('w, 'r, 'permit) SlotRuntime"
  on_candidate :: "('w, 'r, 'permit) SlotRuntime"
  on_deployment :: "('w, 'd) OnlineDeployment"

type_synonym ('w, 'r, 'd) online_step = "('w, ('r, 'd) OnlineError, OnlineProgress \<times> OnlineJournal) act"

definition DeploymentProcess ::
    "('w, 'r, 'd, 'permit) online_env \<Rightarrow> ('w, 'r, 'd) retirement_env" where
  "DeploymentProcess E =
     \<lparr>ret_now = on_now E, ret_status = rt_status (on_previous E),
      ret_retire_drained = rt_retire_drained (on_previous E),
      ret_observe_control = dp_observe_control (on_deployment E)\<rparr>"

section \<open>Steps\<close>

definition initial_journal :: "OnlinePlan \<Rightarrow> OnlineJournal" where
  "initial_journal p =
     \<lparr>oj_schema = JOURNAL_SCHEMA, oj_revision = 0, oj_plan = p, oj_phase = OpeningCandidate,
      opened = None, closed = None, cutover_started_at_ms = None, drain_started_at_ms = None,
      drained = None, exhausted = None\<rparr>"

definition OnlineJournal_create ::
    "('w, 'd) OnlineDeployment \<Rightarrow> OnlinePlan \<Rightarrow> ('w, ('r, 'd) OnlineError, OnlineJournal) act" where
  "OnlineJournal_create D p =
     (let journal = initial_journal p in
      act_bind (act_guard (OnlineJournal_valid journal) OnlineInvalidJournal) (\<lambda>_.
      act_bind (act_map_err OnlineDeployment (dp_save D None journal)) (\<lambda>_.
      act_ret journal)))"

definition checkpoint ::
    "('w, 'r, 'd, 'permit) online_env \<Rightarrow> OnlineJournal \<Rightarrow> OnlinePhase
      \<Rightarrow> (OnlineJournal \<Rightarrow> OnlineJournal) \<Rightarrow> ('w, 'r, 'd) online_step" where
  "checkpoint E j phase update =
     act_bind (act_lift (ok_or (checked_add (oj_revision j) 1) OnlineInvalidJournal)) (\<lambda>next_revision.
     let next_journal = update (j\<lparr>oj_revision := next_revision, oj_phase := phase\<rparr>) in
     act_bind (act_guard (OnlineJournal_follows next_journal (Some j)) OnlineInvalidJournal) (\<lambda>_.
     act_bind (act_map_err OnlineDeployment (dp_save (on_deployment E) (Some j) next_journal)) (\<lambda>_.
     act_ret (Advanced phase, next_journal))))"

definition cutover_deadline ::
    "('w, 'r, 'd, 'permit) online_env \<Rightarrow> OnlineJournal \<Rightarrow> u64 \<Rightarrow> instant \<Rightarrow> instant
      \<Rightarrow> ('w, ('r, 'd) OnlineError, instant) act" where
  "cutover_deadline E j now_ms started deadline =
     act_bind (act_lift (ok_or (cutover_started_at_ms j) OnlineInvalidJournal)) (\<lambda>cutover.
     act_bind (act_lift (ok_or (checked_add cutover
         (stream_close_delay_ms (proxy (oj_plan j)) - drain_budget_ms (oj_plan j))) OnlineClock)) (\<lambda>latest.
     act_bind (act_lift (ok_or (Option.bind (checked_sub latest now_ms)
         (\<lambda>v. if 0 < v then Some v else None)) ProxyWindowElapsed)) (\<lambda>remaining.
     act_bind (act_lift (ok_or (instant_add_ms started remaining) OnlineClock)) (\<lambda>limit.
     act_bind (act_now (on_now E)) (\<lambda>now.
     act_bind (act_guard (now < limit) ProxyWindowElapsed) (\<lambda>_.
     act_ret (min deadline limit)))))))"

definition advance_opening ::
    "('w, 'r, 'd, 'permit) online_env \<Rightarrow> OnlineJournal \<Rightarrow> u64 \<Rightarrow> instant \<Rightarrow> bool \<Rightarrow> RuntimeSnapshot
      \<Rightarrow> ('w, 'r, 'd) online_step" where
  "advance_opening E j now_ms deadline is_on_previous candidate_status =
     act_bind (act_guard is_on_previous OnlineTrafficChanged) (\<lambda>_.
     act_bind (act_map_err OnlineRuntime (rt_status (on_previous E) deadline)) (\<lambda>old.
     act_bind (act_guard (unchanged_admission old (previous_process (oj_plan j))) OnlineRuntimeChanged) (\<lambda>_.
     act_bind
       (if changed_admission candidate_status (candidate_process (oj_plan j)) True
        then act_ret candidate_status
        else
          act_bind (act_guard (unchanged_admission candidate_status (candidate_process (oj_plan j)))
            OnlineRuntimeChanged) (\<lambda>_.
          act_bind (act_map_err OnlineRuntime
            (rt_readiness (on_candidate E) candidate_status (readiness (oj_plan j)) deadline)) (\<lambda>permit.
          act_bind (act_map_err OnlineRuntime (rt_open_admission (on_candidate E) permit deadline)) (\<lambda>result.
          act_bind (act_guard (changed_admission result (candidate_process (oj_plan j)) True)
            OnlineRuntimeChanged) (\<lambda>_.
          act_ret result)))))
       (\<lambda>opened_at.
          checkpoint E j SwitchingTraffic
            (\<lambda>next. next\<lparr>opened := Some opened_at, cutover_started_at_ms := Some now_ms\<rparr>)))))"

definition advance_switching ::
    "('w, 'r, 'd, 'permit) online_env \<Rightarrow> OnlineJournal \<Rightarrow> u64 \<Rightarrow> instant \<Rightarrow> bool \<Rightarrow> RuntimeSnapshot
      \<Rightarrow> ('w, 'r, 'd) online_step" where
  "advance_switching E j now_ms deadline is_on_previous candidate_status =
     act_bind (act_map_err OnlineRuntime
       (rt_readiness (on_candidate E) candidate_status (readiness (oj_plan j)) deadline)) (\<lambda>_.
     act_bind
       (if is_on_previous then
          act_bind (act_map_err OnlineRuntime (rt_status (on_previous E) deadline)) (\<lambda>old.
          act_bind (act_guard (unchanged_admission old (previous_process (oj_plan j))) OnlineRuntimeChanged) (\<lambda>_.
          act_bind (act_map_err OnlineDeployment (dp_switch_to (on_deployment E) candidate_status deadline)) (\<lambda>_.
          act_bind (act_map_err OnlineDeployment (dp_traffic (on_deployment E) deadline)) (\<lambda>traffic.
          act_guard (same_process traffic candidate_status) OnlineTrafficChanged))))
        else act_ret ())
       (\<lambda>_.
     act_bind (act_lift (ok_or (checked_add now_ms (drain_budget_ms (oj_plan j))) OnlineClock)) (\<lambda>_.
     checkpoint E j ClosingPrevious (\<lambda>next. next\<lparr>drain_started_at_ms := Some now_ms\<rparr>))))"

definition advance_closing ::
    "('w, 'r, 'd, 'permit) online_env \<Rightarrow> OnlineJournal \<Rightarrow> u64 \<Rightarrow> instant \<Rightarrow> instant
      \<Rightarrow> ('w, 'r, 'd) online_step" where
  "advance_closing E j now_ms started deadline =
     act_bind (act_map_err OnlineRuntime (rt_status (on_previous E) deadline)) (\<lambda>old.
     act_bind
       (if changed_admission old (previous_process (oj_plan j)) False then act_ret old
        else
          act_bind (act_guard (unchanged_admission old (previous_process (oj_plan j))) OnlineRuntimeChanged) (\<lambda>_.
          act_bind (cutover_deadline E j now_ms started deadline) (\<lambda>limit.
          act_bind (act_map_err OnlineRuntime (rt_close_admission (on_previous E) old limit)) (\<lambda>result.
          act_bind (act_guard (changed_admission result (previous_process (oj_plan j)) False)
            OnlineRuntimeChanged) (\<lambda>_.
          act_ret result)))))
       (\<lambda>closed_at. checkpoint E j DrainingPrevious (\<lambda>next. next\<lparr>closed := Some closed_at\<rparr>)))"

definition advance_draining ::
    "('w, 'r, 'd, 'permit) online_env \<Rightarrow> OnlineJournal \<Rightarrow> u64 \<Rightarrow> instant \<Rightarrow> instant
      \<Rightarrow> ('w, 'r, 'd) online_step" where
  "advance_draining E j now_ms started deadline =
     act_bind (act_lift (ok_or (drain_started_at_ms j) OnlineInvalidJournal)) (\<lambda>start.
     act_bind (act_map_err OnlineRuntime (rt_status (on_previous E) deadline)) (\<lambda>old.
     act_bind (act_guard (is_some_and (closed j) (\<lambda>c. observes_drain old c)) OnlineRuntimeChanged) (\<lambda>_.
     act_bind (act_now (on_now E)) (\<lambda>now.
     act_bind (act_lift (ok_or (u64_try_from (elapsed_ms now started)) OnlineClock)) (\<lambda>step_ms.
     act_bind (act_lift (ok_or (checked_add now_ms step_ms) OnlineClock)) (\<lambda>observed_at_ms.
     act_bind (act_lift (ok_or (Option.bind (checked_sub now_ms start)
         (\<lambda>e. checked_add e step_ms)) OnlineClock)) (\<lambda>elapsed.
     act_bind (act_lift (ok_or (Option.bind (cutover_started_at_ms j)
         (\<lambda>cutover. checked_add cutover (stream_close_delay_ms (proxy (oj_plan j)))))
         OnlineInvalidJournal)) (\<lambda>proxy_end.
     if drain_budget_ms (oj_plan j) \<le> elapsed \<or> proxy_end \<le> observed_at_ms
     then checkpoint E j DrainBudgetExhausted (\<lambda>next. next\<lparr>exhausted := Some old\<rparr>)
     else if 0 < in_flight (lifecycle old)
     then act_ret (Draining (in_flight (lifecycle old)) (oldest_request_age_ms (lifecycle old)), j)
     else checkpoint E j RetiringPrevious (\<lambda>next. next\<lparr>drained := Some old\<rparr>)))))))))"

definition retire_previous ::
    "('w, 'r, 'd, 'permit) online_env \<Rightarrow> OnlineJournal \<Rightarrow> instant \<Rightarrow> RuntimeSnapshot
      \<Rightarrow> ('w, 'r, 'd) online_step" where
  "retire_previous E j deadline d =
     act_bind (act_map_err OnlineRetirement (retire_control (DeploymentProcess E) d deadline)) (\<lambda>progress.
     if progress = RetirementWaiting then act_ret (ProgressRetiringPrevious, j)
     else
       act_bind (act_map_err OnlineDeployment (dp_retire (on_deployment E) j deadline)) (\<lambda>state.
       if state \<noteq> Exited then act_ret (ProgressRetiringPrevious, j)
       else checkpoint E j Committing (\<lambda>next. next)))"

definition advance_retiring ::
    "('w, 'r, 'd, 'permit) online_env \<Rightarrow> OnlineJournal \<Rightarrow> instant \<Rightarrow> RuntimeSnapshot
      \<Rightarrow> ('w, 'r, 'd) online_step" where
  "advance_retiring E j deadline candidate_status =
     act_bind (act_map_err OnlineRuntime
       (rt_readiness (on_candidate E) candidate_status (readiness (oj_plan j)) deadline)) (\<lambda>_.
     act_bind (act_lift (ok_or (drained j) OnlineInvalidJournal)) (\<lambda>d.
     retire_previous E j deadline d))"

definition advance_committing ::
    "('w, 'r, 'd, 'permit) online_env \<Rightarrow> OnlineJournal \<Rightarrow> instant \<Rightarrow> ('w, 'r, 'd) online_step" where
  "advance_committing E j deadline =
     act_bind (act_map_err OnlineDeployment (dp_commit (on_deployment E) j deadline)) (\<lambda>_.
     checkpoint E j Complete (\<lambda>next. next))"

definition advance_phase ::
    "('w, 'r, 'd, 'permit) online_env \<Rightarrow> OnlineJournal \<Rightarrow> u64 \<Rightarrow> instant \<Rightarrow> instant \<Rightarrow> bool
      \<Rightarrow> RuntimeSnapshot \<Rightarrow> ('w, 'r, 'd) online_step" where
  "advance_phase E j now_ms started deadline is_on_previous candidate_status =
     (case oj_phase j of
        OpeningCandidate \<Rightarrow> advance_opening E j now_ms deadline is_on_previous candidate_status
      | SwitchingTraffic \<Rightarrow> advance_switching E j now_ms deadline is_on_previous candidate_status
      | ClosingPrevious \<Rightarrow> advance_closing E j now_ms started deadline
      | DrainingPrevious \<Rightarrow> advance_draining E j now_ms started deadline
      | RetiringPrevious \<Rightarrow> advance_retiring E j deadline candidate_status
      | Committing \<Rightarrow> advance_committing E j deadline
      | Complete \<Rightarrow> act_fail OnlineUnreachable
      | DrainBudgetExhausted \<Rightarrow> act_fail OnlineUnreachable)"

text \<open>The checks every non-terminal step makes on traffic and on the candidate.\<close>

definition advance_observed ::
    "('w, 'r, 'd, 'permit) online_env \<Rightarrow> OnlineJournal \<Rightarrow> u64 \<Rightarrow> instant \<Rightarrow> instant
      \<Rightarrow> ('w, 'r, 'd) online_step" where
  "advance_observed E j now_ms started deadline =
     act_bind (act_map_err OnlineDeployment (dp_traffic (on_deployment E) deadline)) (\<lambda>traffic.
     let is_on_previous = same_process traffic (previous_process (oj_plan j));
         is_on_candidate = same_process traffic (candidate_process (oj_plan j)) in
     act_bind (act_guard (is_on_previous \<or> is_on_candidate) OnlineTrafficChanged) (\<lambda>_.
     act_bind (act_guard (oj_phase j = OpeningCandidate \<or> oj_phase j = SwitchingTraffic \<or> is_on_candidate)
       OnlineTrafficChanged) (\<lambda>_.
     act_bind (act_map_err OnlineRuntime (rt_status (on_candidate E) deadline)) (\<lambda>candidate_status.
     act_bind (act_guard (same_process candidate_status (candidate_process (oj_plan j))
         \<and> \<not> stopping (lifecycle candidate_status)) OnlineRuntimeChanged) (\<lambda>_.
     act_bind (act_guard (oj_phase j = OpeningCandidate
         \<or> changed_admission candidate_status (candidate_process (oj_plan j)) True) OnlineRuntimeChanged) (\<lambda>_.
     advance_phase E j now_ms started deadline is_on_previous candidate_status))))))"

definition OnlineJournal_advance ::
    "('w, 'r, 'd, 'permit) online_env \<Rightarrow> OnlineJournal \<Rightarrow> UpgradeClock \<Rightarrow> instant
      \<Rightarrow> ('w, 'r, 'd) online_step" where
  "OnlineJournal_advance E j clk deadline =
     act_bind (act_now (on_now E)) (\<lambda>started.
     act_bind (act_guard (OnlineJournal_valid j) OnlineInvalidJournal) (\<lambda>_.
     act_bind (act_now (on_now E)) (\<lambda>now.
     act_bind (act_guard (now < deadline) OnlineDeadline) (\<lambda>_.
     act_bind (act_map_err OnlineDeployment (dp_assert_current (on_deployment E) j)) (\<lambda>_.
     if oj_phase j = Complete then act_ret (ProgressComplete, j)
     else if oj_phase j = DrainBudgetExhausted then act_ret (ProgressDrainBudgetExhausted, j)
     else
       act_bind (act_guard (boot_id clk = boot_id (plan_clock (oj_plan j))) OnlineBootChanged) (\<lambda>_.
       let now_ms = uptime_ms clk in
       act_bind (act_guard (\<not> (now_ms < uptime_ms (plan_clock (oj_plan j))
           \<or> is_some_and (cutover_started_at_ms j) (\<lambda>start. now_ms < start))) OnlineClock) (\<lambda>_.
       act_bind (act_guard (\<not> is_some_and (drain_started_at_ms j) (\<lambda>start. now_ms < start)) OnlineClock) (\<lambda>_.
       act_bind (if oj_phase j = SwitchingTraffic then cutover_deadline E j now_ms started deadline
                 else act_ret deadline) (\<lambda>limit.
       advance_observed E j now_ms started limit)))))))))"

section \<open>Succession\<close>

lemma expected_revision_bound: "unat (expected_revision ph) \<le> 6"
  by (cases ph) auto

lemma journal_revision: "OnlineJournal_valid j \<Longrightarrow> oj_revision j = expected_revision (oj_phase j)"
  by (simp add: OnlineJournal_valid_def)

lemma follows_revision:
  "OnlineJournal_follows j (Some p) \<Longrightarrow> unat (oj_revision j) = Suc (unat (oj_revision p))"
  by (auto simp: OnlineJournal_follows_def checked_simps)

interpretation online: journal_protocol OnlineJournal_valid OnlineJournal_follows
    "\<lambda>j. unat (oj_revision j)" oj_plan 6
proof
  fix j p prev
  show "OnlineJournal_follows j prev \<Longrightarrow> OnlineJournal_valid j"
    by (simp add: OnlineJournal_follows_def)
  show "OnlineJournal_follows j None \<Longrightarrow> unat (oj_revision j) = 0"
    using journal_revision [of j] by (auto simp: OnlineJournal_follows_def)
  show "OnlineJournal_follows j (Some p) \<Longrightarrow> OnlineJournal_valid p \<and> oj_plan j = oj_plan p
      \<and> (j = p \<or> unat (oj_revision j) = Suc (unat (oj_revision p)))"
    using follows_revision [of j p] by (auto simp: OnlineJournal_follows_def)
  show "OnlineJournal_follows j (Some p) \<Longrightarrow> unat (oj_revision j) = Suc (unat (oj_revision p))"
    by (rule follows_revision)
  show "OnlineJournal_valid j \<Longrightarrow> unat (oj_revision j) \<le> 6"
    using journal_revision [of j] expected_revision_bound by metis
qed

text \<open>What a step may return: the same journal, or a successor.\<close>

definition step_result ::
    "OnlineJournal \<Rightarrow> (('r, 'd) OnlineError, OnlineProgress \<times> OnlineJournal) result \<Rightarrow> bool" where
  "step_result j r \<longleftrightarrow> (case r of Inl e \<Rightarrow> True
     | Inr (progress, j') \<Rightarrow>
         (case progress of Advanced ph \<Rightarrow> OnlineJournal_follows j' (Some j) \<and> oj_phase j' = ph
          | _ \<Rightarrow> j' = j))"

lemma step_result_Inl [simp]: "step_result j (Inl e)"
  by (simp add: step_result_def)

lemma post_checkpoint: "(\<And>x. oj_phase (update x) = oj_phase x) \<Longrightarrow>
    act_post (checkpoint E j phase update) (step_result j)"
  unfolding checkpoint_def Let_def
  by (intro post_intros) (auto simp: step_result_def)

lemma post_bind_step: "(\<And>a. act_post (f a) (step_result j)) \<Longrightarrow> act_post (act_bind m f) (step_result j)"
  by (rule act_post_bind, rule act_post_any) auto

lemma post_advance: "act_post (OnlineJournal_advance E j clk deadline) (step_result j)"
  unfolding OnlineJournal_advance_def advance_observed_def advance_phase_def advance_opening_def advance_switching_def
    advance_closing_def advance_draining_def advance_retiring_def retire_previous_def
    advance_committing_def Let_def
  by (auto intro!: post_bind_step post_checkpoint act_post_ret act_post_fail
      simp: step_result_def split: OnlinePhase.split)

section \<open>A valid journal never gets stuck\<close>

definition sound_error :: "('r, 'd) OnlineError \<Rightarrow> bool" where
  "sound_error e \<longleftrightarrow> e \<noteq> OnlineInvalidJournal \<and> e \<noteq> OnlineUnreachable"

fun sound_result :: "(('r, 'd) OnlineError, 'a) result \<Rightarrow> bool" where
  "sound_result (Inr a) = True"
| "sound_result (Inl e) = sound_error e"

lemma sound_error_simps [simp]:
  "sound_error OnlineDeadline" "sound_error OnlineClock" "sound_error OnlineBootChanged"
  "sound_error ProxyWindowElapsed" "sound_error OnlineRuntimeChanged" "sound_error OnlineTrafficChanged"
  "sound_error (OnlineRuntime r)" "sound_error (OnlineDeployment d)" "sound_error (OnlineRetirement x)"
  by (simp_all add: sound_error_def)

text \<open>The drain budget still fits before the proxy closes old streams.\<close>

definition window_open :: "OnlineJournal \<Rightarrow> u64 \<Rightarrow> bool" where
  "window_open j now_ms \<longleftrightarrow> is_some_and (cutover_started_at_ms j) (\<lambda>c.
     unat now_ms + unat (drain_budget_ms (oj_plan j))
       < unat c + unat (stream_close_delay_ms (proxy (oj_plan j))))"

lemma plan_budget: "OnlineJournal_valid j \<Longrightarrow> drain_budget_ms (oj_plan j) < stream_close_delay_ms (proxy (oj_plan j))"
  by (simp add: OnlineJournal_valid_def OnlinePlan_valid_def)

lemma post_cutover_deadline:
  assumes "OnlineJournal_valid j" and "cutover_started_at_ms j \<noteq> None"
  shows "act_post (cutover_deadline E j now_ms started d)
    (\<lambda>r. sound_result r \<and> (\<forall>t. r = Inr t \<longrightarrow> window_open j now_ms \<and> t \<le> d))"
proof -
  let ?delay = "stream_close_delay_ms (proxy (oj_plan j))" and ?budget = "drain_budget_ms (oj_plan j)"
  have lt: "?budget < ?delay" by (rule plan_budget [OF assms(1)])
  have diff: "unat (?delay - ?budget) = unat ?delay - unat ?budget" "unat ?budget < unat ?delay"
    using lt by (simp_all add: unat_diff_le order_less_imp_le word_less_nat_alt)
  have "window_open j now_ms"
    if "cutover_started_at_ms j = Some c" "checked_add c (?delay - ?budget) = Some latest"
      "checked_sub latest now_ms = Some v" "0 < v" for c latest v
  proof -
    have "now_ms < latest"
      using that(3,4) by (auto simp: checked_simps order_le_less)
    then have "unat now_ms < unat latest" by (simp add: word_less_nat_alt)
    moreover have "unat latest = unat c + (unat ?delay - unat ?budget)"
      using that(2) diff by (simp add: checked_simps)
    ultimately show ?thesis using diff that(1) by (simp add: window_open_def)
  qed
  then show ?thesis
    unfolding cutover_deadline_def using assms(2)
    by (intro post_intros) (auto simp: result_simps bind_eq_Some_conv split: if_splits)
qed

lemma post_bind_cutover:
  assumes "OnlineJournal_valid j" and "cutover_started_at_ms j \<noteq> None"
    and "\<And>e. sound_error e \<Longrightarrow> Q (Inl e)"
    and "\<And>t. window_open j now_ms \<Longrightarrow> t \<le> d \<Longrightarrow> act_post (f t) Q"
  shows "act_post (act_bind (cutover_deadline E j now_ms started d) f) Q"
  by (rule act_post_bind, rule act_post_mono [OF post_cutover_deadline [OF assms(1,2)]])
     (use assms(3,4) in auto)

lemma sound_checkpoint:
  assumes "OnlineJournal_valid j"
    and "\<And>n. checked_add (oj_revision j) 1 = Some n \<Longrightarrow>
      OnlineJournal_follows (update (j\<lparr>oj_revision := n, oj_phase := phase\<rparr>)) (Some j)"
  shows "act_post (checkpoint E j phase update) sound_result"
proof -
  have "checked_add (oj_revision j) 1 \<noteq> None"
    using journal_revision [OF assms(1)] by (cases "oj_phase j") (auto simp: checked_add_def)
  then show ?thesis
    unfolding checkpoint_def Let_def using assms(2)
    by (intro post_intros) (auto simp: result_simps)
qed

lemmas journal_defs = OnlineJournal_valid_def OnlineJournal_follows_def phase_follows_def
  opened_ok_def closed_ok_def drained_ok_def cutover_valid_def clock_valid_def exhaustion_valid_def

lemma next_revision:
  assumes "OnlineJournal_valid j" and "checked_add (oj_revision j) 1 = Some n"
    and "phase_follows (oj_phase j) phase"
  shows "n = expected_revision phase"
  using assms journal_revision [OF assms(1)]
  by (auto simp: phase_follows_def checked_add_def)

lemma follows_switching:
  assumes "OnlineJournal_valid j" "oj_phase j = OpeningCandidate"
    and "changed_admission v (candidate_process (oj_plan j)) True"
    and "uptime_ms (plan_clock (oj_plan j)) \<le> now"
    and "checked_add now (stream_close_delay_ms (proxy (oj_plan j))) \<noteq> None"
    and "checked_add (oj_revision j) 1 = Some n"
  shows "OnlineJournal_follows (j\<lparr>oj_revision := n, oj_phase := SwitchingTraffic, opened := Some v,
      cutover_started_at_ms := Some now\<rparr>) (Some j)"
  using assms next_revision [OF assms(1,6), of SwitchingTraffic]
  by (auto simp: journal_defs)

lemma follows_closing:
  assumes "OnlineJournal_valid j" "oj_phase j = SwitchingTraffic" and "window_open j now"
    and "is_some_and (cutover_started_at_ms j) (\<lambda>c. c \<le> now)"
    and "checked_add (oj_revision j) 1 = Some n"
  shows "OnlineJournal_follows (j\<lparr>oj_revision := n, oj_phase := ClosingPrevious,
      drain_started_at_ms := Some now\<rparr>) (Some j)"
proof -
  let ?delay = "stream_close_delay_ms (proxy (oj_plan j))" and ?budget = "drain_budget_ms (oj_plan j)"
  obtain c where c: "cutover_started_at_ms j = Some c" "c \<le> now"
      "unat now + unat ?budget < unat c + unat ?delay"
    using assms(3,4) by (auto simp: window_open_def is_some_and_iff)
  obtain fin where fin: "checked_add c ?delay = Some fin"
    using assms(1,2) c(1) by (auto simp: journal_defs)
  have "unat fin = unat c + unat ?delay" using fin by (simp add: checked_simps)
  with c(3) have "unat now + unat ?budget < unat fin" by simp
  moreover have "unat fin < 2 ^ 64" using unsigned_less [of fin] by simp
  ultimately have bound: "unat now + unat ?budget < 2 ^ 64" by linarith
  then obtain e where e: "checked_add now ?budget = Some e" by (auto simp: checked_add_def)
  have "e \<le> fin" using \<open>unat now + unat ?budget < unat fin\<close> e by (simp add: checked_simps word_le_nat_alt)
  then show ?thesis
    using assms(1,2,5) next_revision [OF assms(1,5), of ClosingPrevious] c fin e
    by (auto simp: journal_defs)
qed

lemma follows_draining:
  assumes "OnlineJournal_valid j" "oj_phase j = ClosingPrevious"
    and "changed_admission v (previous_process (oj_plan j)) False"
    and "checked_add (oj_revision j) 1 = Some n"
  shows "OnlineJournal_follows (j\<lparr>oj_revision := n, oj_phase := DrainingPrevious, closed := Some v\<rparr>) (Some j)"
  using assms next_revision [OF assms(1,4), of DrainingPrevious]
  by (auto simp: journal_defs)

lemma follows_exhausted:
  assumes "OnlineJournal_valid j" "oj_phase j = DrainingPrevious"
    and "is_some_and (closed j) (\<lambda>c. observes_drain v c)"
    and "checked_add (oj_revision j) 1 = Some n"
  shows "OnlineJournal_follows (j\<lparr>oj_revision := n, oj_phase := DrainBudgetExhausted, exhausted := Some v\<rparr>) (Some j)"
  using assms next_revision [OF assms(1,4), of DrainBudgetExhausted]
  by (auto simp: journal_defs)

lemma follows_retiring:
  assumes "OnlineJournal_valid j" "oj_phase j = DrainingPrevious"
    and "is_some_and (closed j) (\<lambda>c. observes_drain v c)" and "in_flight (lifecycle v) = 0"
    and "checked_add (oj_revision j) 1 = Some n"
  shows "OnlineJournal_follows (j\<lparr>oj_revision := n, oj_phase := RetiringPrevious, drained := Some v\<rparr>) (Some j)"
  using assms next_revision [OF assms(1,5), of RetiringPrevious]
  by (auto simp: journal_defs)

lemma follows_final:
  assumes "OnlineJournal_valid j" "phase_follows (oj_phase j) phase"
    and "oj_phase j = RetiringPrevious \<or> oj_phase j = Committing"
    and "checked_add (oj_revision j) 1 = Some n"
  shows "OnlineJournal_follows (j\<lparr>oj_revision := n, oj_phase := phase\<rparr>) (Some j)"
  using assms next_revision [OF assms(1,4,2)]
  by (auto simp: journal_defs)

lemma post_conj_bind:
  "act_post m (\<lambda>r. sound_result r \<and> (\<forall>a. r = Inr a \<longrightarrow> P a)) \<Longrightarrow>
    (\<And>a. P a \<Longrightarrow> act_post (f a) sound_result) \<Longrightarrow> act_post (act_bind m f) sound_result"
  by (rule act_post_bind) (auto elim!: act_post_mono)

lemma sound_opening:
  assumes "OnlineJournal_valid j" "oj_phase j = OpeningCandidate"
    and "uptime_ms (plan_clock (oj_plan j)) \<le> now"
    and "checked_add now (stream_close_delay_ms (proxy (oj_plan j))) \<noteq> None"
  shows "act_post (advance_opening E j now d on_prev st) sound_result"
  unfolding advance_opening_def
  by (intro post_intros post_conj_bind [where P = "\<lambda>v. changed_admission v (candidate_process (oj_plan j)) True"]
      sound_checkpoint assms(1) follows_switching [OF assms(1,2) _ assms(3,4)])
     (auto intro!: post_intros)

lemma sound_switching:
  assumes "OnlineJournal_valid j" "oj_phase j = SwitchingTraffic" and "window_open j now"
    and "is_some_and (cutover_started_at_ms j) (\<lambda>c. c \<le> now)"
  shows "act_post (advance_switching E j now d on_prev st) sound_result"
  unfolding advance_switching_def
  by (intro post_intros post_conj_bind [where P = "\<lambda>_. True"] sound_checkpoint assms(1)
      follows_closing [OF assms])
     (auto intro!: post_intros simp: act_guard_def result_simps)

lemma sound_closing:
  assumes "OnlineJournal_valid j" "oj_phase j = ClosingPrevious"
  shows "act_post (advance_closing E j now started d) sound_result"
proof -
  have cut: "cutover_started_at_ms j \<noteq> None" using assms by (auto simp: journal_defs is_some_and_iff)
  show ?thesis
    unfolding advance_closing_def
    by (intro post_intros post_conj_bind [where P = "\<lambda>v. changed_admission v (previous_process (oj_plan j)) False"]
        sound_checkpoint assms(1) follows_draining [OF assms])
       (auto intro!: post_intros post_bind_cutover [OF assms(1) cut])
qed

lemma sound_draining:
  assumes "OnlineJournal_valid j" "oj_phase j = DrainingPrevious"
  shows "act_post (advance_draining E j now started d) sound_result"
proof -
  obtain c f s where "cutover_started_at_ms j = Some c" "drain_started_at_ms j = Some s"
      "checked_add c (stream_close_delay_ms (proxy (oj_plan j))) = Some f"
    using assms by (auto simp: journal_defs is_some_and_iff)
  then show ?thesis
    unfolding advance_draining_def
    by (intro post_intros sound_checkpoint assms(1) follows_exhausted [OF assms] follows_retiring [OF assms])
       (auto simp: result_simps word_gt_0)
qed

lemma sound_retiring:
  assumes "OnlineJournal_valid j" "oj_phase j = RetiringPrevious"
  shows "act_post (advance_retiring E j d st) sound_result"
proof -
  have "drained j \<noteq> None" using assms by (auto simp: journal_defs is_some_and_iff)
  moreover have "phase_follows (oj_phase j) Committing" by (simp add: assms(2) phase_follows_def)
  ultimately show ?thesis
    unfolding advance_retiring_def retire_previous_def using assms
    by (intro post_intros sound_checkpoint follows_final) (auto simp: result_simps)
qed

lemma sound_committing:
  assumes "OnlineJournal_valid j" "oj_phase j = Committing"
  shows "act_post (advance_committing E j d) sound_result"
proof -
  have "phase_follows (oj_phase j) Complete" by (simp add: assms(2) phase_follows_def)
  then show ?thesis
    unfolding advance_committing_def using assms
    by (intro post_intros sound_checkpoint follows_final) auto
qed

lemma cutover_saved:
  "OnlineJournal_valid j \<Longrightarrow> oj_phase j \<noteq> OpeningCandidate \<Longrightarrow> cutover_started_at_ms j \<noteq> None"
  by (cases "oj_phase j") (auto simp: journal_defs is_some_and_iff)

lemma sound_observed:
  assumes valid: "OnlineJournal_valid j" and "oj_phase j \<noteq> Complete" "oj_phase j \<noteq> DrainBudgetExhausted"
    and "uptime_ms (plan_clock (oj_plan j)) \<le> now"
    and "oj_phase j = OpeningCandidate \<Longrightarrow>
      checked_add now (stream_close_delay_ms (proxy (oj_plan j))) \<noteq> None"
    and "oj_phase j = SwitchingTraffic \<Longrightarrow> window_open j now"
    and "is_none_or (cutover_started_at_ms j) (\<lambda>c. c \<le> now)"
  shows "act_post (advance_observed E j now started d) sound_result"
proof -
  have cut: "oj_phase j = SwitchingTraffic \<Longrightarrow> is_some_and (cutover_started_at_ms j) (\<lambda>c. c \<le> now)"
    using cutover_saved [OF valid] assms(7) by (auto simp: is_some_and_iff is_none_or_iff)
  show ?thesis
    unfolding advance_observed_def advance_phase_def Let_def using assms(2-6) cut
    by (auto intro!: post_intros sound_opening sound_switching sound_closing sound_draining
        sound_retiring sound_committing simp: valid split: OnlinePhase.split)
qed

lemma sound_advance:
  assumes valid: "OnlineJournal_valid j"
    and "checked_add (uptime_ms clk) (stream_close_delay_ms (proxy (oj_plan j))) \<noteq> None"
  shows "act_post (OnlineJournal_advance E j clk deadline) sound_result"
proof -
  have window: "act_post (if oj_phase j = SwitchingTraffic
        then cutover_deadline E j (uptime_ms clk) started deadline else act_ret deadline)
      (\<lambda>r. sound_result r \<and> (\<forall>t. r = Inr t \<longrightarrow> (oj_phase j = SwitchingTraffic \<longrightarrow> window_open j (uptime_ms clk))))"
    for started
  proof (cases "oj_phase j = SwitchingTraffic")
    case True
    then have cut: "cutover_started_at_ms j \<noteq> None" using cutover_saved [OF valid] by simp
    from True show ?thesis
      by (simp, intro act_post_mono [OF post_cutover_deadline [OF valid cut]]) auto
  qed (simp add: act_post_ret)
  show ?thesis
    unfolding OnlineJournal_advance_def Let_def
    by (intro post_intros post_conj_bind [OF window] sound_observed valid)
       (use assms in \<open>auto simp: is_some_and_iff is_none_or_iff not_less\<close>)
qed

section \<open>A sample cutover\<close>

definition sample_plan :: OnlinePlan where
  "sample_plan =
     \<lparr>job_id = ''job'', previous_slot = sample_active_slot Blue, candidate_slot = sample_active_slot Green,
      previous_process = sample_runtime Blue True False 3 2, candidate_process = sample_runtime Green False False 0 0,
      previous_runner_process = \<lparr>process_id = 9, invocation_id = replicate 32 (CHR ''c'')\<rparr>,
      candidate_runner_process = \<lparr>process_id = 10, invocation_id = replicate 32 (CHR ''d'')\<rparr>,
      readiness = \<lparr>re_manifest_sha256 = replicate 64 (CHR ''b''), re_models = [''fast''],
        re_runner_ids = [''runner_'' @ replicate 32 (CHR ''b'')]\<rparr>,
      proxy = \<lparr>ps_slot = Blue, configuration_sha256 = replicate 64 (CHR ''e''), stream_close_delay_ms = 900\<rparr>,
      plan_clock = \<lparr>boot_id = ''boot'', uptime_ms = 1000\<rparr>, drain_budget_ms = 600\<rparr>"

lemma sample_pair_valid: "pair_valid (sample_active_slot slot) (sample_runtime slot acc False r n)" if "r < - 1"
  using sample_active_slot_valid [of slot] sample_service_valid [of slot] that
  by (cases slot) (simp_all add: pair_valid_def sample_active_slot_def sample_runtime_def same_process_def)

lemma sample_services_distinct: "distinct_service_invocations sample_plan"
  using sample_service_valid [of Blue] sample_service_valid [of Green]
  by (simp add: distinct_service_invocations_def sample_plan_def sample_runtime_def sample_service.simps
      ServiceInvocation_valid_def byte_defs list_all_iff list_ex_iff word_gt_0)

lemma sample_plan_valid: "OnlinePlan_valid sample_plan"
proof -
  have ids: "valid_identifier ''job''" "valid_identifier ''boot''"
    by (simp_all add: valid_identifier_def byte_defs)
  have hex: "is_lower_hex (CHR ''b'')" "is_lower_hex (CHR ''e'')" by (simp_all add: byte_defs)
  have ready: "ReadinessExpectation_valid (readiness sample_plan)"
    using hex by (simp add: ReadinessExpectation_valid_def sample_plan_def valid_names_def)
  have pairs: "pair_valid (previous_slot sample_plan) (previous_process sample_plan)"
      "pair_valid (candidate_slot sample_plan) (candidate_process sample_plan)"
    unfolding sample_plan_def OnlinePlan.simps by (rule sample_pair_valid; code_simp)+
  show ?thesis
    using ids hex ready pairs sample_services_distinct
    by (simp add: OnlinePlan_valid_def)
       (simp add: sample_plan_def sample_active_slot_def sample_runtime_def checked_add_def)
qed

lemma sample_journal_valid: "OnlineJournal_valid (initial_journal sample_plan)"
  by (simp add: journal_defs initial_journal_def sample_plan_valid)

definition sample_runtime_ops :: "RuntimeSnapshot \<Rightarrow> RuntimeSnapshot \<Rightarrow> ('w, unit, unit) SlotRuntime" where
  "sample_runtime_ops now_state then_state =
     \<lparr>rt_status = (\<lambda>deadline w. (Inr now_state, w)),
      rt_readiness = (\<lambda>s x deadline w. (Inr (), w)),
      rt_open_admission = (\<lambda>permit deadline w. (Inr then_state, w)),
      rt_close_admission = (\<lambda>s deadline w. (Inr then_state, w)),
      rt_observe_drain = (\<lambda>s deadline w. (Inr Drained, w)),
      rt_retire_drained = (\<lambda>s deadline w. (Inr then_state, w))\<rparr>"

definition sample_deployment :: "RuntimeSnapshot \<Rightarrow> ('w, unit) OnlineDeployment" where
  "sample_deployment live =
     \<lparr>dp_load = (\<lambda>w. (Inr None, w)), dp_assert_current = (\<lambda>j w. (Inr (), w)),
      dp_save = (\<lambda>p n w. (Inr (), w)), dp_traffic = (\<lambda>deadline w. (Inr live, w)),
      dp_switch_to = (\<lambda>s deadline w. (Inr (), w)), dp_observe_control = (\<lambda>s deadline w. (Inr Running, w)),
      dp_retire = (\<lambda>j deadline w. (Inr Running, w)), dp_commit = (\<lambda>j deadline w. (Inr (), w))\<rparr>"

definition sample_env :: "('w, unit, unit, unit) online_env" where
  "sample_env =
     \<lparr>on_now = (\<lambda>w. (0, w)),
      on_previous = sample_runtime_ops (sample_runtime Blue True False 3 2) (sample_runtime Blue False False 4 2),
      on_candidate = sample_runtime_ops (sample_runtime Green False False 0 0) (sample_runtime Green True False 1 0),
      on_deployment = sample_deployment (sample_runtime Blue True False 3 2)\<rparr>"

definition sample_opened_journal :: OnlineJournal where
  "sample_opened_journal = (initial_journal sample_plan)\<lparr>oj_revision := 1, oj_phase := SwitchingTraffic,
     opened := Some (sample_runtime Green True False 1 0), cutover_started_at_ms := Some 1500\<rparr>"

lemma sample_changed: "changed_admission (sample_runtime Green True False 1 0) (candidate_process sample_plan) True"
  by (simp add: changed_admission_def sample_plan_def sample_runtime_def same_process_def checked_add_def)

lemma sample_opened_follows: "OnlineJournal_follows sample_opened_journal (Some (initial_journal sample_plan))"
proof -
  have "uptime_ms (plan_clock sample_plan) \<le> 1500"
      "checked_add 1500 (stream_close_delay_ms (proxy sample_plan)) \<noteq> None"
    by (simp_all add: sample_plan_def checked_add_def)
  then show ?thesis
    unfolding sample_opened_journal_def
    by (intro follows_switching [OF sample_journal_valid])
       (simp_all add: initial_journal_def sample_changed checked_add_def)
qed

lemma sample_journal_fields:
  "oj_phase (initial_journal sample_plan) = OpeningCandidate" "oj_plan (initial_journal sample_plan) = sample_plan"
  "oj_revision (initial_journal sample_plan) = 0" "cutover_started_at_ms (initial_journal sample_plan) = None"
  "drain_started_at_ms (initial_journal sample_plan) = None"
  by (simp_all add: initial_journal_def)

lemma sample_observations:
  "same_process (sample_runtime Blue True False 3 2) (previous_process sample_plan)"
  "same_process (sample_runtime Green False False 0 0) (candidate_process sample_plan)"
  "\<not> stopping (lifecycle (sample_runtime Green False False 0 0))"
  "unchanged_admission (sample_runtime Blue True False 3 2) (previous_process sample_plan)"
  "unchanged_admission (sample_runtime Green False False 0 0) (candidate_process sample_plan)"
  "\<not> changed_admission (sample_runtime Green False False 0 0) (candidate_process sample_plan) True"
  "boot_id (plan_clock sample_plan) = ''boot''" "uptime_ms (plan_clock sample_plan) = 1000"
  by (simp_all add: sample_plan_def sample_runtime_def same_process_def unchanged_admission_def
      changed_admission_def)

lemmas sample_step_simps = OnlineJournal_advance_def advance_observed_def advance_phase_def advance_opening_def
  checkpoint_def Let_def sample_journal_fields sample_observations sample_changed sample_journal_valid
  sample_env_def sample_runtime_ops_def sample_deployment_def act_defs

lemma sample_advance:
  "OnlineJournal_advance sample_env (initial_journal sample_plan) \<lparr>boot_id = ''boot'', uptime_ms = 1500\<rparr> 50 w
    = (Inr (Advanced SwitchingTraffic, sample_opened_journal), w)"
  using sample_opened_follows unfolding sample_opened_journal_def
  by (simp add: sample_step_simps checked_add_def)

section \<open>Results on the forward cutover\<close>

text \<open>
  C8: one call of \<open>advance\<close>, in any environment, either keeps the journal as it is or replaces
  it by one successor: the same plan, the next revision, a valid record, a phase the protocol
  allows after the old one, and every piece of evidence saved before kept unchanged.
\<close>

theorem online_advance_refines_protocol:
  assumes "OnlineJournal_advance E j clk deadline w = (Inr (progress, j'), w')"
  shows "(j' = j \<and> (\<forall>ph. progress \<noteq> Advanced ph))
    \<or> (OnlineJournal_valid j \<and> OnlineJournal_valid j' \<and> progress = Advanced (oj_phase j')
       \<and> oj_plan j' = oj_plan j \<and> unat (oj_revision j') = Suc (unat (oj_revision j))
       \<and> phase_follows (oj_phase j) (oj_phase j')
       \<and> is_none_or (opened j) (\<lambda>v. opened j' = Some v) \<and> is_none_or (closed j) (\<lambda>v. closed j' = Some v)
       \<and> is_none_or (drained j) (\<lambda>v. drained j' = Some v)
       \<and> is_none_or (cutover_started_at_ms j) (\<lambda>v. cutover_started_at_ms j' = Some v)
       \<and> is_none_or (drain_started_at_ms j) (\<lambda>v. drain_started_at_ms j' = Some v))"
proof (cases progress)
  case (Advanced ph)
  with act_postD [OF post_advance assms] have "OnlineJournal_follows j' (Some j)" "oj_phase j' = ph"
    by (auto simp: step_result_def)
  with Advanced follows_revision [of j' j] show ?thesis by (auto simp: OnlineJournal_follows_def)
qed (use act_postD [OF post_advance assms] in \<open>auto simp: step_result_def\<close>)

text \<open>
  C20: on a valid journal \<open>advance\<close> never answers that the journal is invalid and never reaches
  its unreachable branch: every checkpoint it attempts is lawful, as long as the uptime plus the
  proxy's close delay fits the counter. In particular the drain it starts always ends before the
  proxy closes the old streams.
\<close>

theorem online_advance_never_stuck:
  assumes "OnlineJournal_valid j"
    and "unat (uptime_ms clk) + unat (stream_close_delay_ms (proxy (oj_plan j))) < 2 ^ 64"
    and "OnlineJournal_advance E j clk deadline w = (r, w')"
  shows "r \<noteq> Inl OnlineInvalidJournal \<and> r \<noteq> Inl OnlineUnreachable"
proof -
  have "checked_add (uptime_ms clk) (stream_close_delay_ms (proxy (oj_plan j))) \<noteq> None"
    using assms(2) by (simp add: checked_add_def)
  from act_postD [OF sound_advance [OF assms(1) this] assms(3)] show ?thesis
    by (auto simp: sound_error_def)
qed

theorem online_advance_refines_protocol_witness:
  "phase_follows (oj_phase (initial_journal sample_plan)) (oj_phase sample_opened_journal)"
  using online_advance_refines_protocol [OF sample_advance [where w = "()"]] by auto

theorem online_advance_never_stuck_witness:
  "fst (OnlineJournal_advance sample_env (initial_journal sample_plan)
      \<lparr>boot_id = ''boot'', uptime_ms = 1500\<rparr> 50 ()) \<noteq> Inl OnlineInvalidJournal"
proof -
  have "unat (uptime_ms \<lparr>boot_id = ''boot'', uptime_ms = 1500\<rparr>)
      + unat (stream_close_delay_ms (proxy (oj_plan (initial_journal sample_plan)))) < 2 ^ 64"
    by (simp add: initial_journal_def sample_plan_def)
  from online_advance_never_stuck [OF sample_journal_valid this sample_advance [where w = "()"]]
  show ?thesis by (simp add: sample_advance)
qed

text \<open>
  C18: every history of journals saved one after the other from an empty store has at most seven
  records; all of them are valid, carry the plan of the first and are numbered from zero, and the
  last revision is final.
\<close>

theorem online_history_bounded:
  assumes "linked OnlineJournal_follows None js"
  shows "length js \<le> 7
    \<and> (\<forall>i<length js. OnlineJournal_valid (js ! i) \<and> unat (oj_revision (js ! i)) = i
         \<and> oj_plan (js ! i) = oj_plan (js ! 0))
    \<and> (\<forall>j. length js = 7 \<longrightarrow> \<not> OnlineJournal_follows j (Some (js ! 6)))"
proof -
  have "unat (oj_revision (js ! 6)) = 6" if "length js = 7"
    using online.history(2) [OF assms, of 6] that by simp
  then have "\<not> OnlineJournal_follows j (Some (js ! 6))" if "length js = 7" for j
    using online.last_revision_final that by blast
  moreover have "length js \<le> 7" using online.history(1) [OF assms] by simp
  ultimately show ?thesis using online.history(2) [OF assms] by blast
qed

theorem online_history_bounded_witness:
  "oj_plan sample_opened_journal = oj_plan (initial_journal sample_plan)"
proof -
  have "OnlineJournal_follows (initial_journal sample_plan) None"
    using sample_journal_valid by (simp add: OnlineJournal_follows_def initial_journal_def)
  then have "linked OnlineJournal_follows None [initial_journal sample_plan, sample_opened_journal]"
    by (simp add: sample_opened_follows)
  from online_history_bounded [OF this] show ?thesis by auto
qed

text \<open>
  the proxy states a journal accepts never show live traffic on the candidate while the disk
  still names the previous release, and they never take traffic back: once a saved journal
  accepts live traffic on the candidate, its successor accepts nothing else.
\<close>

theorem online_proxy_forward_only:
  assumes "OnlineJournal_accepts_proxy j live disk"
    and "ps_slot live = as_slot (candidate_slot (oj_plan j))"
  shows "disk = as_slot (candidate_slot (oj_plan j))
    \<and> (\<forall>j' live' disk'. OnlineJournal_follows j' (Some j) \<longrightarrow> OnlineJournal_accepts_proxy j' live' disk' \<longrightarrow>
         ps_slot live' = as_slot (candidate_slot (oj_plan j)) \<and> disk' = as_slot (candidate_slot (oj_plan j)))"
proof -
  have neq: "as_slot (previous_slot (oj_plan j)) \<noteq> as_slot (candidate_slot (oj_plan j))"
    using assms(1) by (auto simp: OnlineJournal_accepts_proxy_def OnlineJournal_valid_def OnlinePlan_valid_def
        split: if_splits)
  then have here: "disk = as_slot (candidate_slot (oj_plan j))" "oj_phase j \<noteq> OpeningCandidate"
    using assms by (auto simp: OnlineJournal_accepts_proxy_def Let_def split: if_splits OnlinePhase.splits)
  moreover have "ps_slot live' = as_slot (candidate_slot (oj_plan j)) \<and> disk' = as_slot (candidate_slot (oj_plan j))"
    if "OnlineJournal_follows j' (Some j)" "OnlineJournal_accepts_proxy j' live' disk'" for j' live' disk'
  proof -
    have "oj_plan j' = oj_plan j" "oj_phase j' \<notin> {OpeningCandidate, SwitchingTraffic}"
      using that(1) here(2) by (auto simp: OnlineJournal_follows_def phase_follows_def)
    with that(2) show ?thesis
      by (auto simp: OnlineJournal_accepts_proxy_def Let_def split: if_splits OnlinePhase.splits)
  qed
  ultimately show ?thesis by blast
qed

theorem online_proxy_forward_only_witness:
  "OnlineJournal_accepts_proxy sample_opened_journal
      \<lparr>ps_slot = Green, configuration_sha256 = replicate 64 (CHR ''e''), stream_close_delay_ms = 900\<rparr> Green
    \<and> Green = as_slot (candidate_slot (oj_plan sample_opened_journal))"
proof -
  let ?live = "\<lparr>ps_slot = Green, configuration_sha256 = replicate 64 (CHR ''e''), stream_close_delay_ms = 900\<rparr>"
  have valid: "OnlineJournal_valid sample_opened_journal"
    using sample_opened_follows by (simp add: OnlineJournal_follows_def)
  have fields: "oj_plan sample_opened_journal = sample_plan" "oj_phase sample_opened_journal = SwitchingTraffic"
    by (simp_all add: sample_opened_journal_def initial_journal_def)
  have plan: "proxy sample_plan = \<lparr>ps_slot = Blue, configuration_sha256 = replicate 64 (CHR ''e''),
        stream_close_delay_ms = 900\<rparr>" "as_slot (candidate_slot sample_plan) = Green"
    by (simp_all add: sample_plan_def sample_active_slot_def)
  have "OnlineJournal_accepts_proxy sample_opened_journal ?live Green"
    by (simp add: OnlineJournal_accepts_proxy_def valid fields plan)
  moreover have "ps_slot ?live = as_slot (candidate_slot (oj_plan sample_opened_journal))"
    by (simp add: fields plan)
  ultimately show ?thesis using online_proxy_forward_only by blast
qed

end
