(* ===== verification/OnlineTrace.thy ===== *)
theory OnlineTrace
  imports Online
begin

text \<open>
  The order of calls of the forward cutover. \<open>traced_online\<close> is an environment with a log of every
  call and its answer; \<open>justified\<close> says which earlier answers of the same step, and which
  durable evidence, each command needs. The result covers every environment, so it holds whatever
  the runtimes, the proxy and the storage answer.
\<close>

section \<open>Events\<close>

datatype ('r, 'd) online_event =
    AssertCurrent OnlineJournal "('d, unit) result"
  | Save "OnlineJournal option" OnlineJournal "('d, unit) result"
  | Traffic "('d, RuntimeSnapshot) result"
  | SwitchTo RuntimeSnapshot "('d, unit) result"
  | RetireRunner OnlineJournal "('d, ProcessProgress) result"
  | Commit OnlineJournal "('d, unit) result"
  | CandidateStatus "('r, RuntimeSnapshot) result"
  | CandidateReady bool
  | OpenCandidate "('r, RuntimeSnapshot) result"
  | ClosePrevious RuntimeSnapshot "('r, RuntimeSnapshot) result"
  | PreviousEvent "('r, 'd) retirement_event"
  | OtherCall

abbreviation PreviousStatus :: "('r, RuntimeSnapshot) result \<Rightarrow> ('r, 'd) online_event" where
  "PreviousStatus r \<equiv> PreviousEvent (EvStatus r)"

abbreviation RetireControl ::
    "RuntimeSnapshot \<Rightarrow> ('r, RuntimeSnapshot) result \<Rightarrow> ('r, 'd) online_event" where
  "RetireControl d r \<equiv> PreviousEvent (EvRetire d r)"

abbreviation ObserveControl :: "('d, ProcessProgress) result \<Rightarrow> ('r, 'd) online_event" where
  "ObserveControl r \<equiv> PreviousEvent (EvObserve r)"

definition traced_previous ::
    "('w, 'r, 'permit) SlotRuntime \<Rightarrow> ('w \<times> ('r, 'd) online_event list, 'r, 'permit) SlotRuntime" where
  "traced_previous R =
     \<lparr>rt_status = (\<lambda>deadline. log_call PreviousStatus (rt_status R deadline)),
      rt_readiness = (\<lambda>s x deadline. log_call (\<lambda>_. OtherCall) (rt_readiness R s x deadline)),
      rt_open_admission = (\<lambda>permit deadline. log_call (\<lambda>_. OtherCall) (rt_open_admission R permit deadline)),
      rt_close_admission = (\<lambda>s deadline. log_call (ClosePrevious s) (rt_close_admission R s deadline)),
      rt_observe_drain = (\<lambda>s deadline. log_call (\<lambda>_. OtherCall) (rt_observe_drain R s deadline)),
      rt_retire_drained = (\<lambda>s deadline. log_call (RetireControl s) (rt_retire_drained R s deadline))\<rparr>"

definition traced_candidate ::
    "('w, 'r, 'permit) SlotRuntime \<Rightarrow> ('w \<times> ('r, 'd) online_event list, 'r, 'permit) SlotRuntime" where
  "traced_candidate R =
     \<lparr>rt_status = (\<lambda>deadline. log_call CandidateStatus (rt_status R deadline)),
      rt_readiness = (\<lambda>s x deadline. log_call (\<lambda>r. CandidateReady (is_ok r)) (rt_readiness R s x deadline)),
      rt_open_admission = (\<lambda>permit deadline. log_call OpenCandidate (rt_open_admission R permit deadline)),
      rt_close_admission = (\<lambda>s deadline. log_call (\<lambda>_. OtherCall) (rt_close_admission R s deadline)),
      rt_observe_drain = (\<lambda>s deadline. log_call (\<lambda>_. OtherCall) (rt_observe_drain R s deadline)),
      rt_retire_drained = (\<lambda>s deadline. log_call (\<lambda>_. OtherCall) (rt_retire_drained R s deadline))\<rparr>"

definition traced_deployment ::
    "('w, 'd) OnlineDeployment \<Rightarrow> ('w \<times> ('r, 'd) online_event list, 'd) OnlineDeployment" where
  "traced_deployment D =
     \<lparr>dp_load = log_call (\<lambda>_. OtherCall) (dp_load D),
      dp_assert_current = (\<lambda>j. log_call (AssertCurrent j) (dp_assert_current D j)),
      dp_save = (\<lambda>p n. log_call (Save p n) (dp_save D p n)),
      dp_traffic = (\<lambda>deadline. log_call Traffic (dp_traffic D deadline)),
      dp_switch_to = (\<lambda>s deadline. log_call (SwitchTo s) (dp_switch_to D s deadline)),
      dp_observe_control = (\<lambda>s deadline. log_call ObserveControl (dp_observe_control D s deadline)),
      dp_retire = (\<lambda>j deadline. log_call (RetireRunner j) (dp_retire D j deadline)),
      dp_commit = (\<lambda>j deadline. log_call (Commit j) (dp_commit D j deadline))\<rparr>"

definition traced_online ::
    "('w, 'r, 'd, 'permit) online_env \<Rightarrow> ('w \<times> ('r, 'd) online_event list, 'r, 'd, 'permit) online_env" where
  "traced_online E =
     \<lparr>on_now = silent_now (on_now E), on_previous = traced_previous (on_previous E),
      on_candidate = traced_candidate (on_candidate E), on_deployment = traced_deployment (on_deployment E)\<rparr>"

lemma traced_online_calls [simp]:
  "on_now (traced_online E) = silent_now (on_now E)"
  "rt_status (on_previous (traced_online E)) deadline = log_call PreviousStatus (rt_status (on_previous E) deadline)"
  "rt_close_admission (on_previous (traced_online E)) s deadline
     = log_call (ClosePrevious s) (rt_close_admission (on_previous E) s deadline)"
  "rt_status (on_candidate (traced_online E)) deadline = log_call CandidateStatus (rt_status (on_candidate E) deadline)"
  "rt_readiness (on_candidate (traced_online E)) s x deadline
     = log_call (\<lambda>r. CandidateReady (is_ok r)) (rt_readiness (on_candidate E) s x deadline)"
  "rt_open_admission (on_candidate (traced_online E)) permit deadline
     = log_call OpenCandidate (rt_open_admission (on_candidate E) permit deadline)"
  "dp_assert_current (on_deployment (traced_online E)) j
     = log_call (AssertCurrent j) (dp_assert_current (on_deployment E) j)"
  "dp_save (on_deployment (traced_online E)) p n = log_call (Save p n) (dp_save (on_deployment E) p n)"
  "dp_traffic (on_deployment (traced_online E)) deadline = log_call Traffic (dp_traffic (on_deployment E) deadline)"
  "dp_switch_to (on_deployment (traced_online E)) s deadline
     = log_call (SwitchTo s) (dp_switch_to (on_deployment E) s deadline)"
  "dp_retire (on_deployment (traced_online E)) j deadline
     = log_call (RetireRunner j) (dp_retire (on_deployment E) j deadline)"
  "dp_commit (on_deployment (traced_online E)) j deadline
     = log_call (Commit j) (dp_commit (on_deployment E) j deadline)"
  by (simp_all add: traced_online_def traced_previous_def traced_candidate_def traced_deployment_def)

section \<open>What a command needs\<close>

definition previous_serves :: "OnlineJournal \<Rightarrow> ('r, 'd) online_event list \<Rightarrow> bool" where
  "previous_serves j before \<longleftrightarrow>
     (\<exists>t. Traffic (Inr t) \<in> set before \<and> same_process t (previous_process (oj_plan j)))
     \<and> (\<exists>old. PreviousStatus (Inr old) \<in> set before \<and> unchanged_admission old (previous_process (oj_plan j)))"

definition candidate_serves :: "OnlineJournal \<Rightarrow> ('r, 'd) online_event list \<Rightarrow> bool" where
  "candidate_serves j before \<longleftrightarrow>
     (\<exists>t. Traffic (Inr t) \<in> set before \<and> same_process t (candidate_process (oj_plan j)))
     \<and> (\<exists>s. CandidateStatus (Inr s) \<in> set before \<and> changed_admission s (candidate_process (oj_plan j)) True)"

fun justified :: "OnlineJournal \<Rightarrow> u64 \<Rightarrow> ('r, 'd) online_event list \<Rightarrow> ('r, 'd) online_event \<Rightarrow> bool" where
  "justified j now before (Save p n r) \<longleftrightarrow> p = Some j \<and> OnlineJournal_follows n (Some j)"
| "justified j now before (OpenCandidate r) \<longleftrightarrow> oj_phase j = OpeningCandidate
     \<and> previous_serves j before \<and> CandidateReady True \<in> set before"
| "justified j now before (SwitchTo s r) \<longleftrightarrow> oj_phase j = SwitchingTraffic
     \<and> window_open j now \<and> previous_serves j before
     \<and> CandidateStatus (Inr s) \<in> set before \<and> changed_admission s (candidate_process (oj_plan j)) True
     \<and> CandidateReady True \<in> set before"
| "justified j now before (ClosePrevious old r) \<longleftrightarrow> oj_phase j = ClosingPrevious
     \<and> window_open j now \<and> candidate_serves j before
     \<and> PreviousStatus (Inr old) \<in> set before \<and> unchanged_admission old (previous_process (oj_plan j))"
| "justified j now before (PreviousEvent (EvRetire d r)) \<longleftrightarrow> oj_phase j = RetiringPrevious
     \<and> candidate_serves j before \<and> CandidateReady True \<in> set before
     \<and> drained j = Some d \<and> ObserveControl (Inr Running) \<in> set before
     \<and> (\<exists>st. PreviousStatus (Inr st) \<in> set before \<and> observes_drain st d \<and> in_flight (lifecycle st) = 0)"
| "justified j now before (RetireRunner j' r) \<longleftrightarrow> j' = j \<and> oj_phase j = RetiringPrevious
     \<and> candidate_serves j before \<and> before \<noteq> [] \<and> last before = ObserveControl (Inr Exited)"
| "justified j now before (Commit j' r) \<longleftrightarrow> j' = j \<and> oj_phase j = Committing
     \<and> candidate_serves j before \<and> drained_ok j"
| "justified j now before _ \<longleftrightarrow> True"

text \<open>Nothing happens after a save, and nothing but the check itself before the journal was checked.\<close>

definition in_order :: "OnlineJournal \<Rightarrow> u64 \<Rightarrow> ('r, 'd) online_event list \<Rightarrow> ('r, 'd) online_event \<Rightarrow> bool" where
  "in_order j now before ev \<longleftrightarrow> justified j now before ev
     \<and> (\<forall>p n r. Save p n r \<notin> set before)
     \<and> (if before = [] then \<exists>r. ev = AssertCurrent j r else hd before = AssertCurrent j (Inr ()))"

fun log_in_order :: "OnlineJournal \<Rightarrow> u64 \<Rightarrow> ('r, 'd) online_event list \<Rightarrow> ('r, 'd) online_event list \<Rightarrow> bool" where
  "log_in_order j now before [] = True"
| "log_in_order j now before (ev # evs) = (in_order j now before ev \<and> log_in_order j now (before @ [ev]) evs)"

lemma log_in_order_append:
  "log_in_order j now before (xs @ ys) \<longleftrightarrow> log_in_order j now before xs \<and> log_in_order j now (before @ xs) ys"
  by (induction xs arbitrary: before) auto

lemma log_in_order_split:
  "log_in_order j now before evs \<Longrightarrow> evs = xs @ ev # ys \<Longrightarrow> in_order j now (before @ xs) ev"
  by (simp add: log_in_order_append)

section \<open>Steps log in order\<close>

definition started_log :: "OnlineJournal \<Rightarrow> ('r, 'd) online_event list \<Rightarrow> bool" where
  "started_log j before \<longleftrightarrow> before \<noteq> [] \<and> hd before = AssertCurrent j (Inr ())
     \<and> (\<forall>p n r. Save p n r \<notin> set before)"

lemma started_append [simp]:
  "started_log j before \<Longrightarrow> started_log j (before @ evs) \<longleftrightarrow> (\<forall>p n r. Save p n r \<notin> set evs)"
  by (auto simp: started_log_def)

lemma in_order_started: "started_log j before \<Longrightarrow> in_order j now before ev \<longleftrightarrow> justified j now before ev"
  by (auto simp: in_order_def started_log_def)

lemma serves_append:
  "previous_serves j before \<Longrightarrow> previous_serves j (before @ evs)"
  "candidate_serves j before \<Longrightarrow> candidate_serves j (before @ evs)"
  by (auto simp: previous_serves_def candidate_serves_def)

lemma logs_checkpoint:
  assumes "\<And>e. Q [] (Inl e)"
    and "\<And>n r x. OnlineJournal_follows n (Some j) \<Longrightarrow> Q [Save (Some j) n r] x"
  shows "act_logs (checkpoint (traced_online E) j phase update) Q"
  unfolding checkpoint_def Let_def
  using assms by (auto intro!: log_intros)

lemma logs_cutover:
  assumes "OnlineJournal_valid j" and "cutover_started_at_ms j \<noteq> None"
    and "\<And>e. Q [] (Inl e)" and "\<And>t. window_open j now_ms \<Longrightarrow> Q [] (Inr t)"
  shows "act_logs (cutover_deadline (traced_online E) j now_ms started d) Q"
proof -
  let ?m = "cutover_deadline (traced_online E) j now_ms started d"
  have silent: "act_logs ?m (\<lambda>evs r. evs = [])"
    unfolding cutover_deadline_def by (auto intro!: log_intros)
  show ?thesis
    unfolding act_logs_def
  proof (intro allI)
    fix w log
    obtain w' where "snd (?m (w, log)) = (w', log @ [])"
      using silent unfolding act_logs_def by blast
    moreover have "\<forall>t. fst (?m (w, log)) = Inr t \<longrightarrow> window_open j now_ms"
      using post_cutover_deadline [OF assms(1,2), of "traced_online E" now_ms started d]
      unfolding act_post_def by blast
    then have "Q [] (fst (?m (w, log)))" using assms(3,4) by (cases "fst (?m (w, log))") auto
    ultimately show "\<exists>evs w'. snd (?m (w, log)) = (w', log @ evs) \<and> Q evs (fst (?m (w, log)))"
      by blast
  qed
qed

lemmas trace_simps = in_order_started result_simps previous_serves_def candidate_serves_def

lemma logs_opening:
  assumes "started_log j before" and "oj_phase j = OpeningCandidate"
    and "is_prev \<longrightarrow> (\<exists>t. Traffic (Inr t) \<in> set before \<and> same_process t (previous_process (oj_plan j)))"
  shows "act_logs (advance_opening (traced_online E) j now d is_prev st) (\<lambda>evs r. log_in_order j now before evs)"
  unfolding advance_opening_def
  using assms by (auto intro!: log_intros logs_checkpoint simp: trace_simps)

lemma logs_switching:
  assumes "started_log j before" and "oj_phase j = SwitchingTraffic" and "window_open j now"
    and "is_prev \<longrightarrow> (\<exists>t. Traffic (Inr t) \<in> set before \<and> same_process t (previous_process (oj_plan j)))"
    and "CandidateStatus (Inr st) \<in> set before" "changed_admission st (candidate_process (oj_plan j)) True"
  shows "act_logs (advance_switching (traced_online E) j now d is_prev st) (\<lambda>evs r. log_in_order j now before evs)"
  unfolding advance_switching_def
  using assms by (auto intro!: log_intros logs_checkpoint simp: trace_simps)

lemma logs_closing:
  assumes "started_log j before" and "OnlineJournal_valid j" and "oj_phase j = ClosingPrevious"
    and "candidate_serves j before"
  shows "act_logs (advance_closing (traced_online E) j now started d) (\<lambda>evs r. log_in_order j now before evs)"
proof -
  have cut: "cutover_started_at_ms j \<noteq> None" using cutover_saved [OF assms(2)] assms(3) by simp
  show ?thesis
    unfolding advance_closing_def
    using assms by (auto intro!: log_intros logs_checkpoint logs_cutover [OF assms(2) cut]
        simp: in_order_started result_simps serves_append)
qed

lemma logs_draining:
  assumes "started_log j before"
  shows "act_logs (advance_draining (traced_online E) j now started d) (\<lambda>evs r. log_in_order j now before evs)"
  unfolding advance_draining_def
  using assms by (auto intro!: log_intros logs_checkpoint simp: trace_simps)

lemma logs_committing:
  assumes "started_log j before" and "OnlineJournal_valid j" and "oj_phase j = Committing"
    and "candidate_serves j before"
  shows "act_logs (advance_committing (traced_online E) j d) (\<lambda>evs r. log_in_order j now before evs)"
proof -
  have "drained_ok j" using assms(2,3) by (simp add: OnlineJournal_valid_def)
  then show ?thesis
    unfolding advance_committing_def
    using assms by (auto intro!: log_intros logs_checkpoint simp: in_order_started result_simps serves_append)
qed

text \<open>The retirement step inside an online step logs the same events under another name.\<close>

lemma retire_control_relabel:
  "act_maps (relabel_log before PreviousEvent) (retire_control (traced_retirement (DeploymentProcess E)) d deadline)
     (retire_control (DeploymentProcess (traced_online E)) d deadline)"
proof -
  let ?h = "relabel_log before PreviousEvent"
  let ?T = "traced_retirement (DeploymentProcess E)" and ?O = "DeploymentProcess (traced_online E)"
  have now: "act_maps ?h (act_now (ret_now ?T)) (act_now (ret_now ?O))"
    by (simp add: DeploymentProcess_def relabel_now)
  have calls: "act_maps ?h (ret_status ?T x) (ret_status ?O x)"
      "act_maps ?h (ret_retire_drained ?T s x) (ret_retire_drained ?O s x)"
      "act_maps ?h (ret_observe_control ?T s x) (ret_observe_control ?O s x)" for s x
    by (simp_all add: DeploymentProcess_def traced_online_def traced_previous_def traced_deployment_def
        relabel_call)
  have deadline: "act_maps ?h (check_deadline ?T x) (check_deadline ?O x)" for x
    unfolding check_deadline_def by (intro maps_intros now)
  have obs: "act_maps ?h (observe ?T s x) (observe ?O s x)" for s x
    unfolding observe_def by (intro maps_intros calls deadline)
  have fin: "act_maps ?h (final_observation ?T s x) (final_observation ?O s x)" for s x
    unfolding final_observation_def by (intro maps_intros obs)
  have rec: "act_maps ?h (or_reconcile ?T s x m k) (or_reconcile ?O s x m' k')"
    if "act_maps ?h m m'" "\<And>a. act_maps ?h (k a) (k' a)" for s x m m' k k'
    unfolding or_reconcile_def
    by (intro maps_intros that(1)) (auto intro!: maps_intros obs that(2) split: sum.split)
  have run: "act_maps ?h (retire_running ?T s x) (retire_running ?O s x)" for s x
    unfolding retire_running_def by (intro rec maps_intros calls deadline fin)
  show ?thesis
    unfolding retire_control_def
    by (intro maps_intros obs) (auto intro!: maps_intros run split: ProcessProgress.split)
qed

lemma logs_retire_control_online:
  "act_logs (retire_control (DeploymentProcess (traced_online E)) d deadline)
     (\<lambda>evs r. \<exists>l. evs = map PreviousEvent l \<and> retirement_log_ok d l r)"
  by (rule relabel_logs [OF retire_control_relabel logs_retire_control])

lemma retirement_log_in_order:
  assumes "started_log j before" and "oj_phase j = RetiringPrevious" and "drained j = Some d"
    and "candidate_serves j before" and "CandidateReady True \<in> set before"
    and "retirement_log_ok d l r"
  shows "log_in_order j now before (map PreviousEvent l)"
proof -
  have plain: "log_in_order j now b (map PreviousEvent xs)"
    if "started_log j b" "\<forall>x y. EvRetire x y \<notin> set xs" for b and xs :: "('a, 'b) retirement_event list"
    using that
  proof (induction xs arbitrary: b)
    case (Cons ev xs)
    then show ?case by (cases ev) (auto simp: in_order_started)
  qed simp
  show ?thesis
  proof (cases "\<exists>x y. EvRetire x y \<in> set l")
    case False
    with assms(1) show ?thesis by (intro plain) auto
  next
    case True
    then obtain st y rest where l: "l = [EvObserve (Inr Running), EvStatus (Inr st), EvRetire d y] @ rest"
        and st: "observes_drain st d" "in_flight (lifecycle st) = 0"
      using retirement_log_retire [OF assms(6)] by blast
    have "\<forall>x z. EvRetire x z \<notin> set rest"
      using assms(6) l by (auto simp: filter_empty_conv)
    then show ?thesis
      using assms(1-5) st by (auto simp: l in_order_started serves_append intro!: plain)
  qed
qed

lemma logs_retiring:
  assumes "started_log j before" and "oj_phase j = RetiringPrevious" and "candidate_serves j before"
  shows "act_logs (advance_retiring (traced_online E) j deadline st) (\<lambda>evs r. log_in_order j now before evs)"
proof -
  have retire: "act_logs (retire_control (DeploymentProcess (traced_online E)) d deadline)
      (\<lambda>evs r. log_in_order j now b evs \<and> started_log j (b @ evs)
         \<and> (r = Inr RetirementExited \<longrightarrow> evs \<noteq> [] \<and> last evs = ObserveControl (Inr Exited)))"
    if "started_log j b" "drained j = Some d" "candidate_serves j b" "CandidateReady True \<in> set b" for b d
    using that assms(2)
    by (intro act_logs_mono [OF logs_retire_control_online])
       (auto simp: last_map simp del: retirement_log_ok.simps dest: retirement_log_exited
         intro: retirement_log_in_order)
  have rest: "act_logs (retire_previous (traced_online E) j deadline d) (\<lambda>evs r. log_in_order j now b evs)"
    if "started_log j b" "drained j = Some d" "candidate_serves j b" "CandidateReady True \<in> set b" for b d
    unfolding retire_previous_def using assms(2) that
    by (intro act_logs_bind' act_logs_map_err act_logs_mono [OF retire [OF that]])
       (auto intro!: log_intros logs_checkpoint
         simp: in_order_started result_simps serves_append log_in_order_append not_waiting)
  show ?thesis
    unfolding advance_retiring_def
    using assms rest [of "before @ [CandidateReady True]"]
    by (auto intro!: act_logs_bind' act_logs_lift act_logs_call act_logs_map_err
        simp: in_order_started result_simps serves_append)
qed

lemma logs_phase:
  assumes "started_log j before" and "OnlineJournal_valid j"
    and "oj_phase j = SwitchingTraffic \<Longrightarrow> window_open j now"
    and "is_prev \<Longrightarrow> \<exists>t. Traffic (Inr t) \<in> set before \<and> same_process t (previous_process (oj_plan j))"
    and "oj_phase j \<noteq> OpeningCandidate \<Longrightarrow> oj_phase j \<noteq> SwitchingTraffic \<Longrightarrow> candidate_serves j before"
    and "oj_phase j \<noteq> OpeningCandidate \<Longrightarrow>
      CandidateStatus (Inr s) \<in> set before \<and> changed_admission s (candidate_process (oj_plan j)) True"
  shows "act_logs (advance_phase (traced_online E) j now started d is_prev s)
    (\<lambda>evs r. log_in_order j now before evs)"
  unfolding advance_phase_def
  using assms
  by (auto intro!: logs_opening logs_switching logs_closing logs_draining logs_retiring
      logs_committing act_logs_fail split: OnlinePhase.split)

lemma logs_observed:
  assumes "started_log j before" and "OnlineJournal_valid j"
    and "oj_phase j = SwitchingTraffic \<Longrightarrow> window_open j now"
  shows "act_logs (advance_observed (traced_online E) j now started d) (\<lambda>evs r. log_in_order j now before evs)"
  unfolding advance_observed_def Let_def
  using assms
  by (auto intro!: act_logs_bind' act_logs_map_err act_logs_call act_logs_guard logs_phase
      simp: in_order_started result_simps candidate_serves_def; blast)

lemma logs_advance:
  "act_logs (OnlineJournal_advance (traced_online E) j clk deadline)
     (\<lambda>evs r. log_in_order j (uptime_ms clk) [] evs)"
proof -
  have started: "started_log j [AssertCurrent j (Inr ())]" by (simp add: started_log_def)
  have first: "in_order j now [] (AssertCurrent j r)" for now and r :: "('c, unit) result"
    by (simp add: in_order_def)
  have cut: "\<exists>c. cutover_started_at_ms j = Some c" if "OnlineJournal_valid j" "oj_phase j = SwitchingTraffic"
    using cutover_saved [OF that(1)] that(2) by simp
  show ?thesis
    unfolding OnlineJournal_advance_def Let_def
    by (auto intro!: log_intros logs_observed logs_cutover simp: first started result_simps cut)
qed

text \<open>
  C2: in one step of the cutover, whatever the environment answers, the durable journal is
  checked before anything else and a save is the last call. The candidate is opened and traffic
  switched only while the previous process serves unchanged and the candidate passed readiness
  in the same step, the switch only while the drain budget still fits before the proxy closes
  old streams; the previous process is closed only once traffic is on the open candidate; its
  Control is retired only for the journal's drained snapshot, after it was observed running,
  closed at that revision and with nothing in flight; its Runner only right after the exit of
  Control was proved; the release is committed only with that evidence saved.
\<close>

theorem online_commands_justified:
  assumes "OnlineJournal_advance (traced_online E) j clk deadline (w, []) = (r, (w', log))"
    and "log = earlier @ ev # later"
  shows "justified j (uptime_ms clk) earlier ev
    \<and> (\<forall>p n x. Save p n x \<notin> set earlier)
    \<and> (if earlier = [] then \<exists>x. ev = AssertCurrent j x else hd earlier = AssertCurrent j (Inr ()))"
  using log_in_order_split [OF act_logsD [OF logs_advance assms(1)] assms(2)]
  by (simp add: in_order_def)

lemma sample_traced_advance:
  "OnlineJournal_advance (traced_online sample_env) (initial_journal sample_plan)
      \<lparr>boot_id = ''boot'', uptime_ms = 1500\<rparr> 50 (w, [])
    = (Inr (Advanced SwitchingTraffic, sample_opened_journal), (w,
       [AssertCurrent (initial_journal sample_plan) (Inr ()), Traffic (Inr (sample_runtime Blue True False 3 2)),
        CandidateStatus (Inr (sample_runtime Green False False 0 0)),
        PreviousStatus (Inr (sample_runtime Blue True False 3 2)), CandidateReady True]
       @ OpenCandidate (Inr (sample_runtime Green True False 1 0))
       # [Save (Some (initial_journal sample_plan)) sample_opened_journal (Inr ())]))"
  using sample_opened_follows unfolding sample_opened_journal_def
  by (simp add: sample_step_simps checked_add_def silent_now_def log_call_def)

theorem online_commands_justified_witness:
  "previous_serves (initial_journal sample_plan)
     [AssertCurrent (initial_journal sample_plan) (Inr ()), Traffic (Inr (sample_runtime Blue True False 3 2)),
      CandidateStatus (Inr (sample_runtime Green False False 0 0)),
      PreviousStatus (Inr (sample_runtime Blue True False 3 2)), CandidateReady True :: (unit, unit) online_event]"
  using online_commands_justified [OF sample_traced_advance [where w = "()"] refl] by simp

end
