(* ===== verification/Switchback.thy ===== *)
theory Switchback
  imports Online
begin

text \<open>
  Reverse routing (\<open>upgrade-core/src/online/switchback.rs\<close>): a separate durable operation bound to
  a frozen forward journal that puts traffic back on the previous release and retires the
  candidate. Plan, journal, succession, proxy acceptance and the step follow the code; the
  environment and the journal returned by the step are as in the forward cutover.
\<close>

section \<open>Plan\<close>

record SwitchbackPlan =
  sp_original :: OnlineJournal
  sp_previous :: RuntimeSnapshot
  sp_candidate :: RuntimeSnapshot
  sp_candidate_budget :: RuntimeRequestBudget
  sp_proxy :: ProxySnapshot
  sp_clock :: UpgradeClock

definition SwitchbackPlan_valid :: "SwitchbackPlan \<Rightarrow> bool" where
  "SwitchbackPlan_valid p \<longleftrightarrow>
     (let original = sp_original p in
      OnlineJournal_valid original
      \<and> oj_phase original \<in> {SwitchingTraffic, ClosingPrevious, DrainingPrevious, DrainBudgetExhausted}
      \<and> is_some_and (opened original) (\<lambda>v. unchanged_admission (sp_candidate p) v)
      \<and> (case closed original of
           None \<Rightarrow> unchanged_admission (sp_previous p) (previous_process (oj_plan original))
             \<or> changed_admission (sp_previous p) (previous_process (oj_plan original)) False
         | Some c \<Rightarrow> unchanged_admission (sp_previous p) c)
      \<and> revision (lifecycle (sp_previous p)) < - 1 - 1
      \<and> revision (lifecycle (sp_candidate p)) < - 1 - 1
      \<and> RuntimeRequestBudget_valid_for (sp_candidate_budget p) (sp_candidate p)
      \<and> ps_slot (sp_proxy p) = as_slot (candidate_slot (oj_plan original))
      \<and> configuration_sha256 (sp_proxy p) = configuration_sha256 (proxy (oj_plan original))
      \<and> stream_close_delay_ms (sp_proxy p) = stream_close_delay_ms (proxy (oj_plan original))
      \<and> request_budget_ms (sp_candidate_budget p) < stream_close_delay_ms (sp_proxy p)
      \<and> boot_id (sp_clock p) = boot_id (plan_clock (oj_plan original))
      \<and> uptime_ms (plan_clock (oj_plan original)) \<le> uptime_ms (sp_clock p)
      \<and> is_none_or (cutover_started_at_ms original) (\<lambda>start. start \<le> uptime_ms (sp_clock p))
      \<and> is_none_or (drain_started_at_ms original) (\<lambda>start. start \<le> uptime_ms (sp_clock p))
      \<and> checked_add (uptime_ms (sp_clock p)) (stream_close_delay_ms (sp_proxy p)) \<noteq> None)"

definition previous_readiness :: "SwitchbackPlan \<Rightarrow> ReadinessExpectation" where
  "previous_readiness p =
     (let runner = as_local_runner (previous_slot (oj_plan (sp_original p))) in
      \<lparr>re_manifest_sha256 = (case runner of None \<Rightarrow> [] | Some r \<Rightarrow> ar_manifest_sha256 r),
       re_models = re_models (readiness (oj_plan (sp_original p))),
       re_runner_ids = (case runner of None \<Rightarrow> [] | Some r \<Rightarrow> [ar_runner_id r])\<rparr>)"

section \<open>Journal\<close>

datatype SwitchbackPhase =
    PreparingPrevious
  | SwitchingBack
  | ClosingCandidate
  | DrainingCandidate
  | RetiringCandidate
  | CommittingPrevious
  | SwitchbackComplete
  | SwitchbackDrainBudgetExhausted

fun SwitchbackPhase_revision :: "SwitchbackPhase \<Rightarrow> u64" where
  "SwitchbackPhase_revision PreparingPrevious = 0"
| "SwitchbackPhase_revision SwitchingBack = 1"
| "SwitchbackPhase_revision ClosingCandidate = 2"
| "SwitchbackPhase_revision DrainingCandidate = 3"
| "SwitchbackPhase_revision RetiringCandidate = 4"
| "SwitchbackPhase_revision SwitchbackDrainBudgetExhausted = 4"
| "SwitchbackPhase_revision CommittingPrevious = 5"
| "SwitchbackPhase_revision SwitchbackComplete = 6"

record SwitchbackJournal =
  sj_schema :: string
  sj_revision :: u64
  sj_plan :: SwitchbackPlan
  sj_phase :: SwitchbackPhase
  sj_opened :: "RuntimeSnapshot option"
  sj_closed :: "RuntimeSnapshot option"
  sj_drained :: "RuntimeSnapshot option"
  switch_started_ms :: "u64 option"
  drain_started_ms :: "u64 option"

datatype SwitchbackProgress =
    SwitchbackAdvanced SwitchbackPhase
  | SwitchbackDraining usize u64
  | SwitchbackRetiring
  | ProgressSwitchbackExhausted
  | ProgressSwitchbackComplete

definition SWITCHBACK_SCHEMA :: string where
  "SWITCHBACK_SCHEMA = ''aster.online-switchback.v1''"

definition sj_opened_ok :: "SwitchbackJournal \<Rightarrow> bool" where
  "sj_opened_ok j = is_some_and (sj_opened j) (\<lambda>v.
     if accepting (lifecycle (sp_previous (sj_plan j)))
     then unchanged_admission v (sp_previous (sj_plan j))
     else changed_admission v (sp_previous (sj_plan j)) True)"

definition sj_switch_ok :: "SwitchbackJournal \<Rightarrow> bool" where
  "sj_switch_ok j = is_some_and (switch_started_ms j) (\<lambda>start.
     uptime_ms (sp_clock (sj_plan j)) \<le> start
     \<and> checked_add start (stream_close_delay_ms (sp_proxy (sj_plan j))) \<noteq> None)"

definition sj_drain_ok :: "SwitchbackJournal \<Rightarrow> bool" where
  "sj_drain_ok j = is_some_and (drain_started_ms j) (\<lambda>start.
     is_some_and (switch_started_ms j) (\<lambda>switch. switch \<le> start
       \<and> is_some_and (checked_add start (request_budget_ms (sp_candidate_budget (sj_plan j)))) (\<lambda>fin.
           is_some_and (checked_add switch (stream_close_delay_ms (sp_proxy (sj_plan j)))) (\<lambda>limit. fin \<le> limit))))"

definition sj_closed_ok :: "SwitchbackJournal \<Rightarrow> bool" where
  "sj_closed_ok j = is_some_and (sj_closed j) (\<lambda>v. changed_admission v (sp_candidate (sj_plan j)) False)"

definition sj_drained_ok :: "SwitchbackJournal \<Rightarrow> bool" where
  "sj_drained_ok j = is_some_and (sj_drained j) (\<lambda>v. in_flight (lifecycle v) = 0
     \<and> is_some_and (sj_closed j) (\<lambda>c. observes_drain v c))"

definition SwitchbackJournal_valid :: "SwitchbackJournal \<Rightarrow> bool" where
  "SwitchbackJournal_valid j \<longleftrightarrow>
     sj_schema j = SWITCHBACK_SCHEMA \<and> SwitchbackPlan_valid (sj_plan j)
     \<and> sj_revision j = SwitchbackPhase_revision (sj_phase j)
     \<and> (case sj_phase j of
          PreparingPrevious \<Rightarrow> sj_opened j = None \<and> sj_closed j = None \<and> sj_drained j = None
            \<and> switch_started_ms j = None \<and> drain_started_ms j = None
        | SwitchingBack \<Rightarrow> sj_opened_ok j \<and> sj_switch_ok j \<and> sj_closed j = None \<and> sj_drained j = None
            \<and> drain_started_ms j = None
        | ClosingCandidate \<Rightarrow> sj_opened_ok j \<and> sj_switch_ok j \<and> sj_drain_ok j \<and> sj_closed j = None
            \<and> sj_drained j = None
        | DrainingCandidate \<Rightarrow> sj_opened_ok j \<and> sj_switch_ok j \<and> sj_drain_ok j \<and> sj_closed_ok j
            \<and> sj_drained j = None
        | SwitchbackDrainBudgetExhausted \<Rightarrow> sj_opened_ok j \<and> sj_switch_ok j \<and> sj_drain_ok j
            \<and> sj_closed_ok j \<and> sj_drained j = None
        | _ \<Rightarrow> sj_opened_ok j \<and> sj_switch_ok j \<and> sj_drain_ok j \<and> sj_closed_ok j \<and> sj_drained_ok j)"

definition SwitchbackJournal_follows :: "SwitchbackJournal \<Rightarrow> SwitchbackJournal option \<Rightarrow> bool" where
  "SwitchbackJournal_follows j prev \<longleftrightarrow> SwitchbackJournal_valid j
     \<and> (case prev of
          None \<Rightarrow> sj_revision j = 0
        | Some p \<Rightarrow> SwitchbackJournal_valid p \<and> sj_plan j = sj_plan p
            \<and> checked_add (sj_revision p) 1 = Some (sj_revision j)
            \<and> \<not> (sj_phase p = SwitchbackComplete \<or> sj_phase p = SwitchbackDrainBudgetExhausted)
            \<and> is_none_or (sj_opened p) (\<lambda>v. sj_opened j = Some v)
            \<and> is_none_or (sj_closed p) (\<lambda>v. sj_closed j = Some v)
            \<and> is_none_or (sj_drained p) (\<lambda>v. sj_drained j = Some v)
            \<and> is_none_or (switch_started_ms p) (\<lambda>v. switch_started_ms j = Some v)
            \<and> is_none_or (drain_started_ms p) (\<lambda>v. drain_started_ms j = Some v))"

definition SwitchbackJournal_accepts_proxy :: "SwitchbackJournal \<Rightarrow> ProxySnapshot \<Rightarrow> ReleaseSlot \<Rightarrow> bool" where
  "SwitchbackJournal_accepts_proxy j live disk =
     (if \<not> SwitchbackJournal_valid j
         \<or> configuration_sha256 live \<noteq> configuration_sha256 (sp_proxy (sj_plan j))
         \<or> stream_close_delay_ms live \<noteq> stream_close_delay_ms (sp_proxy (sj_plan j))
      then False
      else
        let old = rs_slot (sp_previous (sj_plan j)); new = rs_slot (sp_candidate (sj_plan j)) in
        case sj_phase j of
          PreparingPrevious \<Rightarrow> ps_slot live = new \<and> disk = new
        | SwitchingBack \<Rightarrow> (ps_slot live = new \<and> (disk = new \<or> disk = old))
            \<or> (ps_slot live = old \<and> disk = old)
        | _ \<Rightarrow> ps_slot live = old \<and> disk = old)"

section \<open>Environment\<close>

text \<open>The traits \<open>SwitchbackJournalStorage\<close> and \<open>SwitchbackDeployment\<close>.\<close>

record ('w, 'd) SwitchbackDeployment =
  sd_load :: "('w, 'd, SwitchbackJournal option) act"
  sd_assert_current :: "SwitchbackJournal \<Rightarrow> ('w, 'd, unit) act"
  sd_save :: "SwitchbackJournal option \<Rightarrow> SwitchbackJournal \<Rightarrow> ('w, 'd, unit) act"
  sd_observe_control :: "RuntimeSnapshot \<Rightarrow> instant \<Rightarrow> ('w, 'd, ProcessProgress) act"
  sd_traffic :: "SwitchbackJournal \<Rightarrow> instant \<Rightarrow> ('w, 'd, ReleaseSlot) act"
  sd_switch_back :: "SwitchbackJournal \<Rightarrow> instant \<Rightarrow> ('w, 'd, unit) act"
  sd_retire_candidate_runner :: "SwitchbackJournal \<Rightarrow> instant \<Rightarrow> ('w, 'd, ProcessProgress) act"
  sd_commit_previous :: "SwitchbackJournal \<Rightarrow> instant \<Rightarrow> ('w, 'd, unit) act"

record ('w, 'r, 'd, 'permit) switchback_env =
  sw_now :: "'w \<Rightarrow> instant \<times> 'w"
  sw_previous :: "('w, 'r, 'permit) SlotRuntime"
  sw_candidate :: "('w, 'r, 'permit) SlotRuntime"
  sw_deployment :: "('w, 'd) SwitchbackDeployment"

type_synonym ('w, 'r, 'd) switchback_step =
  "('w, ('r, 'd) OnlineError, SwitchbackProgress \<times> SwitchbackJournal) act"

definition SwitchbackProcess ::
    "('w, 'r, 'd, 'permit) switchback_env \<Rightarrow> ('w, 'r, 'd) retirement_env" where
  "SwitchbackProcess E =
     \<lparr>ret_now = sw_now E, ret_status = rt_status (sw_candidate E),
      ret_retire_drained = rt_retire_drained (sw_candidate E),
      ret_observe_control = sd_observe_control (sw_deployment E)\<rparr>"

section \<open>Steps\<close>

definition sw_before ::
    "('w, 'r, 'd, 'permit) switchback_env \<Rightarrow> instant \<Rightarrow> ('w, ('r, 'd) OnlineError, unit) act" where
  "sw_before E deadline = act_bind (act_now (sw_now E)) (\<lambda>now. act_guard (now < deadline) OnlineDeadline)"

definition initial_switchback :: "SwitchbackPlan \<Rightarrow> SwitchbackJournal" where
  "initial_switchback p =
     \<lparr>sj_schema = SWITCHBACK_SCHEMA, sj_revision = 0, sj_plan = p, sj_phase = PreparingPrevious,
      sj_opened = None, sj_closed = None, sj_drained = None, switch_started_ms = None, drain_started_ms = None\<rparr>"

definition SwitchbackJournal_create ::
    "('w, 'd) SwitchbackDeployment \<Rightarrow> SwitchbackPlan \<Rightarrow> ('w, ('r, 'd) OnlineError, SwitchbackJournal) act" where
  "SwitchbackJournal_create D p =
     (let journal = initial_switchback p in
      act_bind (act_guard (SwitchbackJournal_valid journal) OnlineInvalidJournal) (\<lambda>_.
      act_bind (act_map_err OnlineDeployment (sd_save D None journal)) (\<lambda>_.
      act_ret journal)))"

definition sw_checkpoint ::
    "('w, 'r, 'd, 'permit) switchback_env \<Rightarrow> SwitchbackJournal \<Rightarrow> instant \<Rightarrow> SwitchbackPhase
      \<Rightarrow> (SwitchbackJournal \<Rightarrow> SwitchbackJournal) \<Rightarrow> ('w, 'r, 'd) switchback_step" where
  "sw_checkpoint E j deadline phase update =
     act_bind (sw_before E deadline) (\<lambda>_.
     let next_journal = update (j\<lparr>sj_revision := sj_revision j + 1, sj_phase := phase\<rparr>) in
     act_bind (act_guard (SwitchbackJournal_follows next_journal (Some j)) OnlineInvalidJournal) (\<lambda>_.
     act_bind (act_map_err OnlineDeployment (sd_save (sw_deployment E) (Some j) next_journal)) (\<lambda>_.
     act_ret (SwitchbackAdvanced phase, next_journal))))"

definition switch_deadline ::
    "('w, 'r, 'd, 'permit) switchback_env \<Rightarrow> SwitchbackJournal \<Rightarrow> u64 \<Rightarrow> instant \<Rightarrow> instant
      \<Rightarrow> ('w, ('r, 'd) OnlineError, instant) act" where
  "switch_deadline E j now_ms started deadline =
     act_bind (act_lift (ok_or
       (Option.bind (Option.bind (Option.bind (switch_started_ms j)
          (\<lambda>start. checked_add start (stream_close_delay_ms (sp_proxy (sj_plan j))
                                       - request_budget_ms (sp_candidate_budget (sj_plan j)))))
          (\<lambda>fin. checked_sub fin now_ms))
          (\<lambda>v. if 0 < v then Some v else None)) ProxyWindowElapsed)) (\<lambda>remaining.
     act_bind (act_lift (ok_or (instant_add_ms started remaining) OnlineClock)) (\<lambda>limit.
     let bounded = min deadline limit in
     act_bind (sw_before E bounded) (\<lambda>_. act_ret bounded)))"

text \<open>\<open>clock.uptime_ms\<close> plus the time this step already took.\<close>

definition uptime_now ::
    "('w, 'r, 'd, 'permit) switchback_env \<Rightarrow> instant \<Rightarrow> u64 \<Rightarrow> ('w, ('r, 'd) OnlineError, u64) act" where
  "uptime_now E started uptime =
     act_bind (act_now (sw_now E)) (\<lambda>now.
     act_bind (act_lift (ok_or (u64_try_from (elapsed_ms now started)) OnlineClock)) (\<lambda>elapsed.
     act_lift (ok_or (checked_add uptime elapsed) OnlineClock)))"

definition sw_preparing ::
    "('w, 'r, 'd, 'permit) switchback_env \<Rightarrow> SwitchbackJournal \<Rightarrow> u64 \<Rightarrow> instant \<Rightarrow> bool \<Rightarrow> RuntimeSnapshot
      \<Rightarrow> ('w, 'r, 'd) switchback_step" where
  "sw_preparing E j uptime deadline is_on_previous old =
     act_bind (act_guard (\<not> is_on_previous) OnlineTrafficChanged) (\<lambda>_.
     let was_opened = (if accepting (lifecycle (sp_previous (sj_plan j)))
                       then unchanged_admission old (sp_previous (sj_plan j))
                       else changed_admission old (sp_previous (sj_plan j)) True) in
     act_bind (act_guard (was_opened \<or> unchanged_admission old (sp_previous (sj_plan j))) OnlineRuntimeChanged) (\<lambda>_.
     act_bind (act_map_err OnlineRuntime
       (rt_readiness (sw_previous E) old (previous_readiness (sj_plan j)) deadline)) (\<lambda>permit.
     act_bind
       (if was_opened then act_ret old
        else act_bind (sw_before E deadline) (\<lambda>_.
             act_map_err OnlineRuntime (rt_open_admission (sw_previous E) permit deadline)))
       (\<lambda>opened_at.
          sw_checkpoint E j deadline SwitchingBack
            (\<lambda>next. next\<lparr>sj_opened := Some opened_at, switch_started_ms := Some uptime\<rparr>)))))"

definition sw_switching ::
    "('w, 'r, 'd, 'permit) switchback_env \<Rightarrow> SwitchbackJournal \<Rightarrow> u64 \<Rightarrow> instant \<Rightarrow> instant \<Rightarrow> bool
      \<Rightarrow> RuntimeSnapshot \<Rightarrow> ('w, 'r, 'd) switchback_step" where
  "sw_switching E j uptime started deadline is_on_previous old =
     act_bind (act_map_err OnlineRuntime
       (rt_readiness (sw_previous E) old (previous_readiness (sj_plan j)) deadline)) (\<lambda>_.
     act_bind
       (if \<not> is_on_previous then
          act_bind (sw_before E deadline) (\<lambda>_.
          act_map_err OnlineDeployment (sd_switch_back (sw_deployment E) j deadline))
        else act_ret ()) (\<lambda>_.
     act_bind (sw_before E deadline) (\<lambda>_.
     act_bind (act_map_err OnlineDeployment (sd_traffic (sw_deployment E) j deadline)) (\<lambda>slot.
     act_bind (act_guard (slot = as_slot (previous_slot (oj_plan (sp_original (sj_plan j)))))
       OnlineTrafficChanged) (\<lambda>_.
     act_bind (uptime_now E started uptime) (\<lambda>now.
     sw_checkpoint E j deadline ClosingCandidate (\<lambda>next. next\<lparr>drain_started_ms := Some now\<rparr>)))))))"

definition sw_closing ::
    "('w, 'r, 'd, 'permit) switchback_env \<Rightarrow> SwitchbackJournal \<Rightarrow> u64 \<Rightarrow> instant \<Rightarrow> instant
      \<Rightarrow> ('w, 'r, 'd) switchback_step" where
  "sw_closing E j uptime started deadline =
     act_bind (act_map_err OnlineRuntime (rt_status (sw_candidate E) deadline)) (\<lambda>current.
     act_bind
       (if changed_admission current (sp_candidate (sj_plan j)) False then act_ret current
        else
          act_bind (act_guard (unchanged_admission current (sp_candidate (sj_plan j))) OnlineRuntimeChanged) (\<lambda>_.
          act_bind (switch_deadline E j uptime started deadline) (\<lambda>limit.
          act_bind (sw_before E limit) (\<lambda>_.
          act_map_err OnlineRuntime (rt_close_admission (sw_candidate E) current limit)))))
       (\<lambda>closed_at. sw_checkpoint E j deadline DrainingCandidate (\<lambda>next. next\<lparr>sj_closed := Some closed_at\<rparr>)))"

definition sw_draining ::
    "('w, 'r, 'd, 'permit) switchback_env \<Rightarrow> SwitchbackJournal \<Rightarrow> u64 \<Rightarrow> instant \<Rightarrow> instant
      \<Rightarrow> ('w, 'r, 'd) switchback_step" where
  "sw_draining E j uptime started deadline =
     act_bind (act_map_err OnlineRuntime (rt_status (sw_candidate E) deadline)) (\<lambda>current.
     act_bind (act_guard (\<not> is_none_or (sj_closed j) (\<lambda>c. \<not> observes_drain current c)) OnlineRuntimeChanged) (\<lambda>_.
     act_bind (uptime_now E started uptime) (\<lambda>now.
     act_bind (act_lift (ok_or (Option.bind (drain_started_ms j)
        (\<lambda>start. checked_add start (request_budget_ms (sp_candidate_budget (sj_plan j))))) OnlineClock)) (\<lambda>fin.
     if fin \<le> now then sw_checkpoint E j deadline SwitchbackDrainBudgetExhausted (\<lambda>next. next)
     else if in_flight (lifecycle current) = 0
     then sw_checkpoint E j deadline RetiringCandidate (\<lambda>next. next\<lparr>sj_drained := Some current\<rparr>)
     else act_ret (SwitchbackDraining (in_flight (lifecycle current))
                     (oldest_request_age_ms (lifecycle current)), j)))))"

definition sw_retire_candidate ::
    "('w, 'r, 'd, 'permit) switchback_env \<Rightarrow> SwitchbackJournal \<Rightarrow> instant \<Rightarrow> RuntimeSnapshot
      \<Rightarrow> ('w, 'r, 'd) switchback_step" where
  "sw_retire_candidate E j deadline d =
     act_bind (act_map_err OnlineRetirement (retire_control (SwitchbackProcess E) d deadline)) (\<lambda>progress.
     if progress \<noteq> RetirementExited then act_ret (SwitchbackRetiring, j)
     else
       act_bind (act_map_err OnlineDeployment (sd_retire_candidate_runner (sw_deployment E) j deadline)) (\<lambda>state.
       if state \<noteq> Exited then act_ret (SwitchbackRetiring, j)
       else sw_checkpoint E j deadline CommittingPrevious (\<lambda>next. next)))"

definition sw_retiring ::
    "('w, 'r, 'd, 'permit) switchback_env \<Rightarrow> SwitchbackJournal \<Rightarrow> instant \<Rightarrow> RuntimeSnapshot
      \<Rightarrow> ('w, 'r, 'd) switchback_step" where
  "sw_retiring E j deadline old =
     act_bind (act_map_err OnlineRuntime
       (rt_readiness (sw_previous E) old (previous_readiness (sj_plan j)) deadline)) (\<lambda>_.
     act_bind (act_lift (ok_or (sj_drained j) OnlineInvalidJournal)) (\<lambda>d.
     sw_retire_candidate E j deadline d))"

definition sw_committing ::
    "('w, 'r, 'd, 'permit) switchback_env \<Rightarrow> SwitchbackJournal \<Rightarrow> instant \<Rightarrow> ('w, 'r, 'd) switchback_step" where
  "sw_committing E j deadline =
     act_bind (sw_before E deadline) (\<lambda>_.
     act_bind (act_map_err OnlineDeployment (sd_commit_previous (sw_deployment E) j deadline)) (\<lambda>_.
     sw_checkpoint E j deadline SwitchbackComplete (\<lambda>next. next)))"

definition sw_phase ::
    "('w, 'r, 'd, 'permit) switchback_env \<Rightarrow> SwitchbackJournal \<Rightarrow> u64 \<Rightarrow> instant \<Rightarrow> instant \<Rightarrow> bool
      \<Rightarrow> RuntimeSnapshot \<Rightarrow> ('w, 'r, 'd) switchback_step" where
  "sw_phase E j uptime started deadline is_on_previous old =
     (case sj_phase j of
        PreparingPrevious \<Rightarrow> sw_preparing E j uptime deadline is_on_previous old
      | SwitchingBack \<Rightarrow> sw_switching E j uptime started deadline is_on_previous old
      | ClosingCandidate \<Rightarrow> sw_closing E j uptime started deadline
      | DrainingCandidate \<Rightarrow> sw_draining E j uptime started deadline
      | RetiringCandidate \<Rightarrow> sw_retiring E j deadline old
      | CommittingPrevious \<Rightarrow> sw_committing E j deadline
      | SwitchbackComplete \<Rightarrow> act_fail OnlineUnreachable
      | SwitchbackDrainBudgetExhausted \<Rightarrow> act_fail OnlineUnreachable)"

definition sw_observed ::
    "('w, 'r, 'd, 'permit) switchback_env \<Rightarrow> SwitchbackJournal \<Rightarrow> u64 \<Rightarrow> instant \<Rightarrow> instant
      \<Rightarrow> ('w, 'r, 'd) switchback_step" where
  "sw_observed E j uptime started deadline =
     act_bind (act_map_err OnlineDeployment (sd_traffic (sw_deployment E) j deadline)) (\<lambda>traffic.
     let original = oj_plan (sp_original (sj_plan j));
         is_on_previous = (traffic = as_slot (previous_slot original)) in
     act_bind (act_guard (traffic = as_slot (candidate_slot original) \<or> is_on_previous) OnlineTrafficChanged) (\<lambda>_.
     act_bind (act_guard (sj_phase j = PreparingPrevious \<or> sj_phase j = SwitchingBack \<or> is_on_previous)
       OnlineTrafficChanged) (\<lambda>_.
     act_bind (act_map_err OnlineRuntime (rt_status (sw_previous E) deadline)) (\<lambda>old.
     act_bind (act_guard (\<not> (sj_phase j \<noteq> PreparingPrevious
         \<and> is_none_or (sj_opened j) (\<lambda>v. \<not> unchanged_admission old v))) OnlineRuntimeChanged) (\<lambda>_.
     sw_phase E j uptime started deadline is_on_previous old)))))"

definition SwitchbackJournal_advance ::
    "('w, 'r, 'd, 'permit) switchback_env \<Rightarrow> SwitchbackJournal \<Rightarrow> UpgradeClock \<Rightarrow> instant
      \<Rightarrow> ('w, 'r, 'd) switchback_step" where
  "SwitchbackJournal_advance E j clk deadline =
     act_bind (act_now (sw_now E)) (\<lambda>started.
     act_bind (act_guard (SwitchbackJournal_valid j) OnlineInvalidJournal) (\<lambda>_.
     act_bind (act_guard (started < deadline) OnlineDeadline) (\<lambda>_.
     act_bind (act_map_err OnlineDeployment (sd_assert_current (sw_deployment E) j)) (\<lambda>_.
     if sj_phase j = SwitchbackComplete then act_ret (ProgressSwitchbackComplete, j)
     else if sj_phase j = SwitchbackDrainBudgetExhausted then act_ret (ProgressSwitchbackExhausted, j)
     else
       act_bind (act_guard (boot_id clk = boot_id (sp_clock (sj_plan j))) OnlineBootChanged) (\<lambda>_.
       act_bind (act_guard (\<not> (uptime_ms clk < uptime_ms (sp_clock (sj_plan j))
           \<or> is_some_and (switch_started_ms j) (\<lambda>start. uptime_ms clk < start)
           \<or> is_some_and (drain_started_ms j) (\<lambda>start. uptime_ms clk < start))) OnlineClock) (\<lambda>_.
       act_bind (if sj_phase j = SwitchingBack then switch_deadline E j (uptime_ms clk) started deadline
                 else act_ret deadline) (\<lambda>limit.
       sw_observed E j (uptime_ms clk) started limit)))))))"

section \<open>Succession\<close>

lemmas switchback_defs = SwitchbackJournal_valid_def SwitchbackJournal_follows_def sj_opened_ok_def
  sj_switch_ok_def sj_drain_ok_def sj_closed_ok_def sj_drained_ok_def

lemma switchback_revision:
  "SwitchbackJournal_valid j \<Longrightarrow> sj_revision j = SwitchbackPhase_revision (sj_phase j)"
  by (simp add: SwitchbackJournal_valid_def)

lemma switchback_revision_bound: "unat (SwitchbackPhase_revision ph) \<le> 6"
  by (cases ph) auto

lemma switchback_follows_revision:
  "SwitchbackJournal_follows j (Some p) \<Longrightarrow> unat (sj_revision j) = Suc (unat (sj_revision p))"
  by (auto simp: SwitchbackJournal_follows_def checked_simps)

interpretation switchback: journal_protocol SwitchbackJournal_valid SwitchbackJournal_follows
    "\<lambda>j. unat (sj_revision j)" sj_plan 6
proof
  fix j p prev
  show "SwitchbackJournal_follows j prev \<Longrightarrow> SwitchbackJournal_valid j"
    by (simp add: SwitchbackJournal_follows_def)
  show "SwitchbackJournal_follows j None \<Longrightarrow> unat (sj_revision j) = 0"
    by (simp add: SwitchbackJournal_follows_def)
  show "SwitchbackJournal_follows j (Some p) \<Longrightarrow> SwitchbackJournal_valid p \<and> sj_plan j = sj_plan p
      \<and> (j = p \<or> unat (sj_revision j) = Suc (unat (sj_revision p)))"
    using switchback_follows_revision [of j p] by (auto simp: SwitchbackJournal_follows_def)
  show "SwitchbackJournal_follows j (Some p) \<Longrightarrow> unat (sj_revision j) = Suc (unat (sj_revision p))"
    by (rule switchback_follows_revision)
  show "SwitchbackJournal_valid j \<Longrightarrow> unat (sj_revision j) \<le> 6"
    using switchback_revision [of j] switchback_revision_bound by metis
qed

text \<open>The order of phases, which the code leaves to the revision numbers.\<close>

definition switchback_phase_follows :: "SwitchbackPhase \<Rightarrow> SwitchbackPhase \<Rightarrow> bool" where
  "switchback_phase_follows p q \<longleftrightarrow> (p, q) \<in>
     {(PreparingPrevious, SwitchingBack), (SwitchingBack, ClosingCandidate),
      (ClosingCandidate, DrainingCandidate), (DrainingCandidate, RetiringCandidate),
      (DrainingCandidate, SwitchbackDrainBudgetExhausted), (RetiringCandidate, CommittingPrevious),
      (CommittingPrevious, SwitchbackComplete)}"

lemma follows_phase:
  assumes "SwitchbackJournal_follows j (Some p)"
  shows "switchback_phase_follows (sj_phase p) (sj_phase j)"
proof -
  have "unat (SwitchbackPhase_revision (sj_phase j)) = Suc (unat (SwitchbackPhase_revision (sj_phase p)))"
      "sj_phase p \<noteq> SwitchbackComplete" "sj_phase p \<noteq> SwitchbackDrainBudgetExhausted"
    using assms switchback_follows_revision [OF assms]
    by (auto simp: SwitchbackJournal_follows_def switchback_revision)
  then show ?thesis
    by (cases "sj_phase p"; cases "sj_phase j") (auto simp: switchback_phase_follows_def)
qed

definition switchback_result ::
    "SwitchbackJournal \<Rightarrow> (('r, 'd) OnlineError, SwitchbackProgress \<times> SwitchbackJournal) result \<Rightarrow> bool" where
  "switchback_result j r \<longleftrightarrow> (case r of Inl e \<Rightarrow> True
     | Inr (progress, j') \<Rightarrow>
         (case progress of SwitchbackAdvanced ph \<Rightarrow> SwitchbackJournal_follows j' (Some j) \<and> sj_phase j' = ph
          | _ \<Rightarrow> j' = j))"

lemma post_sw_checkpoint: "(\<And>x. sj_phase (update x) = sj_phase x) \<Longrightarrow>
    act_post (sw_checkpoint E j d phase update) (switchback_result j)"
  unfolding sw_checkpoint_def Let_def
  by (rule act_post_bind, rule act_post_any, intro conjI allI impI; (intro post_intros)?)
     (auto simp: switchback_result_def)

lemma post_sw_bind: "(\<And>a. act_post (f a) (switchback_result j)) \<Longrightarrow> act_post (act_bind m f) (switchback_result j)"
  by (rule act_post_bind, rule act_post_any) (auto simp: switchback_result_def)

lemma post_sw_advance: "act_post (SwitchbackJournal_advance E j clk deadline) (switchback_result j)"
  unfolding SwitchbackJournal_advance_def sw_observed_def sw_phase_def sw_preparing_def sw_switching_def
    sw_closing_def sw_draining_def sw_retiring_def sw_retire_candidate_def sw_committing_def Let_def
  by (auto intro!: post_sw_bind post_sw_checkpoint act_post_ret act_post_fail
      simp: switchback_result_def split: SwitchbackPhase.split)

text \<open>
  C14: one call of the switchback's \<open>advance\<close>, in any environment, keeps the journal or replaces
  it by one valid successor with the same plan, hence the same frozen forward journal, the next
  revision, the next phase in order, and all evidence saved before.
\<close>

theorem switchback_advance_refines_protocol:
  assumes "SwitchbackJournal_advance E j clk deadline w = (Inr (progress, j'), w')"
  shows "(j' = j \<and> (\<forall>ph. progress \<noteq> SwitchbackAdvanced ph))
    \<or> (SwitchbackJournal_valid j \<and> SwitchbackJournal_valid j' \<and> progress = SwitchbackAdvanced (sj_phase j')
       \<and> sj_plan j' = sj_plan j \<and> unat (sj_revision j') = Suc (unat (sj_revision j))
       \<and> switchback_phase_follows (sj_phase j) (sj_phase j')
       \<and> is_none_or (sj_opened j) (\<lambda>v. sj_opened j' = Some v) \<and> is_none_or (sj_closed j) (\<lambda>v. sj_closed j' = Some v)
       \<and> is_none_or (sj_drained j) (\<lambda>v. sj_drained j' = Some v)
       \<and> is_none_or (switch_started_ms j) (\<lambda>v. switch_started_ms j' = Some v)
       \<and> is_none_or (drain_started_ms j) (\<lambda>v. drain_started_ms j' = Some v))"
proof (cases progress)
  case (SwitchbackAdvanced ph)
  with act_postD [OF post_sw_advance assms] have f: "SwitchbackJournal_follows j' (Some j)" "sj_phase j' = ph"
    by (auto simp: switchback_result_def)
  with SwitchbackAdvanced switchback_follows_revision [OF f(1)] follows_phase [OF f(1)] show ?thesis
    by (auto simp: SwitchbackJournal_follows_def)
qed (use act_postD [OF post_sw_advance assms] in \<open>auto simp: switchback_result_def\<close>)

section \<open>A sample switchback\<close>

definition sample_switchback_plan :: SwitchbackPlan where
  "sample_switchback_plan =
     \<lparr>sp_original = sample_opened_journal, sp_previous = sample_runtime Blue True False 3 2,
      sp_candidate = sample_runtime Green True False 1 0,
      sp_candidate_budget = \<lparr>rb_runtime = sample_runtime Green True False 1 0, request_budget_ms = 500\<rparr>,
      sp_proxy = \<lparr>ps_slot = Green, configuration_sha256 = replicate 64 (CHR ''e''), stream_close_delay_ms = 900\<rparr>,
      sp_clock = \<lparr>boot_id = ''boot'', uptime_ms = 2000\<rparr>\<rparr>"

lemma sample_opened_fields:
  "oj_plan sample_opened_journal = sample_plan" "oj_phase sample_opened_journal = SwitchingTraffic"
  "opened sample_opened_journal = Some (sample_runtime Green True False 1 0)"
  "closed sample_opened_journal = None" "cutover_started_at_ms sample_opened_journal = Some 1500"
  "drain_started_at_ms sample_opened_journal = None"
  by (simp_all add: sample_opened_journal_def initial_journal_def)

lemma sample_plan_fields:
  "proxy sample_plan = \<lparr>ps_slot = Blue, configuration_sha256 = replicate 64 (CHR ''e''), stream_close_delay_ms = 900\<rparr>"
  "as_slot (candidate_slot sample_plan) = Green" "as_slot (previous_slot sample_plan) = Blue"
  "plan_clock sample_plan = \<lparr>boot_id = ''boot'', uptime_ms = 1000\<rparr>"
  by (simp_all add: sample_plan_def sample_active_slot_def)

lemma sample_same_process: "same_process (sample_runtime s a b r n) (sample_runtime s a' b' r' n')"
  by (cases s) (simp_all add: same_process_def sample_runtime_def)

lemma sample_lifecycle: "lifecycle (sample_runtime s a b r n) =
    \<lparr>accepting = a, stopping = b, revision = r, in_flight = n, oldest_request_age_ms = 0\<rparr>"
  "rs_slot (sample_runtime s a b r n) = s"
  by (simp_all add: sample_runtime_def)

lemma sample_switchback_plan_valid: "SwitchbackPlan_valid sample_switchback_plan"
proof -
  have "OnlineJournal_valid sample_opened_journal"
    using sample_opened_follows by (simp add: OnlineJournal_follows_def)
  moreover have "(3 :: u64) < - 1 - 1" "(1 :: u64) < - 1 - 1" by code_simp+
  ultimately show ?thesis
    using sample_observations(4)
    by (simp add: SwitchbackPlan_valid_def sample_switchback_plan_def Let_def sample_opened_fields
        sample_plan_fields unchanged_admission_def sample_same_process sample_lifecycle
        RuntimeRequestBudget_valid_for_def checked_add_def word_gt_0)
qed

definition sample_switched_journal :: SwitchbackJournal where
  "sample_switched_journal = (initial_switchback sample_switchback_plan)\<lparr>sj_revision := 1,
     sj_phase := SwitchingBack, sj_opened := Some (sample_runtime Blue True False 3 2),
     switch_started_ms := Some 2500\<rparr>"

lemma sample_switchback_follows:
  "SwitchbackJournal_valid (initial_switchback sample_switchback_plan)"
  "SwitchbackJournal_follows sample_switched_journal (Some (initial_switchback sample_switchback_plan))"
proof -
  show valid: "SwitchbackJournal_valid (initial_switchback sample_switchback_plan)"
    by (simp add: SwitchbackJournal_valid_def initial_switchback_def sample_switchback_plan_valid)
  have plan: "sp_previous sample_switchback_plan = sample_runtime Blue True False 3 2"
      "sp_clock sample_switchback_plan = \<lparr>boot_id = ''boot'', uptime_ms = 2000\<rparr>"
      "stream_close_delay_ms (sp_proxy sample_switchback_plan) = 900"
    by (simp_all add: sample_switchback_plan_def)
  show "SwitchbackJournal_follows sample_switched_journal (Some (initial_switchback sample_switchback_plan))"
    using valid sample_switchback_plan_valid
    by (simp add: SwitchbackJournal_follows_def)
       (simp add: switchback_defs sample_switched_journal_def initial_switchback_def plan
          unchanged_admission_def sample_same_process sample_lifecycle checked_add_def)
qed

definition sample_switchback_env :: "('w, unit, unit, unit) switchback_env" where
  "sample_switchback_env =
     \<lparr>sw_now = (\<lambda>w. (0, w)),
      sw_previous = sample_runtime_ops (sample_runtime Blue True False 3 2) (sample_runtime Blue True False 3 2),
      sw_candidate = sample_runtime_ops (sample_runtime Green True False 1 0) (sample_runtime Green False False 2 0),
      sw_deployment =
        \<lparr>sd_load = (\<lambda>w. (Inr None, w)), sd_assert_current = (\<lambda>j w. (Inr (), w)),
         sd_save = (\<lambda>p n w. (Inr (), w)), sd_observe_control = (\<lambda>s deadline w. (Inr Running, w)),
         sd_traffic = (\<lambda>j deadline w. (Inr Green, w)), sd_switch_back = (\<lambda>j deadline w. (Inr (), w)),
         sd_retire_candidate_runner = (\<lambda>j deadline w. (Inr Running, w)),
         sd_commit_previous = (\<lambda>j deadline w. (Inr (), w))\<rparr>\<rparr>"

lemma sample_switchback_advance:
  "SwitchbackJournal_advance sample_switchback_env (initial_switchback sample_switchback_plan)
     \<lparr>boot_id = ''boot'', uptime_ms = 2500\<rparr> 50 w
    = (Inr (SwitchbackAdvanced SwitchingBack, sample_switched_journal), w)"
proof -
  let ?j = "initial_switchback sample_switchback_plan"
  have fields: "sj_phase ?j = PreparingPrevious" "sj_plan ?j = sample_switchback_plan" "sj_revision ?j = 0"
      "switch_started_ms ?j = None" "drain_started_ms ?j = None" "sj_opened ?j = None"
    by (simp_all add: initial_switchback_def)
  have plan: "sp_previous sample_switchback_plan = sample_runtime Blue True False 3 2"
      "sp_clock sample_switchback_plan = \<lparr>boot_id = ''boot'', uptime_ms = 2000\<rparr>"
      "oj_plan (sp_original sample_switchback_plan) = sample_plan"
    by (simp_all add: sample_switchback_plan_def sample_opened_fields)
  have same: "unchanged_admission (sample_runtime Blue True False 3 2) (sample_runtime Blue True False 3 2)"
    by (simp add: unchanged_admission_def sample_same_process sample_lifecycle)
  show ?thesis
    using sample_switchback_follows unfolding sample_switched_journal_def
    by (simp add: SwitchbackJournal_advance_def sw_observed_def sw_phase_def sw_preparing_def
        sw_checkpoint_def sw_before_def Let_def fields plan same sample_plan_fields sample_lifecycle
        sample_switchback_env_def sample_runtime_ops_def act_defs)
qed

theorem switchback_advance_refines_protocol_witness:
  "switchback_phase_follows (sj_phase (initial_switchback sample_switchback_plan)) (sj_phase sample_switched_journal)"
  using switchback_advance_refines_protocol [OF sample_switchback_advance [where w = "()"]] by auto

text \<open>
  every history of switchback journals has at most seven records, all valid and with one
  plan; the forward journal they are bound to is the same in all of them and had opened the
  candidate but not yet retired the previous release.
\<close>

theorem switchback_history_bounded:
  assumes "linked SwitchbackJournal_follows None js"
  shows "length js \<le> 7
    \<and> (\<forall>i<length js. SwitchbackJournal_valid (js ! i) \<and> unat (sj_revision (js ! i)) = i
         \<and> sp_original (sj_plan (js ! i)) = sp_original (sj_plan (js ! 0))
         \<and> opened (sp_original (sj_plan (js ! i))) \<noteq> None \<and> drained (sp_original (sj_plan (js ! i))) = None)"
proof -
  have frozen: "opened (sp_original (sj_plan j)) \<noteq> None \<and> drained (sp_original (sj_plan j)) = None"
    if "SwitchbackJournal_valid j" for j
    using that by (auto simp: SwitchbackJournal_valid_def SwitchbackPlan_valid_def Let_def OnlineJournal_valid_def
        is_some_and_iff)
  have "length js \<le> 7" using switchback.history(1) [OF assms] by simp
  moreover have "SwitchbackJournal_valid (js ! i) \<and> unat (sj_revision (js ! i)) = i
      \<and> sj_plan (js ! i) = sj_plan (js ! 0)" if "i < length js" for i
    using switchback.history(2) [OF assms that] .
  ultimately show ?thesis using frozen by metis
qed

theorem switchback_history_bounded_witness:
  "sp_original (sj_plan sample_switched_journal) = sp_original (sj_plan (initial_switchback sample_switchback_plan))"
proof -
  have "linked SwitchbackJournal_follows None
      [initial_switchback sample_switchback_plan, sample_switched_journal]"
    using sample_switchback_follows by (simp add: SwitchbackJournal_follows_def [of _ None] initial_switchback_def)
  from switchback_history_bounded [OF this] show ?thesis by auto
qed

text \<open>The pinned processes sit in the slots of the forward plan, which differ.\<close>

lemma switchback_slots:
  assumes "SwitchbackPlan_valid p"
  shows "rs_slot (sp_previous p) = as_slot (previous_slot (oj_plan (sp_original p)))"
    and "rs_slot (sp_candidate p) = as_slot (candidate_slot (oj_plan (sp_original p)))"
    and "rs_slot (sp_previous p) \<noteq> rs_slot (sp_candidate p)"
proof -
  let ?o = "sp_original p"
  have o: "OnlineJournal_valid ?o" using assms by (simp add: SwitchbackPlan_valid_def Let_def)
  then have plan: "OnlinePlan_valid (oj_plan ?o)" by (simp add: OnlineJournal_valid_def)
  have "opened_ok ?o" "closed ?o = None \<or> closed_ok ?o"
    using o assms by (auto simp: OnlineJournal_valid_def SwitchbackPlan_valid_def Let_def)
  then have proc: "rs_slot (sp_candidate p) = rs_slot (candidate_process (oj_plan ?o))"
      "rs_slot (sp_previous p) = rs_slot (previous_process (oj_plan ?o))"
    using assms
    by (auto simp: SwitchbackPlan_valid_def Let_def opened_ok_def closed_ok_def is_some_and_iff
        unchanged_admission_def changed_admission_def same_process_def split: option.splits)
  show prev: "rs_slot (sp_previous p) = as_slot (previous_slot (oj_plan ?o))"
    and cand: "rs_slot (sp_candidate p) = as_slot (candidate_slot (oj_plan ?o))"
    using proc plan by (simp_all add: OnlinePlan_valid_def pair_valid_def)
  show "rs_slot (sp_previous p) \<noteq> rs_slot (sp_candidate p)"
    using prev cand plan by (simp add: OnlinePlan_valid_def)
qed

text \<open>
  the proxy states a switchback journal accepts never show live traffic on the previous
  release while the disk still names the candidate, and once live traffic is back on the previous
  release, a successor accepts nothing else.
\<close>

theorem switchback_proxy_backward_only:
  assumes "SwitchbackJournal_accepts_proxy j live disk"
    and "ps_slot live = rs_slot (sp_previous (sj_plan j))"
  shows "disk = rs_slot (sp_previous (sj_plan j))
    \<and> (\<forall>j' live' disk'. SwitchbackJournal_follows j' (Some j) \<longrightarrow> SwitchbackJournal_accepts_proxy j' live' disk' \<longrightarrow>
         ps_slot live' = rs_slot (sp_previous (sj_plan j)) \<and> disk' = rs_slot (sp_previous (sj_plan j)))"
proof -
  have valid: "SwitchbackPlan_valid (sj_plan j)"
    using assms(1) by (auto simp: SwitchbackJournal_accepts_proxy_def SwitchbackJournal_valid_def split: if_splits)
  note neq = switchback_slots(3) [OF valid]
  then have here: "disk = rs_slot (sp_previous (sj_plan j))" "sj_phase j \<noteq> PreparingPrevious"
    using assms by (auto simp: SwitchbackJournal_accepts_proxy_def Let_def split: if_splits SwitchbackPhase.splits)
  moreover have "ps_slot live' = rs_slot (sp_previous (sj_plan j)) \<and> disk' = rs_slot (sp_previous (sj_plan j))"
    if "SwitchbackJournal_follows j' (Some j)" "SwitchbackJournal_accepts_proxy j' live' disk'" for j' live' disk'
  proof -
    have "sj_plan j' = sj_plan j" "sj_phase j' \<notin> {PreparingPrevious, SwitchingBack}"
      using follows_phase [OF that(1)] that(1) here(2)
      by (auto simp: SwitchbackJournal_follows_def switchback_phase_follows_def)
    with that(2) show ?thesis
      by (auto simp: SwitchbackJournal_accepts_proxy_def Let_def split: if_splits SwitchbackPhase.splits)
  qed
  ultimately show ?thesis by blast
qed

theorem switchback_proxy_backward_only_witness:
  "SwitchbackJournal_accepts_proxy sample_switched_journal
      \<lparr>ps_slot = Blue, configuration_sha256 = replicate 64 (CHR ''e''), stream_close_delay_ms = 900\<rparr> Blue
    \<and> Blue = rs_slot (sp_previous (sj_plan sample_switched_journal))"
proof -
  let ?live = "\<lparr>ps_slot = Blue, configuration_sha256 = replicate 64 (CHR ''e''), stream_close_delay_ms = 900\<rparr>"
  have valid: "SwitchbackJournal_valid sample_switched_journal"
    using sample_switchback_follows(2) by (simp add: SwitchbackJournal_follows_def)
  have fields: "sj_plan sample_switched_journal = sample_switchback_plan" "sj_phase sample_switched_journal = SwitchingBack"
      "sp_previous sample_switchback_plan = sample_runtime Blue True False 3 2"
      "sp_proxy sample_switchback_plan = ?live\<lparr>ps_slot := Green\<rparr>"
    by (simp_all add: sample_switched_journal_def initial_switchback_def sample_switchback_plan_def)
  have "SwitchbackJournal_accepts_proxy sample_switched_journal ?live Blue"
    by (simp add: SwitchbackJournal_accepts_proxy_def valid fields sample_lifecycle)
  moreover have "ps_slot ?live = rs_slot (sp_previous (sj_plan sample_switched_journal))"
    by (simp add: fields sample_lifecycle)
  ultimately show ?thesis using switchback_proxy_backward_only by blast
qed

end
