(* ===== verification/Migration.thy ===== *)
theory Migration
  imports UpgradeBase
begin

text \<open>
  Migration evidence (\<open>upgrade-core/src/migration.rs\<close>): an inspection of a database by one
  binary, the preflight pair taken before an upgrade, and the progress a resumed executor
  accepts. The results show that accepted progress is a position in the preflight's own list of
  pending migrations.
\<close>

section \<open>Inspections\<close>

record PendingMigration =
  pm_version :: u32
  pm_name :: string
  checksum_sha256 :: string
  compatibility :: string

record MigrationInspection =
  mi_schema :: string
  applied_schema_version :: u32
  candidate_schema_version :: u32
  applied_history_sha256 :: string
  candidate_history_sha256 :: string
  pending :: "PendingMigration list"

definition MIGRATION_INSPECTION_SCHEMA :: string where
  "MIGRATION_INSPECTION_SCHEMA = ''aster.migration-inspection.v2''"

definition ROLLING_UPGRADE_SAFE :: string where
  "ROLLING_UPGRADE_SAFE = ''rolling_upgrade_safe''"

definition PendingMigration_valid_at :: "u32 \<Rightarrow> nat \<Rightarrow> PendingMigration \<Rightarrow> bool" where
  "PendingMigration_valid_at applied index migration \<longleftrightarrow>
     Option.bind (u32_try_from index)
       (\<lambda>i. Option.bind (checked_add applied i) (\<lambda>v. checked_add v 1)) = Some (pm_version migration)
     \<and> valid_identifier (pm_name migration)
     \<and> valid_checksum (checksum_sha256 migration)
     \<and> compatibility migration = ROLLING_UPGRADE_SAFE"

definition MigrationInspection_valid :: "MigrationInspection \<Rightarrow> bool" where
  "MigrationInspection_valid m \<longleftrightarrow> mi_schema m = MIGRATION_INSPECTION_SCHEMA
     \<and> 0 < applied_schema_version m \<and> 0 < candidate_schema_version m
     \<and> valid_checksum (applied_history_sha256 m) \<and> valid_checksum (candidate_history_sha256 m)
     \<and> unat (saturating_sub (candidate_schema_version m) (applied_schema_version m)) = length (pending m)
     \<and> list_all (\<lambda>(index, migration). PendingMigration_valid_at (applied_schema_version m) index migration)
         (List.enumerate 0 (pending m))
     \<and> (applied_schema_version m \<noteq> candidate_schema_version m
         \<or> applied_history_sha256 m = candidate_history_sha256 m)"

section \<open>Preflight and progress\<close>

record MigrationPreflight =
  current_inspection :: MigrationInspection
  candidate_inspection :: MigrationInspection

definition MigrationPreflight_valid :: "MigrationPreflight \<Rightarrow> bool" where
  "MigrationPreflight_valid p \<longleftrightarrow>
     MigrationInspection_valid (current_inspection p) \<and> MigrationInspection_valid (candidate_inspection p)
     \<and> pending (current_inspection p) = []
     \<and> applied_schema_version (candidate_inspection p) \<le> candidate_schema_version (candidate_inspection p)
     \<and> applied_schema_version (current_inspection p) = applied_schema_version (candidate_inspection p)
     \<and> applied_history_sha256 (current_inspection p) = applied_history_sha256 (candidate_inspection p)"

definition ends_with :: "'a list \<Rightarrow> 'a list \<Rightarrow> bool" where
  "ends_with xs ys \<longleftrightarrow> length ys \<le> length xs \<and> drop (length xs - length ys) xs = ys"

definition MigrationPreflight_accepts_progress :: "MigrationPreflight \<Rightarrow> MigrationInspection \<Rightarrow> bool" where
  "MigrationPreflight_accepts_progress p observed \<longleftrightarrow>
     MigrationPreflight_valid p \<and> MigrationInspection_valid observed
     \<and> candidate_schema_version observed = candidate_schema_version (candidate_inspection p)
     \<and> candidate_history_sha256 observed = candidate_history_sha256 (candidate_inspection p)
     \<and> applied_schema_version (candidate_inspection p) \<le> applied_schema_version observed
     \<and> applied_schema_version observed \<le> candidate_schema_version (candidate_inspection p)
     \<and> (applied_schema_version observed \<noteq> applied_schema_version (candidate_inspection p)
         \<or> applied_history_sha256 observed = applied_history_sha256 (candidate_inspection p))
     \<and> ends_with (pending (candidate_inspection p)) (pending observed)"

lemmas migration_valid_defs =
  MigrationInspection_valid_def MigrationPreflight_valid_def MigrationPreflight_accepts_progress_def

section \<open>Progress is a position in the preflight's list\<close>

definition steps_done :: "MigrationPreflight \<Rightarrow> MigrationInspection \<Rightarrow> nat" where
  "steps_done p observed =
     unat (applied_schema_version observed) - unat (applied_schema_version (candidate_inspection p))"

lemma inspection_length:
  assumes "MigrationInspection_valid m" and "applied_schema_version m \<le> candidate_schema_version m"
  shows "unat (applied_schema_version m) + length (pending m) = unat (candidate_schema_version m)"
proof -
  have "length (pending m) = unat (candidate_schema_version m) - unat (applied_schema_version m)"
    using assms by (simp add: MigrationInspection_valid_def saturating_sub_def unat_diff_le)
  moreover have "unat (applied_schema_version m) \<le> unat (candidate_schema_version m)"
    using assms(2) by (simp add: word_le_nat_alt)
  ultimately show ?thesis by simp
qed

lemma pending_versions:
  assumes "MigrationInspection_valid m" and "i < length (pending m)"
  shows "unat (pm_version (pending m ! i)) = unat (applied_schema_version m) + i + 1"
proof -
  have "PendingMigration_valid_at (applied_schema_version m) i (pending m ! i)"
    using assms by (auto simp: MigrationInspection_valid_def list_all_iff in_set_enumerate_eq)
  then show ?thesis
    by (auto simp: PendingMigration_valid_at_def checked_simps bind_eq_Some_conv)
qed

text \<open>
  an inspection the preflight accepts as progress is exactly the preflight after its first
  \<open>k\<close> pending migrations, where \<open>k\<close> is how far the applied version moved: the rest of the
  preflight's own list is still pending, numbered consecutively up to the candidate's version,
  and the list is exhausted exactly when the candidate's schema and history are applied.
\<close>

theorem accepted_progress_is_a_prefix:
  assumes "MigrationPreflight_accepts_progress p observed"
  shows "pending observed = drop (steps_done p observed) (pending (candidate_inspection p))
    \<and> steps_done p observed \<le> length (pending (candidate_inspection p))
    \<and> map (unat \<circ> pm_version) (pending observed)
        = [unat (applied_schema_version observed) + 1 ..< unat (candidate_schema_version (candidate_inspection p)) + 1]
    \<and> (pending observed = [] \<longleftrightarrow>
         applied_schema_version observed = candidate_schema_version (candidate_inspection p))
    \<and> (pending observed = [] \<longrightarrow>
         applied_history_sha256 observed = candidate_history_sha256 (candidate_inspection p))"
proof -
  let ?c = "candidate_inspection p"
  have v: "MigrationInspection_valid ?c" "MigrationInspection_valid observed"
      "candidate_schema_version observed = candidate_schema_version ?c"
      "applied_schema_version ?c \<le> applied_schema_version observed"
      "applied_schema_version observed \<le> candidate_schema_version ?c"
      "ends_with (pending ?c) (pending observed)"
      "candidate_history_sha256 observed = candidate_history_sha256 ?c"
    using assms by (auto simp: MigrationPreflight_accepts_progress_def MigrationPreflight_valid_def)
  have lc: "unat (applied_schema_version ?c) + length (pending ?c) = unat (candidate_schema_version ?c)"
    using inspection_length [OF v(1)] v(4,5) by simp
  have lo: "unat (applied_schema_version observed) + length (pending observed)
      = unat (candidate_schema_version ?c)"
    using inspection_length [OF v(2)] v(3,5) by simp
  have le: "unat (applied_schema_version ?c) \<le> unat (applied_schema_version observed)"
    using v(4) by (simp add: word_le_nat_alt)
  have k: "length (pending ?c) - length (pending observed) = steps_done p observed"
    using lc lo le by (simp add: steps_done_def)
  have eq: "pending observed = drop (steps_done p observed) (pending ?c)"
    using v(6) k by (simp add: ends_with_def)
  have len: "steps_done p observed \<le> length (pending ?c)" using k by linarith
  have nums: "map (unat \<circ> pm_version) (pending observed)
      = [unat (applied_schema_version observed) + 1 ..< unat (candidate_schema_version ?c) + 1]"
    using lo pending_versions [OF v(2)] by (intro nth_equalityI) (auto simp del: upt_Suc)
  have empty: "pending observed = [] \<longleftrightarrow> applied_schema_version observed = candidate_schema_version ?c"
    using lo by (auto simp: word_unat_eq_iff)
  have hist: "applied_schema_version observed = candidate_schema_version ?c \<longrightarrow>
      applied_history_sha256 observed = candidate_history_sha256 ?c"
    using v(2,3,7) by (auto simp: MigrationInspection_valid_def)
  show ?thesis using eq len nums empty hist by simp
qed

definition sample_pending :: "u32 \<Rightarrow> PendingMigration" where
  "sample_pending v = \<lparr>pm_version = v, pm_name = ''add_column'',
     checksum_sha256 = replicate 64 (CHR ''a''), compatibility = ROLLING_UPGRADE_SAFE\<rparr>"

definition sample_inspection :: "u32 \<Rightarrow> u32 \<Rightarrow> string \<Rightarrow> string \<Rightarrow> u32 list \<Rightarrow> MigrationInspection" where
  "sample_inspection applied candidate applied_history candidate_history todo =
     \<lparr>mi_schema = MIGRATION_INSPECTION_SCHEMA, applied_schema_version = applied,
      candidate_schema_version = candidate, applied_history_sha256 = applied_history,
      candidate_history_sha256 = candidate_history, pending = map sample_pending todo\<rparr>"

definition sample_preflight :: MigrationPreflight where
  "sample_preflight =
     \<lparr>current_inspection = sample_inspection 4 4 (replicate 64 (CHR ''b'')) (replicate 64 (CHR ''b'')) [],
      candidate_inspection = sample_inspection 4 6 (replicate 64 (CHR ''b'')) (replicate 64 (CHR ''c'')) [5, 6]\<rparr>"

definition sample_progress :: MigrationInspection where
  "sample_progress = sample_inspection 5 6 (replicate 64 (CHR ''d'')) (replicate 64 (CHR ''c'')) [6]"

lemma sample_history_ok: "is_lower_hex (CHR ''a'')" "is_lower_hex (CHR ''b'')" "is_lower_hex (CHR ''c'')"
  "is_lower_hex (CHR ''d'')" "valid_identifier ''add_column''"
  by (simp_all add: byte_defs valid_identifier_def)

lemmas sample_migration_simps = sample_history_ok migration_valid_defs sample_preflight_def sample_progress_def
  sample_inspection_def sample_pending_def PendingMigration_valid_at_def saturating_sub_def u32_try_from_def
  checked_add_def ends_with_def

lemma sample_preflight_valid: "MigrationPreflight_valid sample_preflight"
  by (simp add: sample_migration_simps)

theorem accepted_progress_is_a_prefix_witness:
  "pending sample_progress = drop (steps_done sample_preflight sample_progress)
     (pending (candidate_inspection sample_preflight))"
proof -
  have "MigrationPreflight_accepts_progress sample_preflight sample_progress"
    by (simp add: sample_migration_simps)
  from accepted_progress_is_a_prefix [OF this] show ?thesis by blast
qed

end
