(* ===== verification/Preparation.thy ===== *)
theory Preparation
  imports Online Migration
begin

text \<open>
  Durable preparation before candidate startup (\<open>upgrade-core/src/preparation.rs\<close> with
  \<open>preparation/startup.rs\<close> and \<open>preparation/partial.rs\<close>): the intent, the startup budget, complete
  and partial activations, the journal with its operations forward and into cancellation, its
  succession rule and the handoff to the online cutover. Every operation returns the successor
  record or nothing, as in the code.
\<close>

section \<open>Intent\<close>

record PreparationIntent =
  pi_job :: MaintenanceJob
  pi_previous :: ActiveReleaseSlot
  pi_previous_process :: RuntimeSnapshot
  pi_previous_runner_process :: ServiceInvocation
  candidate_manifest_sha256 :: string
  migrations :: MigrationPreflight
  pi_proxy :: ProxySnapshot
  pi_clock :: UpgradeClock

fun is_upgrade :: "MaintenanceOperation \<Rightarrow> bool" where
  "is_upgrade (OpUpgrade _ _) = True"
| "is_upgrade (OpDeleteVersion _) = False"

text \<open>
  Release paths are compared as strings. The code compares paths by their components, which
  identifies spellings such as a doubled separator; it can only refuse more intents than here.
\<close>

definition PreparationIntent_valid :: "PreparationIntent \<Rightarrow> bool" where
  "PreparationIntent_valid i \<longleftrightarrow>
     (let previous = pi_previous_process i; job = pi_job i in
      MigrationPreflight_valid (migrations i)
      \<and> is_ok (MaintenanceJob_validate job)
      \<and> mj_status job = StartingCandidate
      \<and> mj_upgrade_mode job = Some BlueGreen
      \<and> mj_runner_was_running job = Some True
      \<and> is_upgrade (mj_operation job)
      \<and> is_some_and (mj_previous_release job) path_is_absolute
      \<and> is_some_and (mj_candidate_release job) (\<lambda>path.
           path_is_absolute path \<and> Some path \<noteq> mj_previous_release job)
      \<and> is_some_and (mj_target_version job) (\<lambda>v. v \<noteq> mj_current_version job)
      \<and> is_ok (ActiveReleaseSlot_validate (pi_previous i))
      \<and> as_schema (pi_previous i) = ACTIVE_SLOT_RUNTIME_SCHEMA
      \<and> as_version (pi_previous i) = mj_current_version job
      \<and> same_process previous previous
      \<and> valid_identifier (installation_id previous)
      \<and> rs_slot previous = as_slot (pi_previous i)
      \<and> product_version previous = as_version (pi_previous i)
      \<and> accepting (lifecycle previous)
      \<and> \<not> stopping (lifecycle previous)
      \<and> revision (lifecycle previous) < - 1
      \<and> ServiceInvocation_valid (pi_previous_runner_process i)
      \<and> is_some_and (service previous) (\<lambda>control. ServiceInvocation_valid control
           \<and> process_id control \<noteq> process_id (pi_previous_runner_process i)
           \<and> invocation_id control \<noteq> invocation_id (pi_previous_runner_process i))
      \<and> valid_checksum (candidate_manifest_sha256 i)
      \<and> ps_slot (pi_proxy i) = as_slot (pi_previous i)
      \<and> valid_checksum (configuration_sha256 (pi_proxy i))
      \<and> 0 < stream_close_delay_ms (pi_proxy i)
      \<and> valid_identifier (boot_id (pi_clock i))
      \<and> checked_add (uptime_ms (pi_clock i)) (stream_close_delay_ms (pi_proxy i)) \<noteq> None)"

definition PreparationIntent_matches_job :: "PreparationIntent \<Rightarrow> MaintenanceJob \<Rightarrow> bool" where
  "PreparationIntent_matches_job i job \<longleftrightarrow> PreparationIntent_valid i
     \<and> is_ok (MaintenanceJob_validate job)
     \<and> mj_id (pi_job i) = mj_id job
     \<and> mj_requested_by (pi_job i) = mj_requested_by job
     \<and> mj_operation (pi_job i) = mj_operation job
     \<and> mj_upgrade_mode (pi_job i) = mj_upgrade_mode job
     \<and> mj_current_version (pi_job i) = mj_current_version job
     \<and> mj_target_version (pi_job i) = mj_target_version job
     \<and> mj_previous_release (pi_job i) = mj_previous_release job
     \<and> mj_candidate_release (pi_job i) = mj_candidate_release job
     \<and> mj_runner_was_running (pi_job i) = mj_runner_was_running job"

definition observes_previous ::
    "PreparationIntent \<Rightarrow> RuntimeSnapshot \<Rightarrow> ServiceInvocation \<Rightarrow> UpgradeClock \<Rightarrow> bool" where
  "observes_previous i live runner clk \<longleftrightarrow> PreparationIntent_valid i
     \<and> same_process live (pi_previous_process i)
     \<and> accepting (lifecycle live) \<and> \<not> stopping (lifecycle live)
     \<and> revision (lifecycle live) = revision (lifecycle (pi_previous_process i))
     \<and> runner = pi_previous_runner_process i
     \<and> boot_id clk = boot_id (pi_clock i)
     \<and> uptime_ms (pi_clock i) \<le> uptime_ms clk"

section \<open>Startup and activation\<close>

record CandidateStartup =
  material_sha256 :: string
  cs_clock :: UpgradeClock

definition BUDGET_MS :: u64 where
  "BUDGET_MS = 90000"

definition CandidateStartup_valid_for :: "CandidateStartup \<Rightarrow> PreparationIntent \<Rightarrow> bool" where
  "CandidateStartup_valid_for s i \<longleftrightarrow> valid_checksum (material_sha256 s)
     \<and> boot_id (cs_clock s) = boot_id (pi_clock i)
     \<and> uptime_ms (pi_clock i) \<le> uptime_ms (cs_clock s)
     \<and> checked_add (uptime_ms (cs_clock s)) BUDGET_MS \<noteq> None"

definition accepts_observation :: "CandidateStartup \<Rightarrow> string \<Rightarrow> UpgradeClock \<Rightarrow> bool" where
  "accepts_observation s material clk \<longleftrightarrow> valid_checksum (material_sha256 s)
     \<and> material_sha256 s = material
     \<and> boot_id clk = boot_id (cs_clock s)
     \<and> uptime_ms (cs_clock s) \<le> uptime_ms clk
     \<and> is_some_and (checked_add (uptime_ms (cs_clock s)) BUDGET_MS) (\<lambda>fin. uptime_ms clk < fin)"

record CandidateActivation =
  ca_control :: RuntimeSnapshot
  ca_runner :: ServiceInvocation

definition valid_control :: "RuntimeSnapshot \<Rightarrow> PreparationIntent \<Rightarrow> ActiveReleaseSlot \<Rightarrow> bool" where
  "valid_control control i candidate \<longleftrightarrow> same_process control control
     \<and> valid_identifier (instance_id control)
     \<and> installation_id control = installation_id (pi_previous_process i)
     \<and> instance_id control \<noteq> instance_id (pi_previous_process i)
     \<and> rs_slot control = as_slot candidate
     \<and> product_version control = as_version candidate
     \<and> \<not> accepting (lifecycle control) \<and> \<not> stopping (lifecycle control)
     \<and> in_flight (lifecycle control) = 0
     \<and> revision (lifecycle control) < - 1"

definition CandidateActivation_valid_for ::
    "CandidateActivation \<Rightarrow> PreparationIntent \<Rightarrow> ActiveReleaseSlot \<Rightarrow> bool" where
  "CandidateActivation_valid_for a i candidate =
     (case (service (ca_control a), service (pi_previous_process i)) of
        (Some s, Some previous) \<Rightarrow>
          valid_control (ca_control a) i candidate
          \<and> distinct_services [] [previous, pi_previous_runner_process i, s, ca_runner a]
      | _ \<Rightarrow> False)"

record PartialCandidateActivation =
  pa_control :: "RuntimeSnapshot option"
  pa_runner :: "ServiceInvocation option"

definition PartialCandidateActivation_valid_for ::
    "PartialCandidateActivation \<Rightarrow> PreparationIntent \<Rightarrow> ActiveReleaseSlot \<Rightarrow> bool" where
  "PartialCandidateActivation_valid_for a i candidate =
     (if pa_control a \<noteq> None \<and> pa_runner a \<noteq> None then False
      else case service (pi_previous_process i) of
             None \<Rightarrow> False
           | Some previous \<Rightarrow>
              (let services = [previous, pi_previous_runner_process i];
                   runners = (case pa_runner a of None \<Rightarrow> [] | Some r \<Rightarrow> [r]) in
               case pa_control a of
                 None \<Rightarrow> distinct_services [] (services @ runners)
               | Some control \<Rightarrow>
                  valid_control control i candidate
                  \<and> (case service control of
                       None \<Rightarrow> False
                     | Some s \<Rightarrow> distinct_services [] (services @ [s] @ runners))))"

section \<open>Journal\<close>

datatype PreparationAbortPhase =
    CapturedForCancellation
  | Claimed
  | AbortRetiringCandidate
  | Finalizing
  | AbortComplete

fun PreparationAbortPhase_revision :: "PreparationAbortPhase \<Rightarrow> bool \<Rightarrow> u64 option" where
  "PreparationAbortPhase_revision CapturedForCancellation activated = (if activated then Some 3 else None)"
| "PreparationAbortPhase_revision Claimed activated = (if activated then Some 4 else Some 2)"
| "PreparationAbortPhase_revision AbortRetiringCandidate activated = (if activated then Some 5 else None)"
| "PreparationAbortPhase_revision Finalizing activated = (if activated then Some 6 else Some 3)"
| "PreparationAbortPhase_revision AbortComplete activated = (if activated then Some 7 else Some 4)"

record PreparationJournal =
  pj_schema :: string
  pj_revision :: u64
  pj_intent :: PreparationIntent
  pj_candidate :: "ActiveReleaseSlot option"
  pj_startup :: "CandidateStartup option"
  pj_activation :: "CandidateActivation option"
  pj_partial_activation :: "PartialCandidateActivation option"
  pj_abort :: "PreparationAbortPhase option"

definition PREPARATION_SCHEMA :: string where
  "PREPARATION_SCHEMA = ''aster.online-preparation.v8''"

definition PreparationJournal_create :: "PreparationIntent \<Rightarrow> PreparationJournal option" where
  "PreparationJournal_create i = then_some (PreparationIntent_valid i)
     \<lparr>pj_schema = PREPARATION_SCHEMA, pj_revision = 0, pj_intent = i, pj_candidate = None,
      pj_startup = None, pj_activation = None, pj_partial_activation = None, pj_abort = None\<rparr>"

definition has_capture :: "PreparationJournal \<Rightarrow> bool" where
  "has_capture j \<longleftrightarrow> pj_activation j \<noteq> None \<or> pj_partial_activation j \<noteq> None"

definition abort_revision :: "PreparationJournal \<Rightarrow> PreparationAbortPhase \<Rightarrow> u64 option" where
  "abort_revision j phase =
     Option.bind (PreparationAbortPhase_revision phase (has_capture j))
       (\<lambda>r. checked_sub r (if pj_candidate j = None then 1 else 0))"

definition base_revision :: "PreparationJournal \<Rightarrow> u64" where
  "base_revision j =
     (if pj_abort j \<noteq> None
      then (if has_capture j then 3 else if pj_candidate j \<noteq> None then 1 else 0)
      else pj_revision j)"

definition candidate_valid :: "PreparationJournal \<Rightarrow> ActiveReleaseSlot \<Rightarrow> bool" where
  "candidate_valid j candidate \<longleftrightarrow>
     1 \<le> base_revision j \<and> base_revision j \<le> 3
     \<and> is_ok (ActiveReleaseSlot_validate candidate)
     \<and> as_schema candidate = ACTIVE_SLOT_RUNTIME_SCHEMA
     \<and> as_slot candidate = ReleaseSlot_other (as_slot (pi_previous (pj_intent j)))
     \<and> Some (as_version candidate) = mj_target_version (pi_job (pj_intent j))
     \<and> is_some_and (as_local_runner candidate) (\<lambda>runner.
          ar_manifest_sha256 runner = candidate_manifest_sha256 (pj_intent j)
          \<and> is_some_and (as_local_runner (pi_previous (pj_intent j)))
              (\<lambda>old. ar_runner_id old \<noteq> ar_runner_id runner))"

definition PreparationJournal_valid :: "PreparationJournal \<Rightarrow> bool" where
  "PreparationJournal_valid j \<longleftrightarrow>
     pj_schema j = PREPARATION_SCHEMA
     \<and> is_none_or (pj_abort j) (\<lambda>phase. Some (pj_revision j) = abort_revision j phase
          \<and> (pj_startup j = None \<or> has_capture j))
     \<and> PreparationIntent_valid (pj_intent j)
     \<and> is_none_or (pj_partial_activation j) (\<lambda>partial. pj_abort j \<noteq> None \<and> pj_activation j = None
          \<and> is_some_and (pj_candidate j) (\<lambda>candidate.
               PartialCandidateActivation_valid_for partial (pj_intent j) candidate))
     \<and> (case pj_candidate j of
          None \<Rightarrow> base_revision j = 0 \<and> pj_startup j = None \<and> pj_activation j = None
        | Some candidate \<Rightarrow> candidate_valid j candidate)
     \<and> (case (pj_startup j, pj_activation j) of
          (None, None) \<Rightarrow> base_revision j \<le> 1
        | (Some startup, None) \<Rightarrow>
            base_revision j = (if pj_partial_activation j \<noteq> None then 3 else 2)
            \<and> CandidateStartup_valid_for startup (pj_intent j)
        | (Some startup, Some activation) \<Rightarrow>
            base_revision j = 3 \<and> CandidateStartup_valid_for startup (pj_intent j)
            \<and> is_some_and (pj_candidate j) (\<lambda>candidate.
                 CandidateActivation_valid_for activation (pj_intent j) candidate)
        | (None, Some _) \<Rightarrow> False)"

definition valid_or_none :: "PreparationJournal \<Rightarrow> PreparationJournal option" where
  "valid_or_none j = then_some (PreparationJournal_valid j) j"

section \<open>Operations\<close>

definition provisioned :: "PreparationJournal \<Rightarrow> ActiveReleaseSlot \<Rightarrow> PreparationJournal option" where
  "provisioned j candidate =
     (if \<not> PreparationJournal_valid j \<or> pj_abort j \<noteq> None \<or> pj_startup j \<noteq> None
         \<or> is_some_and (pj_candidate j) (\<lambda>saved. saved \<noteq> candidate)
      then None
      else valid_or_none
        \<lparr>pj_schema = pj_schema j, pj_revision = 1, pj_intent = pj_intent j, pj_candidate = Some candidate,
         pj_startup = None, pj_activation = None, pj_partial_activation = None, pj_abort = None\<rparr>)"

definition starting :: "PreparationJournal \<Rightarrow> CandidateStartup \<Rightarrow> PreparationJournal option" where
  "starting j startup =
     (if \<not> PreparationJournal_valid j \<or> pj_abort j \<noteq> None \<or> pj_revision j = 0 \<or> 2 < pj_revision j
         \<or> is_some_and (pj_startup j) (\<lambda>saved. saved \<noteq> startup)
      then None
      else valid_or_none (j\<lparr>pj_revision := 2, pj_startup := Some startup\<rparr>))"

definition started ::
    "PreparationJournal \<Rightarrow> CandidateActivation \<Rightarrow> string \<Rightarrow> UpgradeClock \<Rightarrow> PreparationJournal option" where
  "started j activation material clk =
     (if \<not> PreparationJournal_valid j \<or> pj_abort j \<noteq> None \<or> pj_revision j < 2 then None
      else case pj_startup j of
             None \<Rightarrow> None
           | Some startup \<Rightarrow>
              if \<not> accepts_observation startup material clk
                 \<or> is_some_and (pj_activation j) (\<lambda>saved. saved \<noteq> activation)
              then None
              else valid_or_none (j\<lparr>pj_revision := 3, pj_activation := Some activation\<rparr>))"

definition aborting :: "PreparationJournal \<Rightarrow> PreparationJournal option" where
  "aborting j =
     (if \<not> PreparationJournal_valid j \<or> (pj_startup j \<noteq> None \<and> pj_activation j = None) \<or> pj_abort j \<noteq> None
      then None
      else Option.bind (abort_revision j Claimed) (\<lambda>r.
           valid_or_none (j\<lparr>pj_revision := r, pj_abort := Some Claimed\<rparr>)))"

definition cancel_observed_startup ::
    "PreparationJournal \<Rightarrow> CandidateActivation \<Rightarrow> string \<Rightarrow> UpgradeClock \<Rightarrow> PreparationJournal option" where
  "cancel_observed_startup j activation material clk =
     Option.bind (pj_startup j) (\<lambda>startup.
     if \<not> PreparationJournal_valid j \<or> pj_abort j \<noteq> None \<or> pj_activation j \<noteq> None
        \<or> material_sha256 startup \<noteq> material
        \<or> boot_id clk \<noteq> boot_id (cs_clock startup)
        \<or> uptime_ms clk < uptime_ms (cs_clock startup)
     then None
     else Option.bind (PreparationAbortPhase_revision CapturedForCancellation True) (\<lambda>r.
          valid_or_none (j\<lparr>pj_revision := r, pj_activation := Some activation,
            pj_abort := Some CapturedForCancellation\<rparr>)))"

definition cancel_partial_startup ::
    "PreparationJournal \<Rightarrow> PartialCandidateActivation \<Rightarrow> string \<Rightarrow> UpgradeClock \<Rightarrow> PreparationJournal option" where
  "cancel_partial_startup j observed material clk =
     Option.bind (pj_startup j) (\<lambda>startup.
     if \<not> PreparationJournal_valid j \<or> pj_abort j \<noteq> None \<or> has_capture j
        \<or> material_sha256 startup \<noteq> material
        \<or> boot_id clk \<noteq> boot_id (cs_clock startup)
        \<or> uptime_ms clk < uptime_ms (cs_clock startup)
     then None
     else Option.bind (PreparationAbortPhase_revision CapturedForCancellation True) (\<lambda>r.
          valid_or_none (j\<lparr>pj_revision := r, pj_partial_activation := Some observed,
            pj_abort := Some CapturedForCancellation\<rparr>)))"

definition retiring_candidate :: "PreparationJournal \<Rightarrow> RuntimeSnapshot \<Rightarrow> PreparationJournal option" where
  "retiring_candidate j observed =
     (if \<not> PreparationJournal_valid j \<or> pj_abort j \<noteq> Some Claimed then None
      else case pj_activation j of
             None \<Rightarrow> None
           | Some activation \<Rightarrow>
              if ca_control activation \<noteq> observed then None
              else Option.bind (PreparationAbortPhase_revision AbortRetiringCandidate True) (\<lambda>r.
                   valid_or_none (j\<lparr>pj_revision := r, pj_abort := Some AbortRetiringCandidate\<rparr>)))"

definition retiring_partial_candidate ::
    "PreparationJournal \<Rightarrow> PartialCandidateActivation \<Rightarrow> PreparationJournal option" where
  "retiring_partial_candidate j observed =
     (if \<not> PreparationJournal_valid j \<or> pj_abort j \<noteq> Some Claimed
         \<or> pj_partial_activation j \<noteq> Some observed
      then None
      else Option.bind (PreparationAbortPhase_revision AbortRetiringCandidate True) (\<lambda>r.
           valid_or_none (j\<lparr>pj_revision := r, pj_abort := Some AbortRetiringCandidate\<rparr>)))"

definition abort_drained :: "PreparationJournal \<Rightarrow> RuntimeSnapshot option" where
  "abort_drained j =
     (if PreparationJournal_valid j
         \<and> pj_abort j \<in> {Some AbortRetiringCandidate, Some Finalizing, Some AbortComplete}
      then map_option ca_control (pj_activation j) else None)"

definition advance_abort :: "PreparationJournal \<Rightarrow> PreparationJournal option" where
  "advance_abort j =
     (if \<not> PreparationJournal_valid j then None
      else Option.bind (pj_abort j) (\<lambda>phase.
           Option.bind
             (case phase of
                CapturedForCancellation \<Rightarrow> Some Claimed
              | Claimed \<Rightarrow> if \<not> has_capture j then Some Finalizing else None
              | AbortRetiringCandidate \<Rightarrow> Some Finalizing
              | Finalizing \<Rightarrow> Some AbortComplete
              | AbortComplete \<Rightarrow> None) (\<lambda>next_phase.
           Option.bind (abort_revision j next_phase) (\<lambda>r.
           valid_or_none (j\<lparr>pj_revision := r, pj_abort := Some next_phase\<rparr>)))))"

section \<open>Succession and handoff\<close>

definition abort_follows :: "PreparationJournal \<Rightarrow> PreparationJournal \<Rightarrow> bool" where
  "abort_follows j p =
     (case (pj_abort p, pj_abort j) of
        (None, _) \<Rightarrow> True
      | (Some old, Some new) \<Rightarrow>
          pj_candidate j = pj_candidate p \<and> pj_startup j = pj_startup p
          \<and> pj_activation j = pj_activation p
          \<and> pj_partial_activation j = pj_partial_activation p
          \<and> (old = new \<or> Option.bind (abort_revision p old) (\<lambda>v. checked_add v 1) = abort_revision j new)
      | (Some _, None) \<Rightarrow> False)"

definition PreparationJournal_follows :: "PreparationJournal \<Rightarrow> PreparationJournal option \<Rightarrow> bool" where
  "PreparationJournal_follows j prev \<longleftrightarrow> PreparationJournal_valid j
     \<and> (case prev of
          None \<Rightarrow> pj_revision j = 0 \<and> pj_startup j = None \<and> pj_activation j = None
        | Some p \<Rightarrow> PreparationJournal_valid p \<and> pj_intent j = pj_intent p
            \<and> abort_follows j p
            \<and> is_none_or (pj_candidate p) (\<lambda>saved. pj_candidate j = Some saved)
            \<and> is_none_or (pj_startup p) (\<lambda>saved. pj_startup j = Some saved)
            \<and> is_none_or (pj_partial_activation p) (\<lambda>saved. pj_partial_activation j = Some saved)
            \<and> is_none_or (pj_activation p) (\<lambda>saved. pj_activation j = Some saved)
            \<and> (j = p \<or> checked_add (pj_revision p) 1 = Some (pj_revision j)))"

definition permits_handoff :: "PreparationJournal \<Rightarrow> OnlinePlan \<Rightarrow> bool" where
  "permits_handoff j plan \<longleftrightarrow> PreparationJournal_valid j \<and> pj_abort j = None \<and> OnlinePlan_valid plan
     \<and> is_some_and (pj_activation j) (\<lambda>activation.
          ca_control activation = candidate_process plan \<and> ca_runner activation = candidate_runner_process plan)
     \<and> is_some_and (pj_startup j) (\<lambda>startup.
          accepts_observation startup (material_sha256 startup) (plan_clock plan))
     \<and> pj_candidate j = Some (candidate_slot plan)
     \<and> job_id plan = mj_id (pi_job (pj_intent j))
     \<and> previous_slot plan = pi_previous (pj_intent j)
     \<and> observes_previous (pj_intent j) (previous_process plan) (previous_runner_process plan) (plan_clock plan)
     \<and> re_manifest_sha256 (readiness plan) = candidate_manifest_sha256 (pj_intent j)
     \<and> proxy plan = pi_proxy (pj_intent j)"

section \<open>Operations are lawful successors\<close>

lemma valid_or_none_eq_Some: "valid_or_none j = Some j' \<longleftrightarrow> PreparationJournal_valid j \<and> j' = j"
  by (auto simp: valid_or_none_def)

lemma unabortedD:
  assumes "PreparationJournal_valid j" and "pj_abort j = None"
  shows "pj_partial_activation j = None"
    and "pj_candidate j = None \<Longrightarrow> pj_revision j = 0 \<and> pj_startup j = None \<and> pj_activation j = None"
    and "pj_candidate j \<noteq> None \<Longrightarrow> pj_startup j = None \<Longrightarrow> pj_revision j = 1 \<and> pj_activation j = None"
    and "pj_startup j \<noteq> None \<Longrightarrow> pj_activation j = None \<Longrightarrow> pj_revision j = 2"
    and "pj_activation j \<noteq> None \<Longrightarrow> pj_revision j = 3 \<and> pj_startup j \<noteq> None"
proof -
  show partial: "pj_partial_activation j = None"
    using assms by (cases "pj_partial_activation j") (auto simp: PreparationJournal_valid_def)
  show "pj_candidate j = None \<Longrightarrow> pj_revision j = 0 \<and> pj_startup j = None \<and> pj_activation j = None"
    using assms by (simp add: PreparationJournal_valid_def base_revision_def)
  show "pj_candidate j \<noteq> None \<Longrightarrow> pj_startup j = None \<Longrightarrow> pj_revision j = 1 \<and> pj_activation j = None"
    using assms
    by (cases "pj_activation j")
       (auto simp: PreparationJournal_valid_def base_revision_def candidate_valid_def intro: antisym)
  show "pj_startup j \<noteq> None \<Longrightarrow> pj_activation j = None \<Longrightarrow> pj_revision j = 2"
    and "pj_activation j \<noteq> None \<Longrightarrow> pj_revision j = 3 \<and> pj_startup j \<noteq> None"
    using assms partial
    by (auto simp: PreparationJournal_valid_def base_revision_def split: option.splits)
qed

lemma abortedD:
  assumes "PreparationJournal_valid j" and "pj_abort j = Some phase"
  shows "abort_revision j phase = Some (pj_revision j)"
    and "pj_candidate j = None \<Longrightarrow> \<not> has_capture j"
  using assms
  by (auto simp: PreparationJournal_valid_def has_capture_def is_none_or_iff)

datatype prep_op =
    Provisioned ActiveReleaseSlot
  | Starting CandidateStartup
  | Started CandidateActivation string UpgradeClock
  | Aborting
  | CancelObserved CandidateActivation string UpgradeClock
  | CancelPartial PartialCandidateActivation string UpgradeClock
  | RetiringObserved RuntimeSnapshot
  | RetiringPartial PartialCandidateActivation
  | AdvanceAbort

fun prep_apply :: "PreparationJournal \<Rightarrow> prep_op \<Rightarrow> PreparationJournal option" where
  "prep_apply j (Provisioned c) = provisioned j c"
| "prep_apply j (Starting s) = starting j s"
| "prep_apply j (Started a m c) = started j a m c"
| "prep_apply j Aborting = aborting j"
| "prep_apply j (CancelObserved a m c) = cancel_observed_startup j a m c"
| "prep_apply j (CancelPartial a m c) = cancel_partial_startup j a m c"
| "prep_apply j (RetiringObserved s) = retiring_candidate j s"
| "prep_apply j (RetiringPartial a) = retiring_partial_candidate j a"
| "prep_apply j AdvanceAbort = advance_abort j"

lemma provisioned_follows:
  assumes "provisioned j c = Some j'"
  shows "PreparationJournal_follows j' (Some j)"
proof -
  have v: "PreparationJournal_valid j" "pj_abort j = None" "pj_startup j = None"
      "PreparationJournal_valid j'" "is_none_or (pj_candidate j) (\<lambda>saved. saved = c)"
      "j' = \<lparr>pj_schema = pj_schema j, pj_revision = 1, pj_intent = pj_intent j, pj_candidate = Some c,
         pj_startup = None, pj_activation = None, pj_partial_activation = None, pj_abort = None\<rparr>"
    using assms
    by (auto simp: provisioned_def valid_or_none_eq_Some is_none_or_iff is_some_and_iff split: if_splits)
  note u = unabortedD [OF v(1,2)]
  have "j' = j \<or> checked_add (pj_revision j) 1 = Some (pj_revision j')"
  proof (cases "pj_candidate j")
    case None
    with u(2) v(6) show ?thesis by (simp add: checked_add_def)
  next
    case (Some c')
    with u v show ?thesis by (intro disjI1, cases j) auto
  qed
  moreover have "pj_activation j = None" using u(5) v(3) by (cases "pj_activation j") auto
  ultimately show ?thesis
    using v u(1) by (auto simp: PreparationJournal_follows_def abort_follows_def is_none_or_iff)
qed

lemma starting_follows:
  assumes "starting j s = Some j'"
  shows "PreparationJournal_follows j' (Some j)"
proof -
  have v: "PreparationJournal_valid j" "pj_abort j = None" "pj_revision j \<noteq> 0" "\<not> 2 < pj_revision j"
      "PreparationJournal_valid j'" "is_none_or (pj_startup j) (\<lambda>saved. saved = s)"
      "j' = j\<lparr>pj_revision := 2, pj_startup := Some s\<rparr>"
    using assms
    by (auto simp: starting_def valid_or_none_eq_Some is_none_or_iff is_some_and_iff split: if_splits)
  note u = unabortedD [OF v(1,2)]
  have act: "pj_activation j = None" using u(5) v(4) by (cases "pj_activation j") auto
  have "j' = j \<or> checked_add (pj_revision j) 1 = Some (pj_revision j')"
  proof (cases "pj_startup j")
    case None
    then have "pj_revision j = 1" using u(2,3) v(3) by (cases "pj_candidate j") auto
    with v(7) show ?thesis by (simp add: checked_add_def)
  next
    case (Some s')
    with u(4) act v(6,7) show ?thesis by simp
  qed
  with v u(1) show ?thesis
    by (auto simp: PreparationJournal_follows_def abort_follows_def is_none_or_iff)
qed

lemma started_follows:
  assumes "started j a m c = Some j'"
  shows "PreparationJournal_follows j' (Some j)"
proof -
  have v: "PreparationJournal_valid j" "pj_abort j = None" "PreparationJournal_valid j'"
      "pj_startup j \<noteq> None" "is_none_or (pj_activation j) (\<lambda>saved. saved = a)"
      "j' = j\<lparr>pj_revision := 3, pj_activation := Some a\<rparr>"
    using assms
    by (auto simp: started_def valid_or_none_eq_Some is_none_or_iff is_some_and_iff
        split: if_splits option.splits)
  note u = unabortedD [OF v(1,2)]
  have "j' = j \<or> checked_add (pj_revision j) 1 = Some (pj_revision j')"
  proof (cases "pj_activation j")
    case None
    with u(4) v(4,6) show ?thesis by (simp add: checked_add_def)
  next
    case (Some a')
    with u(5) v(5,6) show ?thesis by simp
  qed
  with v u(1) show ?thesis
    by (auto simp: PreparationJournal_follows_def abort_follows_def is_none_or_iff)
qed

lemma aborting_follows:
  assumes "aborting j = Some j'"
  shows "PreparationJournal_follows j' (Some j)"
proof -
  obtain r where v: "PreparationJournal_valid j" "pj_abort j = None" "PreparationJournal_valid j'"
      "pj_startup j = None \<or> pj_activation j \<noteq> None" "abort_revision j Claimed = Some r"
      "j' = j\<lparr>pj_revision := r, pj_abort := Some Claimed\<rparr>"
    using assms by (auto simp: aborting_def valid_or_none_eq_Some bind_eq_Some_conv split: if_splits)
  note u = unabortedD [OF v(1,2)]
  have "checked_add (pj_revision j) 1 = Some r"
  proof (cases "pj_activation j")
    case None
    with v(4,5) u show ?thesis
      by (cases "pj_candidate j")
         (auto simp: abort_revision_def has_capture_def checked_sub_def checked_add_def)
  next
    case (Some a)
    then have "pj_candidate j \<noteq> None" using u(2) by auto
    with Some v(5) u(5) show ?thesis
      by (auto simp: abort_revision_def has_capture_def checked_sub_def checked_add_def)
  qed
  with v u(1) show ?thesis
    by (auto simp: PreparationJournal_follows_def abort_follows_def)
qed

lemma cancel_observed_follows:
  assumes "cancel_observed_startup j a m c = Some j'"
  shows "PreparationJournal_follows j' (Some j)"
proof -
  have v: "PreparationJournal_valid j" "pj_abort j = None" "pj_activation j = None" "pj_startup j \<noteq> None"
      "PreparationJournal_valid j'"
      "j' = j\<lparr>pj_revision := 3, pj_activation := Some a, pj_abort := Some CapturedForCancellation\<rparr>"
    using assms
    by (auto simp: cancel_observed_startup_def valid_or_none_eq_Some bind_eq_Some_conv split: if_splits)
  note u = unabortedD [OF v(1,2)]
  have "checked_add (pj_revision j) 1 = Some 3" using u(4) v(3,4) by (simp add: checked_add_def)
  with v u(1) show ?thesis
    by (auto simp: PreparationJournal_follows_def abort_follows_def)
qed

lemma cancel_partial_follows:
  assumes "cancel_partial_startup j a m c = Some j'"
  shows "PreparationJournal_follows j' (Some j)"
proof -
  have v: "PreparationJournal_valid j" "pj_abort j = None" "pj_activation j = None" "pj_startup j \<noteq> None"
      "PreparationJournal_valid j'"
      "j' = j\<lparr>pj_revision := 3, pj_partial_activation := Some a, pj_abort := Some CapturedForCancellation\<rparr>"
    using assms
    by (auto simp: cancel_partial_startup_def valid_or_none_eq_Some bind_eq_Some_conv has_capture_def
        split: if_splits)
  note u = unabortedD [OF v(1,2)]
  have "checked_add (pj_revision j) 1 = Some 3" using u(4) v(3,4) by (simp add: checked_add_def)
  with v u(1) show ?thesis
    by (auto simp: PreparationJournal_follows_def abort_follows_def)
qed

text \<open>Inside a cancellation only the phase and the revision move.\<close>

lemma abort_step_follows:
  assumes "PreparationJournal_valid j" "pj_abort j = Some old"
    and "PreparationJournal_valid (j\<lparr>pj_revision := r, pj_abort := Some new\<rparr>)"
    and "abort_revision j new = Some r" and "checked_add (pj_revision j) 1 = Some r"
  shows "PreparationJournal_follows (j\<lparr>pj_revision := r, pj_abort := Some new\<rparr>) (Some j)"
proof -
  have "abort_revision (j\<lparr>pj_revision := r, pj_abort := Some new\<rparr>) new = Some r"
    using assms(4) by (simp add: abort_revision_def has_capture_def)
  with abortedD(1) [OF assms(1,2)] assms show ?thesis
    by (simp add: PreparationJournal_follows_def abort_follows_def)
qed

lemma retiring_follows:
  assumes "PreparationJournal_valid j" "pj_abort j = Some Claimed" "has_capture j"
    and "valid_or_none (j\<lparr>pj_revision := 5, pj_abort := Some AbortRetiringCandidate\<rparr>) = Some j'"
  shows "PreparationJournal_follows j' (Some j)"
proof -
  have "pj_candidate j \<noteq> None" using abortedD(2) [OF assms(1,2)] assms(3) by auto
  then have "abort_revision j AbortRetiringCandidate = Some 5" "pj_revision j = 4"
    using abortedD(1) [OF assms(1,2)] assms(3) by (auto simp: abort_revision_def checked_sub_def)
  then show ?thesis
    using assms abort_step_follows [OF assms(1,2), where r = 5 and new = AbortRetiringCandidate]
    by (auto simp: valid_or_none_eq_Some checked_add_def)
qed

lemma retiring_observed_follows:
  assumes "retiring_candidate j obs = Some j'"
  shows "PreparationJournal_follows j' (Some j)"
  using assms
  by (intro retiring_follows [of j])
     (auto simp: retiring_candidate_def has_capture_def split: if_splits option.splits)

lemma retiring_partial_follows:
  assumes "retiring_partial_candidate j obs = Some j'"
  shows "PreparationJournal_follows j' (Some j)"
  using assms
  by (intro retiring_follows [of j])
     (auto simp: retiring_partial_candidate_def has_capture_def split: if_splits)

lemma advance_abort_follows:
  assumes "advance_abort j = Some j'"
  shows "PreparationJournal_follows j' (Some j)"
proof -
  obtain old new r where v: "PreparationJournal_valid j" "pj_abort j = Some old"
      "(case old of CapturedForCancellation \<Rightarrow> Some Claimed
        | Claimed \<Rightarrow> if \<not> has_capture j then Some Finalizing else None
        | AbortRetiringCandidate \<Rightarrow> Some Finalizing
        | Finalizing \<Rightarrow> Some AbortComplete
        | AbortComplete \<Rightarrow> None) = Some new"
      "abort_revision j new = Some r" "PreparationJournal_valid j'"
      "j' = j\<lparr>pj_revision := r, pj_abort := Some new\<rparr>"
    using assms by (auto simp: advance_abort_def valid_or_none_eq_Some bind_eq_Some_conv split: if_splits)
  have "checked_add (pj_revision j) 1 = Some r"
    using v(3,4) abortedD [OF v(1,2)]
    by (cases old; cases "pj_candidate j"; cases "has_capture j")
       (auto simp: abort_revision_def checked_sub_def checked_add_def)
  with abort_step_follows [OF v(1,2)] v show ?thesis by simp
qed

lemma prep_apply_follows: "prep_apply j op = Some j' \<Longrightarrow> PreparationJournal_follows j' (Some j)"
  by (cases op)
     (auto intro: provisioned_follows starting_follows started_follows aborting_follows
       cancel_observed_follows cancel_partial_follows retiring_observed_follows
       retiring_partial_follows advance_abort_follows)

lemma capture_has_candidate:
  "PreparationJournal_valid j \<Longrightarrow> has_capture j \<Longrightarrow> pj_candidate j \<noteq> None"
  by (cases "pj_candidate j") (auto simp: PreparationJournal_valid_def has_capture_def is_none_or_iff)

lemma captured_revision:
  assumes "PreparationJournal_valid j" "has_capture j" "pj_abort j = Some phase"
  shows "PreparationAbortPhase_revision phase True = Some (pj_revision j)"
  using abortedD(1) [OF assms(1,3)] capture_has_candidate [OF assms(1,2)] assms(2)
  by (auto simp: abort_revision_def checked_sub_def split: bind_splits)

lemma unaborted_revision: "PreparationJournal_valid j \<Longrightarrow> pj_abort j = None \<Longrightarrow> unat (pj_revision j) \<le> 3"
  using unabortedD [of j] by (cases "pj_candidate j"; cases "pj_startup j"; cases "pj_activation j") auto

lemma abort_revision_bound: "abort_revision j phase = Some r \<Longrightarrow> unat r \<le> 7"
  by (cases phase; cases "has_capture j"; cases "pj_candidate j")
     (auto simp: abort_revision_def checked_sub_def split: if_splits)

interpretation preparation: journal_store PreparationJournal_valid PreparationJournal_follows
    "\<lambda>j. unat (pj_revision j)" pj_intent 7
proof
  fix j p prev
  show "PreparationJournal_follows j prev \<Longrightarrow> PreparationJournal_valid j"
    by (simp add: PreparationJournal_follows_def)
  show "PreparationJournal_follows j None \<Longrightarrow> unat (pj_revision j) = 0"
    by (simp add: PreparationJournal_follows_def)
  show "PreparationJournal_follows j (Some p) \<Longrightarrow> PreparationJournal_valid p \<and> pj_intent j = pj_intent p
      \<and> (j = p \<or> unat (pj_revision j) = Suc (unat (pj_revision p)))"
    by (auto simp: PreparationJournal_follows_def checked_simps)
  show "PreparationJournal_valid j \<Longrightarrow> unat (pj_revision j) \<le> 7"
    using unaborted_revision [of j] abortedD(1) [of j] abort_revision_bound
    by (cases "pj_abort j") fastforce+
qed

section \<open>A sample preparation\<close>

definition sample_job :: MaintenanceJob where
  "sample_job =
     \<lparr>mj_schema = MAINTENANCE_JOB_SCHEMA, mj_id = ''job'', mj_requested_by = ''admin'',
      mj_operation = OpUpgrade ''/archive'' (replicate 64 (CHR ''a'')), mj_status = StartingCandidate,
      mj_upgrade_mode = Some BlueGreen, mj_runner_was_running = Some True,
      mj_current_version = sample_release Blue, mj_target_version = Some (sample_release Green),
      mj_previous_release = Some ''/old'', mj_candidate_release = Some ''/new'', mj_message = [],
      mj_created_at = [], mj_updated_at = []\<rparr>"

definition sample_intent :: PreparationIntent where
  "sample_intent =
     \<lparr>pi_job = sample_job, pi_previous = sample_active_slot Blue,
      pi_previous_process = sample_runtime Blue True False 3 2,
      pi_previous_runner_process = previous_runner_process sample_plan,
      candidate_manifest_sha256 = replicate 64 (CHR ''b''), migrations = sample_preflight,
      pi_proxy = proxy sample_plan, pi_clock = \<lparr>boot_id = ''boot'', uptime_ms = 500\<rparr>\<rparr>"

definition sample_startup :: CandidateStartup where
  "sample_startup = \<lparr>material_sha256 = replicate 64 (CHR ''a''), cs_clock = \<lparr>boot_id = ''boot'', uptime_ms = 800\<rparr>\<rparr>"

definition sample_activation :: CandidateActivation where
  "sample_activation = \<lparr>ca_control = candidate_process sample_plan, ca_runner = candidate_runner_process sample_plan\<rparr>"

definition sample_record ::
    "u64 \<Rightarrow> ActiveReleaseSlot option \<Rightarrow> CandidateStartup option \<Rightarrow> CandidateActivation option
      \<Rightarrow> PreparationAbortPhase option \<Rightarrow> PreparationJournal" where
  "sample_record r c s a ab =
     \<lparr>pj_schema = PREPARATION_SCHEMA, pj_revision = r, pj_intent = sample_intent, pj_candidate = c,
      pj_startup = s, pj_activation = a, pj_partial_activation = None, pj_abort = ab\<rparr>"

definition sample_cancellation :: "PreparationJournal list" where
  "sample_cancellation =
     [sample_record 0 None None None None,
      sample_record 1 (Some (sample_active_slot Green)) None None None,
      sample_record 2 (Some (sample_active_slot Green)) (Some sample_startup) None None,
      sample_record 3 (Some (sample_active_slot Green)) (Some sample_startup) (Some sample_activation) None,
      sample_record 4 (Some (sample_active_slot Green)) (Some sample_startup) (Some sample_activation) (Some Claimed),
      sample_record 5 (Some (sample_active_slot Green)) (Some sample_startup) (Some sample_activation)
        (Some AbortRetiringCandidate),
      sample_record 6 (Some (sample_active_slot Green)) (Some sample_startup) (Some sample_activation) (Some Finalizing)]"

lemma sample_identifiers: "valid_identifier ''job''" "valid_identifier ''admin''" "valid_identifier ''boot''"
  "valid_identifier ''installation''" "valid_identifier ''green''" "path_is_absolute ''/archive''"
  "path_is_absolute ''/old''" "path_is_absolute ''/new''" "is_lower_hex (CHR ''e'')"
  by (simp_all add: valid_identifier_def byte_defs path_is_absolute_def)

lemma sample_job_valid: "MaintenanceJob_validate sample_job = Inr ()"
  using sample_release_ok [of Blue] sample_release_ok [of Green]
  by (simp add: MaintenanceJob_validate_def sample_job_def sample_identifiers sample_history_ok)

lemma sample_services: "distinct_services [] [sample_service Blue, previous_runner_process sample_plan,
    sample_service Green, candidate_runner_process sample_plan]"
  using sample_service_valid [of Blue] sample_service_valid [of Green]
  by (simp add: sample_plan_def sample_service.simps ServiceInvocation_valid_def byte_defs list_all_iff list_ex_iff
      word_gt_0)

lemma sample_runtime_fields:
  "installation_id (sample_runtime s a b r n) = ''installation''" "rs_slot (sample_runtime s a b r n) = s"
  "instance_id (sample_runtime s a b r n) = ReleaseSlot_id s" "service (sample_runtime s a b r n) = Some (sample_service s)"
  "product_version (sample_runtime s a b r n) = sample_release s"
  "lifecycle (sample_runtime s a b r n) =
     \<lparr>accepting = a, stopping = b, revision = r, in_flight = n, oldest_request_age_ms = 0\<rparr>"
  "same_process (sample_runtime s a b r n) (sample_runtime s a' b' r' n')"
  by (cases s; simp add: sample_runtime_def same_process_def)+

lemma sample_slot_fields:
  "as_schema (sample_active_slot s) = ACTIVE_SLOT_RUNTIME_SCHEMA" "as_slot (sample_active_slot s) = s"
  "as_version (sample_active_slot s) = sample_release s"
  "as_local_runner (sample_active_slot s) = Some \<lparr>ar_runner_id = ''runner_'' @ replicate 32 (sample_hex s),
     ar_manifest_sha256 = replicate 64 (sample_hex s)\<rparr>"
  by (simp_all add: sample_active_slot_def)

lemma sample_intent_valid: "PreparationIntent_valid sample_intent"
proof -
  have less: "(3 :: u64) < - 1" by code_simp
  have job: "mj_status sample_job = StartingCandidate" "mj_upgrade_mode sample_job = Some BlueGreen"
      "mj_runner_was_running sample_job = Some True" "is_upgrade (mj_operation sample_job)"
      "mj_previous_release sample_job = Some ''/old''" "mj_candidate_release sample_job = Some ''/new''"
      "mj_target_version sample_job = Some (sample_release Green)" "mj_current_version sample_job = sample_release Blue"
    by (simp_all add: sample_job_def)
  have proxy: "proxy sample_plan = \<lparr>ps_slot = Blue, configuration_sha256 = replicate 64 (CHR ''e''),
      stream_close_delay_ms = 900\<rparr>"
    by (simp add: sample_plan_def)
  have services: "ServiceInvocation_valid (sample_service Blue)"
      "ServiceInvocation_valid (previous_runner_process sample_plan)"
      "process_id (sample_service Blue) \<noteq> process_id (previous_runner_process sample_plan)"
      "invocation_id (sample_service Blue) \<noteq> invocation_id (previous_runner_process sample_plan)"
    using sample_services by auto
  show ?thesis
    using services
    by (simp add: PreparationIntent_valid_def sample_intent_def Let_def sample_preflight_valid sample_job_valid
        job sample_identifiers sample_active_slot_valid sample_slot_fields sample_runtime_fields less proxy
        sample_history_ok checked_add_def word_gt_0)
qed

lemma sample_processes:
  "previous_process sample_plan = sample_runtime Blue True False 3 2"
  "candidate_process sample_plan = sample_runtime Green False False 0 0"
  "previous_slot sample_plan = sample_active_slot Blue" "candidate_slot sample_plan = sample_active_slot Green"
  "plan_clock sample_plan = \<lparr>boot_id = ''boot'', uptime_ms = 1000\<rparr>" "job_id sample_plan = ''job''"
  "re_manifest_sha256 (readiness sample_plan) = replicate 64 (CHR ''b'')"
  by (simp_all add: sample_plan_def)

lemma sample_intent_fields:
  "pi_job sample_intent = sample_job" "pi_previous sample_intent = sample_active_slot Blue"
  "pi_previous_process sample_intent = sample_runtime Blue True False 3 2"
  "pi_previous_runner_process sample_intent = previous_runner_process sample_plan"
  "candidate_manifest_sha256 sample_intent = replicate 64 (CHR ''b'')" "pi_proxy sample_intent = proxy sample_plan"
  "pi_clock sample_intent = \<lparr>boot_id = ''boot'', uptime_ms = 500\<rparr>"
  "mj_target_version sample_job = Some (sample_release Green)" "mj_id sample_job = ''job''"
  by (simp_all add: sample_intent_def sample_job_def)

lemma sample_candidate_valid:
  assumes "1 \<le> base_revision (sample_record r c s a ab)" and "base_revision (sample_record r c s a ab) \<le> 3"
  shows "candidate_valid (sample_record r c s a ab) (sample_active_slot Green)"
proof -
  have "replicate 32 (CHR ''a'') \<noteq> replicate 32 (CHR ''b'')" by simp
  with assms show ?thesis
    by (simp add: candidate_valid_def sample_active_slot_valid sample_slot_fields)
       (simp add: sample_record_def sample_intent_fields sample_slot_fields)
qed

lemma sample_startup_valid: "CandidateStartup_valid_for sample_startup sample_intent"
  by (simp add: CandidateStartup_valid_for_def sample_startup_def sample_history_ok sample_intent_fields
      BUDGET_MS_def checked_add_def)

lemma sample_activation_valid: "CandidateActivation_valid_for sample_activation sample_intent (sample_active_slot Green)"
proof -
  have "(0 :: u64) < - 1" by code_simp
  then show ?thesis
    using sample_services
    by (simp add: CandidateActivation_valid_for_def valid_control_def sample_activation_def sample_processes
        sample_intent_fields sample_runtime_fields sample_slot_fields sample_identifiers del: distinct_services.simps)
qed

lemma sample_record_fields:
  "pj_schema (sample_record r c s a ab) = PREPARATION_SCHEMA" "pj_revision (sample_record r c s a ab) = r"
  "pj_intent (sample_record r c s a ab) = sample_intent" "pj_candidate (sample_record r c s a ab) = c"
  "pj_startup (sample_record r c s a ab) = s" "pj_activation (sample_record r c s a ab) = a"
  "pj_partial_activation (sample_record r c s a ab) = None" "pj_abort (sample_record r c s a ab) = ab"
  by (simp_all add: sample_record_def)

lemmas sample_valid_simps = PreparationJournal_valid_def sample_intent_valid sample_startup_valid
  sample_activation_valid base_revision_def has_capture_def abort_revision_def checked_sub_def
  sample_record_fields sample_candidate_valid

lemma sample_cancellation_valid: "list_all PreparationJournal_valid sample_cancellation"
  by (simp add: sample_cancellation_def sample_valid_simps)

lemma sample_cancellation_linked: "linked PreparationJournal_follows None sample_cancellation"
  using sample_cancellation_valid
  by (simp add: sample_cancellation_def PreparationJournal_follows_def abort_follows_def sample_record_fields
      abort_revision_def has_capture_def checked_sub_def checked_add_def)

definition sample_ready :: PreparationJournal where
  "sample_ready = sample_record 3 (Some (sample_active_slot Green)) (Some sample_startup) (Some sample_activation) None"

lemma sample_ready_valid: "PreparationJournal_valid sample_ready"
  using sample_cancellation_valid by (simp add: sample_cancellation_def sample_ready_def)

lemma sample_handoff: "permits_handoff sample_ready sample_plan"
proof -
  have "accepts_observation sample_startup (material_sha256 sample_startup) (plan_clock sample_plan)"
    by (simp add: accepts_observation_def sample_startup_def sample_history_ok sample_processes BUDGET_MS_def
        checked_add_def word_less_nat_alt word_le_nat_alt)
  moreover have "observes_previous sample_intent (previous_process sample_plan)
      (previous_runner_process sample_plan) (plan_clock sample_plan)"
    by (simp add: observes_previous_def sample_intent_valid sample_intent_fields sample_processes
        sample_runtime_fields word_le_nat_alt)
  ultimately show ?thesis
    using sample_ready_valid sample_plan_valid
    by (simp add: permits_handoff_def)
       (simp add: sample_ready_def sample_record_fields sample_activation_def sample_processes sample_intent_fields)
qed

section \<open>Results on preparation\<close>

text \<open>An operation that returns nothing leaves the saved record as it was.\<close>

fun prep_run :: "PreparationJournal \<Rightarrow> prep_op list \<Rightarrow> PreparationJournal" where
  "prep_run j [] = j"
| "prep_run j (op # ops) = prep_run (case prep_apply j op of None \<Rightarrow> j | Some j' \<Rightarrow> j') ops"

lemma prep_run_invariant:
  assumes "P j" and "\<And>a b. P a \<Longrightarrow> PreparationJournal_follows b (Some a) \<Longrightarrow> P b"
  shows "P (prep_run j ops)"
  using assms(1)
proof (induction ops arbitrary: j)
  case (Cons op ops)
  then show ?case using assms(2) prep_apply_follows by (auto split: option.split)
qed simp

definition keeps_evidence :: "PreparationJournal \<Rightarrow> PreparationJournal \<Rightarrow> bool" where
  "keeps_evidence j k \<longleftrightarrow> pj_intent k = pj_intent j
     \<and> is_none_or (pj_candidate j) (\<lambda>v. pj_candidate k = Some v)
     \<and> is_none_or (pj_startup j) (\<lambda>v. pj_startup k = Some v)
     \<and> is_none_or (pj_activation j) (\<lambda>v. pj_activation k = Some v)
     \<and> is_none_or (pj_partial_activation j) (\<lambda>v. pj_partial_activation k = Some v)
     \<and> unat (pj_revision j) \<le> unat (pj_revision k)"

lemma follows_keeps_evidence:
  assumes "keeps_evidence j a" and "PreparationJournal_follows b (Some a)"
  shows "keeps_evidence j b"
proof -
  have "unat (pj_revision a) \<le> unat (pj_revision b)" using preparation.follows_Some [OF assms(2)] by auto
  with assms show ?thesis
    by (simp add: keeps_evidence_def PreparationJournal_follows_def is_none_or_iff)
qed

lemma keeps_evidence_refl: "keeps_evidence j j"
  by (simp add: keeps_evidence_def is_none_or_iff)

text \<open>
  C22: whatever operations are applied to a valid preparation record, in whatever order and
  however often, the record stays valid, keeps its intent, and never replaces a saved candidate
  identity, startup, activation or partial activation; its revision only grows, up to seven.
\<close>

theorem preparation_evidence_kept:
  assumes "PreparationJournal_valid j"
  shows "PreparationJournal_valid (prep_run j ops) \<and> pj_intent (prep_run j ops) = pj_intent j
    \<and> is_none_or (pj_candidate j) (\<lambda>v. pj_candidate (prep_run j ops) = Some v)
    \<and> is_none_or (pj_startup j) (\<lambda>v. pj_startup (prep_run j ops) = Some v)
    \<and> is_none_or (pj_activation j) (\<lambda>v. pj_activation (prep_run j ops) = Some v)
    \<and> is_none_or (pj_partial_activation j) (\<lambda>v. pj_partial_activation (prep_run j ops) = Some v)
    \<and> unat (pj_revision j) \<le> unat (pj_revision (prep_run j ops)) \<and> unat (pj_revision (prep_run j ops)) \<le> 7"
proof -
  have "PreparationJournal_valid (prep_run j ops) \<and> keeps_evidence j (prep_run j ops)"
    by (rule prep_run_invariant [where P = "\<lambda>k. PreparationJournal_valid k \<and> keeps_evidence j k"])
       (use assms in \<open>auto simp: keeps_evidence_def [of j j] intro: preparation.follows_valid follows_keeps_evidence\<close>)
  then show ?thesis using preparation.valid_bound by (simp add: keeps_evidence_def)
qed

theorem preparation_evidence_kept_witness:
  "pj_activation (prep_run sample_ready [Aborting, AdvanceAbort]) = Some sample_activation"
proof -
  have "pj_activation sample_ready = Some sample_activation" by (simp add: sample_ready_def sample_record_fields)
  with preparation_evidence_kept [OF sample_ready_valid, of "[Aborting, AdvanceAbort]"] show ?thesis by simp
qed

text \<open>
  C31: a preparation that entered cancellation never leaves it: after any further operations it
  is still cancelled and permits no handoff to any plan.
\<close>

theorem cancelled_preparation_never_hands_off:
  assumes "pj_abort j \<noteq> None"
  shows "pj_abort (prep_run j ops) \<noteq> None \<and> \<not> permits_handoff (prep_run j ops) plan"
proof -
  have "pj_abort (prep_run j ops) \<noteq> None"
    by (rule prep_run_invariant [where P = "\<lambda>j. pj_abort j \<noteq> None", OF assms])
       (auto simp: PreparationJournal_follows_def abort_follows_def split: option.splits)
  then show ?thesis by (auto simp: permits_handoff_def)
qed

theorem cancelled_preparation_never_hands_off_witness:
  "\<not> permits_handoff (prep_run (sample_cancellation ! 4) [AdvanceAbort, Started sample_activation [] (plan_clock sample_plan)])
     sample_plan"
proof -
  have "pj_abort (sample_cancellation ! 4) \<noteq> None" by (simp add: sample_cancellation_def sample_record_fields)
  from cancelled_preparation_never_hands_off [OF this] show ?thesis by blast
qed

text \<open>
  Histories of a preparation. An operation is accepted when it returned a record, which is then
  the saved one; the record after a prefix of the history is \<open>prep_run j (take k ops)\<close>.
\<close>

definition prep_accepted :: "PreparationJournal \<Rightarrow> prep_op list \<Rightarrow> nat \<Rightarrow> bool" where
  "prep_accepted j ops k \<longleftrightarrow> k < length ops \<and> prep_apply (prep_run j (take k ops)) (ops ! k) \<noteq> None"

lemma prep_run_append: "prep_run j (xs @ ys) = prep_run (prep_run j xs) ys"
  by (induction xs arbitrary: j) auto

lemma prep_run_step:
  assumes "k < length ops"
  shows "prep_run j (take (Suc k) ops) = (case prep_apply (prep_run j (take k ops)) (ops ! k) of
      None \<Rightarrow> prep_run j (take k ops) | Some j' \<Rightarrow> j')"
  using assms by (simp add: take_Suc_conv_app_nth prep_run_append)

lemma prep_run_suffix: "prep_run j ops = prep_run (prep_run j (take k ops)) (drop k ops)"
  by (simp add: prep_run_append [symmetric])

lemma evidence_of_prefix: "keeps_evidence (prep_run j (take k ops)) (prep_run j ops)"
proof -
  have "keeps_evidence (prep_run j (take k ops)) (prep_run (prep_run j (take k ops)) (drop k ops))"
    by (rule prep_run_invariant [OF keeps_evidence_refl follows_keeps_evidence])
  then show ?thesis by (simp add: prep_run_suffix [symmetric])
qed

lemma evidence_between: "m \<le> k \<Longrightarrow> keeps_evidence (prep_run j (take m ops)) (prep_run j (take k ops))"
  using evidence_of_prefix [of j m "take k ops"] by (simp add: min_def)

lemma cancellation_persists: "pj_abort j \<noteq> None \<Longrightarrow> pj_abort (prep_run j ops) \<noteq> None"
  by (rule prep_run_invariant) (auto simp: PreparationJournal_follows_def abort_follows_def split: option.splits)

text \<open>What an accepted operation adds to the record, as long as the preparation is not cancelled.\<close>

lemma prep_apply_uncancelled:
  assumes "prep_apply j op = Some j'" and "pj_abort j' = None"
  shows "(\<exists>c. op = Provisioned c \<and> pj_candidate j' = Some c \<and> pj_startup j' = None \<and> pj_activation j' = None)
    \<or> (\<exists>s. op = Starting s \<and> pj_candidate j \<noteq> None \<and> pj_candidate j' = pj_candidate j
          \<and> pj_startup j' = Some s \<and> pj_activation j' = pj_activation j)
    \<or> (\<exists>a m clk s. op = Started a m clk \<and> pj_startup j = Some s \<and> accepts_observation s m clk
          \<and> pj_candidate j' = pj_candidate j \<and> pj_startup j' = pj_startup j \<and> pj_activation j' = Some a)"
proof (cases op)
  case (Provisioned c)
  with assms show ?thesis
    by (auto simp: provisioned_def valid_or_none_eq_Some split: if_splits)
next
  case (Starting s)
  with assms have "PreparationJournal_valid j" "pj_abort j = None" "pj_revision j \<noteq> 0"
    and "pj_candidate j' = pj_candidate j" "pj_startup j' = Some s" "pj_activation j' = pj_activation j"
    by (auto simp: starting_def valid_or_none_eq_Some split: if_splits)
  with unabortedD(2) [of j] Starting show ?thesis by blast
next
  case (Started a m clk)
  with assms show ?thesis
    by (auto simp: started_def valid_or_none_eq_Some split: if_splits option.splits)
qed (use assms in \<open>auto simp: aborting_def cancel_observed_startup_def cancel_partial_startup_def
    retiring_candidate_def retiring_partial_candidate_def advance_abort_def valid_or_none_eq_Some
    bind_eq_Some_conv split: if_splits option.splits\<close>)

text \<open>The step at which a part of the record first appears.\<close>

lemma first_saved:
  assumes "f (prep_run j (take 0 ops)) = None" and "f (prep_run j ops) \<noteq> None"
  obtains k where "k < length ops" "f (prep_run j (take k ops)) = None" "f (prep_run j (take (Suc k) ops)) \<noteq> None"
proof -
  have "\<exists>n. f (prep_run j (take n ops)) \<noteq> None" using assms(2) by (intro exI [of _ "length ops"]) simp
  then obtain n where n: "f (prep_run j (take n ops)) \<noteq> None" "\<forall>m<n. f (prep_run j (take m ops)) = None"
    using exists_least_iff [of "\<lambda>n. f (prep_run j (take n ops)) \<noteq> None"] by auto
  then have "n \<noteq> 0" using assms(1) by (cases n) auto
  then obtain k where "n = Suc k" by (cases n) auto
  with n have k: "f (prep_run j (take k ops)) = None" "f (prep_run j (take (Suc k) ops)) \<noteq> None" by auto
  then have "k < length ops" by (cases "k < length ops") auto
  with k that show ?thesis by blast
qed

lemma created_empty:
  assumes "PreparationJournal_create i = Some j"
  shows "pj_candidate j = None" "pj_startup j = None" "pj_activation j = None" "pj_intent j = i"
  using assms by (auto simp: PreparationJournal_create_def)

lemma evidenceD:
  assumes "keeps_evidence j k"
  shows "pj_candidate j = Some c \<Longrightarrow> pj_candidate k = Some c" "pj_startup j = Some s \<Longrightarrow> pj_startup k = Some s"
    "pj_activation j = Some a \<Longrightarrow> pj_activation k = Some a"
  using assms by (auto simp: keeps_evidence_def is_none_or_iff)

text \<open>Until a preparation is handed over, every accepted operation carried what the final record holds.\<close>

lemma uncancelled_prefix: "pj_abort (prep_run j ops) = None \<Longrightarrow> pj_abort (prep_run j (take k ops)) = None"
  using cancellation_persists [of "prep_run j (take k ops)" "drop k ops"] by (metis prep_run_suffix)

lemma changed_accepted:
  "k < length ops \<Longrightarrow> prep_run j (take (Suc k) ops) \<noteq> prep_run j (take k ops) \<Longrightarrow> prep_accepted j ops k"
  using prep_run_step [of k ops j] by (auto simp: prep_accepted_def split: option.splits)

lemma accepted_step:
  assumes "pj_abort (prep_run j ops) = None" and "prep_accepted j ops k"
  defines "x \<equiv> prep_run j (take k ops)" and "y \<equiv> prep_run j (take (Suc k) ops)"
  shows "(\<exists>c. ops ! k = Provisioned c \<and> pj_candidate y = Some c \<and> pj_startup y = None \<and> pj_activation y = None)
    \<or> (\<exists>s. ops ! k = Starting s \<and> pj_candidate x \<noteq> None \<and> pj_candidate y = pj_candidate x
          \<and> pj_startup y = Some s \<and> pj_activation y = pj_activation x)
    \<or> (\<exists>a m clk s. ops ! k = Started a m clk \<and> pj_startup x = Some s \<and> accepts_observation s m clk
          \<and> pj_candidate y = pj_candidate x \<and> pj_startup y = pj_startup x \<and> pj_activation y = Some a)"
proof (rule prep_apply_uncancelled)
  show "prep_apply x (ops ! k) = Some y"
    using assms(2) prep_run_step [of k ops j] by (auto simp: prep_accepted_def x_def y_def)
  show "pj_abort y = None" using uncancelled_prefix [OF assms(1)] by (simp add: y_def)
qed

lemma accepted_operation:
  assumes "pj_abort (prep_run j ops) = None" and "prep_accepted j ops k"
  shows "case ops ! k of
      Provisioned c \<Rightarrow> pj_candidate (prep_run j ops) = Some c
    | Starting s \<Rightarrow> pj_startup (prep_run j ops) = Some s
    | Started a m clk \<Rightarrow> pj_activation (prep_run j ops) = Some a
        \<and> is_some_and (pj_startup (prep_run j ops)) (\<lambda>s. accepts_observation s m clk)
    | _ \<Rightarrow> False"
  using accepted_step [OF assms] evidenceD [OF evidence_of_prefix [of j "Suc k" ops]]
  by (elim disjE) (auto simp: is_some_and_iff)

lemma budget_of_observation:
  assumes "accepts_observation s m clk"
  shows "m = material_sha256 s" "boot_id clk = boot_id (cs_clock s)"
    and "unat (uptime_ms (cs_clock s)) \<le> unat (uptime_ms clk)"
    and "unat (uptime_ms clk) < unat (uptime_ms (cs_clock s)) + 90000"
  using assms
  by (auto simp: accepts_observation_def is_some_and_iff checked_simps word_less_nat_alt word_le_nat_alt BUDGET_MS_def)

text \<open>
  C10: A cutover starts only from a candidate this preparation provisioned, started and observed,
  in this order. Take any history of operations on a created preparation, refused ones included,
  after which the handoff to a plan is permitted. Then the history holds three accepted operations:
  one that saved the plan's candidate slot, a later one that saved the startup, and a later one
  that observed exactly the two processes of the plan, with the material of that startup. No
  accepted operation cancelled anything, and every accepted operation of these three kinds, a
  repeated one too, carried the same slot, the same startup and the same processes. Every
  observation of the candidate and the plan itself fall in the boot of the intent and within
  ninety seconds of the saved startup, so a retry never extends the budget.
\<close>

theorem handoff_was_prepared:
  assumes "PreparationJournal_create i = Some j" and "permits_handoff (prep_run j ops) plan"
  defines "a \<equiv> \<lparr>ca_control = candidate_process plan, ca_runner = candidate_runner_process plan\<rparr>"
    and "in_budget \<equiv> \<lambda>s clk. boot_id clk = boot_id (pi_clock i)
      \<and> unat (uptime_ms (cs_clock s)) \<le> unat (uptime_ms clk) \<and> unat (uptime_ms clk) < unat (uptime_ms (cs_clock s)) + 90000"
  shows "\<exists>p q r s clk. p < q \<and> q < r
    \<and> prep_accepted j ops p \<and> ops ! p = Provisioned (candidate_slot plan)
    \<and> prep_accepted j ops q \<and> ops ! q = Starting s
    \<and> prep_accepted j ops r \<and> ops ! r = Started a (material_sha256 s) clk
    \<and> unat (uptime_ms (pi_clock i)) \<le> unat (uptime_ms (cs_clock s)) \<and> in_budget s (plan_clock plan)
    \<and> (\<forall>k. prep_accepted j ops k \<longrightarrow>
         ops ! k = Provisioned (candidate_slot plan) \<or> ops ! k = Starting s
         \<or> (\<exists>c. ops ! k = Started a (material_sha256 s) c \<and> in_budget s c))"
proof -
  let ?F = "prep_run j ops" and ?J = "\<lambda>n. prep_run j (take n ops)"
  note new = created_empty [OF assms(1)]
  from assms(2) obtain s where valid: "PreparationJournal_valid ?F" and live: "pj_abort ?F = None"
    and cand: "pj_candidate ?F = Some (candidate_slot plan)" and start: "pj_startup ?F = Some s"
    and act: "pj_activation ?F = Some a" and plan: "accepts_observation s (material_sha256 s) (plan_clock plan)"
    by (auto simp: permits_handoff_def is_some_and_iff a_def)
  have intent: "pj_intent ?F = i" using evidence_of_prefix [of j 0 ops] new(4) by (simp add: keeps_evidence_def)
  have startup: "CandidateStartup_valid_for s i"
    using valid start act intent by (simp add: PreparationJournal_valid_def)
  then have budget: "in_budget s c" if "accepts_observation s m c" for m c
    using budget_of_observation [OF that] by (simp add: in_budget_def CandidateStartup_valid_for_def)
  have all: "ops ! k = Provisioned (candidate_slot plan) \<or> ops ! k = Starting s
      \<or> (\<exists>c. ops ! k = Started a (material_sha256 s) c \<and> in_budget s c)" if "prep_accepted j ops k" for k
    using accepted_operation [OF live that] cand start act budget budget_of_observation(1)
    by (cases "ops ! k") auto
  obtain p where p: "p < length ops" "pj_candidate (?J p) = None" "pj_candidate (?J (Suc p)) \<noteq> None"
    using first_saved [of pj_candidate j ops] new(1) cand by auto
  obtain q where q: "q < length ops" "pj_startup (?J q) = None" "pj_startup (?J (Suc q)) \<noteq> None"
    using first_saved [of pj_startup j ops] new(2) start by auto
  obtain r where r: "r < length ops" "pj_activation (?J r) = None" "pj_activation (?J (Suc r)) \<noteq> None"
    using first_saved [of pj_activation j ops] new(3) act by auto
  have acc: "prep_accepted j ops p" "prep_accepted j ops q" "prep_accepted j ops r"
    using changed_accepted p q r by metis+
  note at = accepted_step [OF live]
  from at [OF acc(1)] p all [OF acc(1)] have opp: "ops ! p = Provisioned (candidate_slot plan)" by auto
  from at [OF acc(2)] q all [OF acc(2)] have opq: "ops ! q = Starting s" "pj_candidate (?J q) \<noteq> None" by auto
  from at [OF acc(3)] r all [OF acc(3)] obtain c
    where opr: "ops ! r = Started a (material_sha256 s) c" "pj_startup (?J r) \<noteq> None" by auto
  have "p < q" using evidence_between [of q p j ops] evidenceD(1) opq(2) p(2) by (metis not_le option.exhaust option.simps(3))
  moreover have "q < r" using evidence_between [of r q j ops] evidenceD(2) opr(2) q(2) by (metis not_le option.exhaust option.simps(3))
  moreover have "unat (uptime_ms (pi_clock i)) \<le> unat (uptime_ms (cs_clock s))"
    using startup by (simp add: CandidateStartup_valid_for_def word_le_nat_alt)
  ultimately show ?thesis using acc opp opq(1) opr(1) budget [OF plan] all by blast
qed

text \<open>A preparation with a startup that came too early, a repeated one, and the observation it ends with.\<close>

definition sample_preparation :: "prep_op list" where
  "sample_preparation =
     [Starting sample_startup, Provisioned (sample_active_slot Green), Starting sample_startup, Starting sample_startup,
      Started sample_activation (material_sha256 sample_startup) (plan_clock sample_plan)]"

lemma sample_created: "PreparationJournal_create sample_intent = Some (sample_record 0 None None None None)"
  by (simp add: PreparationJournal_create_def sample_intent_valid sample_record_def)

lemma sample_prepared: "prep_run (sample_record 0 None None None None) sample_preparation = sample_ready"
proof -
  let ?g = "sample_active_slot Green"
  have valid: "PreparationJournal_valid (sample_record 0 None None None None)"
      "PreparationJournal_valid (sample_record 1 (Some ?g) None None None)"
      "PreparationJournal_valid (sample_record 2 (Some ?g) (Some sample_startup) None None)"
    using sample_cancellation_valid by (simp_all add: sample_cancellation_def)
  have early: "starting (sample_record 0 None None None None) sample_startup = None"
    by (simp add: starting_def sample_record_fields)
  have one: "provisioned (sample_record 0 None None None None) ?g = Some (sample_record 1 (Some ?g) None None None)"
    using valid by (simp add: provisioned_def valid_or_none_def sample_record_def)
  have two: "starting (sample_record 1 (Some ?g) None None None) sample_startup
        = Some (sample_record 2 (Some ?g) (Some sample_startup) None None)"
      "starting (sample_record 2 (Some ?g) (Some sample_startup) None None) sample_startup
        = Some (sample_record 2 (Some ?g) (Some sample_startup) None None)"
    using valid by (simp_all add: starting_def valid_or_none_def sample_record_def)
  have "accepts_observation sample_startup (material_sha256 sample_startup) (plan_clock sample_plan)"
    using sample_handoff by (simp add: permits_handoff_def sample_ready_def sample_record_fields)
  then have "started (sample_record 2 (Some ?g) (Some sample_startup) None None) sample_activation
      (material_sha256 sample_startup) (plan_clock sample_plan) = Some sample_ready"
    using valid sample_ready_valid by (simp add: started_def valid_or_none_def sample_record_def sample_ready_def)
  with early one two show ?thesis by (simp add: sample_preparation_def)
qed

theorem handoff_was_prepared_witness:
  "PreparationJournal_create sample_intent = Some (sample_record 0 None None None None)
   \<and> permits_handoff (prep_run (sample_record 0 None None None None) sample_preparation) sample_plan
   \<and> (\<exists>p q r s clk. p < q \<and> q < r \<and> r < 5
      \<and> sample_preparation ! p = Provisioned (candidate_slot sample_plan) \<and> sample_preparation ! q = Starting s
      \<and> sample_preparation ! r = Started \<lparr>ca_control = candidate_process sample_plan,
          ca_runner = candidate_runner_process sample_plan\<rparr> (material_sha256 s) clk
      \<and> unat (uptime_ms (plan_clock sample_plan)) < unat (uptime_ms (cs_clock s)) + 90000)"
proof -
  have permitted: "permits_handoff (prep_run (sample_record 0 None None None None) sample_preparation) sample_plan"
    using sample_handoff by (simp add: sample_prepared)
  have five: "prep_accepted j sample_preparation r \<Longrightarrow> r < 5" for j r
    by (simp add: prep_accepted_def sample_preparation_def)
  from handoff_was_prepared [OF sample_created permitted] sample_created permitted five show ?thesis by blast
qed

text \<open>
  C16: a cancellation that captured a running candidate, completely or in part, is never finalized
  before its retirement was permitted: in every history of saved records, a finalizing or complete
  record with a capture comes after a record in the retiring phase with the same capture.
\<close>

theorem captured_cancellation_retires_first:
  assumes "linked PreparationJournal_follows None js" and "i < length js"
    and "pj_abort (js ! i) \<in> {Some Finalizing, Some AbortComplete}" and "has_capture (js ! i)"
  shows "\<exists>k<i. pj_abort (js ! k) = Some AbortRetiringCandidate
    \<and> pj_activation (js ! k) = pj_activation (js ! i)
    \<and> pj_partial_activation (js ! k) = pj_partial_activation (js ! i)"
  using assms(2-4)
proof (induction i)
  case 0
  then have f: "PreparationJournal_follows (js ! 0) None" using linked_first [OF assms(1)] by auto
  with 0 captured_revision [OF preparation.follows_valid [OF f]] show ?case
    by (auto simp: PreparationJournal_follows_def)
next
  case (Suc i)
  let ?p = "js ! i" and ?j = "js ! Suc i"
  have f: "PreparationJournal_follows ?j (Some ?p)" using linked_step [OF assms(1) Suc.prems(1)] .
  have valid: "PreparationJournal_valid ?j" "PreparationJournal_valid ?p"
    using f by (simp_all add: PreparationJournal_follows_def)
  have rj: "unat (pj_revision ?j) \<ge> 6" "pj_abort ?j = Some AbortComplete \<Longrightarrow> pj_revision ?j = 7"
      "pj_abort ?j = Some Finalizing \<Longrightarrow> pj_revision ?j = 6"
    using captured_revision [OF valid(1) Suc.prems(3)] Suc.prems(2) by auto
  show ?case
  proof (cases "?j = ?p")
    case True
    with Suc show ?thesis by (metis Suc_lessD less_Suc_eq)
  next
    case False
    then have rp: "unat (pj_revision ?j) = Suc (unat (pj_revision ?p))"
      using preparation.follows_Some [OF f] by blast
    then have "pj_abort ?p \<noteq> None" using rj(1) unaborted_revision [OF valid(2)] by fastforce
    then obtain old where old: "pj_abort ?p = Some old" by blast
    then have same: "pj_activation ?j = pj_activation ?p" "pj_partial_activation ?j = pj_partial_activation ?p"
      using f Suc.prems(2) by (auto simp: PreparationJournal_follows_def abort_follows_def)
    then have cap: "has_capture ?p" using Suc.prems(3) by (simp add: has_capture_def)
    from captured_revision [OF valid(2) cap old] rp rj Suc.prems(2)
    have "old = AbortRetiringCandidate \<or> old = Finalizing"
      by (cases old) auto
    then show ?thesis
    proof
      assume "old = AbortRetiringCandidate"
      with old same show ?thesis by auto
    next
      assume "old = Finalizing"
      with Suc.IH Suc.prems(1) old cap same show ?thesis by (metis Suc_lessD insertCI less_SucI)
    qed
  qed
qed

theorem captured_cancellation_retires_first_witness:
  "\<exists>k<6. pj_abort (sample_cancellation ! k) = Some AbortRetiringCandidate"
proof -
  have "6 < length sample_cancellation" "pj_abort (sample_cancellation ! 6) \<in> {Some Finalizing, Some AbortComplete}"
      "has_capture (sample_cancellation ! 6)"
    by (simp_all add: sample_cancellation_def sample_record_fields has_capture_def)
  from captured_cancellation_retires_first [OF sample_cancellation_linked this] show ?thesis by blast
qed

end
