(* ===== verification/Lifecycle.thy ===== *)
theory Lifecycle
  imports UpgradeBase "HOL-Library.AList"
begin

text \<open>
  Admission and ownership of work in the Control process (\<open>control/src/lifecycle.rs\<close>): the
  request registry behind one mutex, its admission, drain, shutdown and retirement commands,
  the leases that own an admitted request, the execution budget of a lease, and the loops that
  wait for a drain or a shutdown. The registry is what a cutover observes through
  \<open>LifecycleSnapshot\<close>; the locale \<open>drain_gate\<close> states what the upgrade executor relies on, and
  the registry interprets it.

  A \<open>lock().expect(..)\<close> on a poisoned mutex and an instant that leaves the clock's range are
  panics, values of the type \<open>panic\<close>.
\<close>

section \<open>Data\<close>

datatype panic = RegistryPoisoned | InstantOverflow

text \<open>
  \<open>requests\<close> is an ordered map from identifiers to admission instants. Only its size and its
  greatest age are observed, so its order is left to the association list.
\<close>

record Registry =
  reg_accepting :: bool
  reg_stopping :: bool
  reg_revision :: u64
  reg_next_id :: u64
  requests :: "(u64 \<times> instant) list"
  reg_poisoned :: bool

definition Registry_default :: Registry where
  "Registry_default =
     \<lparr>reg_accepting = True, reg_stopping = False, reg_revision = 0, reg_next_id = 0, requests = [],
      reg_poisoned = False\<rparr>"

record LeaseInner =
  execution_deadline :: instant
  response_deadline :: instant
  deadline_elapsed :: bool
  disconnected :: bool
  lease_id :: u64

text \<open>Durations are counts of nanoseconds.\<close>

definition REQUEST_BUDGET :: nat where
  "REQUEST_BUDGET = 720 * 1000000000"

definition SETTLEMENT_RESERVE :: nat where
  "SETTLEMENT_RESERVE = 30 * 1000000000"

definition instant_plus :: "instant \<Rightarrow> nat \<Rightarrow> instant option" where
  "instant_plus t d = (if t + d < instant_limit then Some (t + d) else None)"

definition request_budget_ms_of :: "(panic, u64) result" where
  "request_budget_ms_of = ok_or (u64_try_from (REQUEST_BUDGET div 1000000)) InstantOverflow"

section \<open>Registry operations\<close>

text \<open>
  \<open>admit\<close> inserts the request before it computes the deadlines: a clock value too close to the
  end of its range panics with the lock held.
\<close>

definition Registry_admit :: "Registry \<Rightarrow> instant \<Rightarrow> (panic, LeaseInner option) result \<times> Registry" where
  "Registry_admit s now =
     (if reg_poisoned s then (Inl RegistryPoisoned, s)
      else if \<not> reg_accepting s then (Inr None, s)
      else case checked_add (reg_next_id s) 1 of
             None \<Rightarrow> (Inr None, s)
           | Some nid \<Rightarrow>
              (let rid = reg_next_id s;
                   s' = s\<lparr>reg_next_id := nid, requests := AList.update rid now (requests s)\<rparr>
               in case instant_plus now REQUEST_BUDGET of
                    None \<Rightarrow> (Inl InstantOverflow, s'\<lparr>reg_poisoned := True\<rparr>)
                  | Some response \<Rightarrow>
                     (Inr (Some \<lparr>execution_deadline = response - SETTLEMENT_RESERVE,
                                 response_deadline = response, deadline_elapsed = False,
                                 disconnected = False, lease_id = rid\<rparr>), s')))"

definition begin_drain :: "Registry \<Rightarrow> (panic, unit) result \<times> Registry" where
  "begin_drain s =
     (if reg_poisoned s then (Inl RegistryPoisoned, s)
      else (Inr (),
            if reg_accepting s
            then s\<lparr>reg_accepting := False, reg_revision := saturating_add (reg_revision s) 1\<rparr>
            else s))"

definition begin_shutdown :: "Registry \<Rightarrow> (panic, unit) result \<times> Registry" where
  "begin_shutdown s =
     (if reg_poisoned s then (Inl RegistryPoisoned, s)
      else (Inr (),
            if \<not> reg_stopping s
            then s\<lparr>reg_stopping := True, reg_accepting := False,
                   reg_revision := saturating_add (reg_revision s) 1\<rparr>
            else s))"

definition retire_drained :: "Registry \<Rightarrow> u64 \<Rightarrow> (panic, bool) result \<times> Registry" where
  "retire_drained s expected =
     (if reg_poisoned s then (Inl RegistryPoisoned, s)
      else if reg_accepting s \<or> reg_stopping s \<or> requests s \<noteq> [] \<or> reg_revision s \<noteq> expected
      then (Inr False, s)
      else case checked_add (reg_revision s) 1 of
             None \<Rightarrow> (Inr False, s)
           | Some r \<Rightarrow> (Inr True, s\<lparr>reg_stopping := True, reg_revision := r\<rparr>))"

definition set_admission :: "Registry \<Rightarrow> u64 \<Rightarrow> bool \<Rightarrow> (panic, bool) result \<times> Registry" where
  "set_admission s expected acc =
     (if reg_poisoned s then (Inl RegistryPoisoned, s)
      else if reg_stopping s \<or> reg_revision s \<noteq> expected then (Inr False, s)
      else case checked_add (reg_revision s) 1 of
             None \<Rightarrow> (Inr False, s)
           | Some r \<Rightarrow> (Inr True, s\<lparr>reg_accepting := acc, reg_revision := r\<rparr>))"

text \<open>
  The age of each entry reads the clock again: \<open>clk\<close> gives the reading made for an identifier.
\<close>

definition age_ms :: "(u64 \<Rightarrow> instant) \<Rightarrow> u64 \<times> instant \<Rightarrow> u64" where
  "age_ms clk e = (case u64_try_from (elapsed_ms (clk (fst e)) (snd e)) of Some n \<Rightarrow> n | None \<Rightarrow> - 1)"

definition Registry_snapshot :: "(u64 \<Rightarrow> instant) \<Rightarrow> Registry \<Rightarrow> (panic, LifecycleSnapshot) result" where
  "Registry_snapshot clk s =
     (if reg_poisoned s then Inl RegistryPoisoned
      else Inr \<lparr>accepting = reg_accepting s, stopping = reg_stopping s, revision = reg_revision s,
                in_flight = of_nat (length (requests s)),
                oldest_request_age_ms = foldr max (map (age_ms clk) (requests s)) 0\<rparr>)"

definition LeaseInner_drop :: "Registry \<Rightarrow> u64 \<Rightarrow> (panic, unit) result \<times> Registry" where
  "LeaseInner_drop s rid =
     (if reg_poisoned s then (Inl RegistryPoisoned, s)
      else (Inr (), s\<lparr>requests := AList.delete rid (requests s)\<rparr>))"

text \<open>The budget of an attempt; \<open>lease\<close> is the request the current task belongs to, if any.\<close>

definition execution_budget :: "LeaseInner option \<Rightarrow> instant \<Rightarrow> nat \<Rightarrow> (unit, nat) result" where
  "execution_budget lease now maximum =
     (case lease of
        None \<Rightarrow> Inr maximum
      | Some l \<Rightarrow>
          if disconnected l then Inl ()
          else let remaining = execution_deadline l - now in
               if remaining = 0 then Inl () else Inr (min remaining maximum))"

section \<open>Leases\<close>

text \<open>
  A lease is shared: the HTTP handler, the response body, detached tasks and the peer guard
  each hold a handle, and the inner value is dropped with the last one. The world keeps, beside
  the registry, every live lease with its number of handles. An operation on a lease that has
  no handle left cannot be called by the code and changes nothing.
\<close>

record lifecycle_world =
  registry :: Registry
  leases :: "u64 \<rightharpoonup> LeaseInner \<times> nat"

definition world_default :: lifecycle_world where
  "world_default = \<lparr>registry = Registry_default, leases = Map.empty\<rparr>"

definition admit :: "lifecycle_world \<Rightarrow> instant \<Rightarrow> (panic, LeaseInner option) result \<times> lifecycle_world" where
  "admit w now =
     (case Registry_admit (registry w) now of
        (Inr (Some l), s) \<Rightarrow>
          (Inr (Some l), w\<lparr>registry := s, leases := (leases w)(lease_id l \<mapsto> (l, 1))\<rparr>)
      | (r, s) \<Rightarrow> (r, w\<lparr>registry := s\<rparr>))"

definition clone_lease :: "lifecycle_world \<Rightarrow> u64 \<Rightarrow> lifecycle_world" where
  "clone_lease w rid =
     (case leases w rid of
        None \<Rightarrow> w
      | Some (l, n) \<Rightarrow> w\<lparr>leases := (leases w)(rid \<mapsto> (l, Suc n))\<rparr>)"

definition drop_lease :: "lifecycle_world \<Rightarrow> u64 \<Rightarrow> (panic, unit) result \<times> lifecycle_world" where
  "drop_lease w rid =
     (case leases w rid of
        None \<Rightarrow> (Inr (), w)
      | Some (l, n) \<Rightarrow>
          if n \<le> 1
          then (case LeaseInner_drop (registry w) rid of
                  (r, s) \<Rightarrow> (r, w\<lparr>registry := s, leases := (leases w)(rid := None)\<rparr>))
          else (Inr (), w\<lparr>leases := (leases w)(rid \<mapsto> (l, n - 1))\<rparr>))"

text \<open>A task started for a request keeps a handle of it until it ends, and so does a closure.\<close>

definition spawn :: "lifecycle_world \<Rightarrow> u64 option \<Rightarrow> lifecycle_world" where
  "spawn w current = (case current of None \<Rightarrow> w | Some rid \<Rightarrow> clone_lease w rid)"

definition mark_deadline_elapsed :: "lifecycle_world \<Rightarrow> u64 \<Rightarrow> lifecycle_world" where
  "mark_deadline_elapsed w rid =
     (case leases w rid of
        None \<Rightarrow> w
      | Some (l, n) \<Rightarrow>
          w\<lparr>leases := (leases w)(rid \<mapsto> (l\<lparr>deadline_elapsed := True, disconnected := True\<rparr>, n))\<rparr>)"

definition PeerGuard_drop :: "lifecycle_world \<Rightarrow> u64 \<Rightarrow> (panic, unit) result \<times> lifecycle_world" where
  "PeerGuard_drop w rid =
     (case leases w rid of
        None \<Rightarrow> (Inr (), w)
      | Some (l, n) \<Rightarrow>
          drop_lease (w\<lparr>leases := (leases w)(rid \<mapsto> (l\<lparr>disconnected := True\<rparr>, n))\<rparr>) rid)"

datatype lifecycle_op =
    Admit instant | Spawn "u64 option" | DropLease u64 | DeadlineElapsed u64 | PeerGone u64
  | BeginDrain | BeginShutdown | RetireDrained u64 | SetAdmission u64 bool

definition on_registry :: "(Registry \<Rightarrow> 'r \<times> Registry) \<Rightarrow> lifecycle_world \<Rightarrow> lifecycle_world" where
  "on_registry f w = w\<lparr>registry := snd (f (registry w))\<rparr>"

fun run_op :: "lifecycle_op \<Rightarrow> lifecycle_world \<Rightarrow> lifecycle_world" where
  "run_op (Admit now) w = snd (admit w now)"
| "run_op (Spawn current) w = spawn w current"
| "run_op (DropLease rid) w = snd (drop_lease w rid)"
| "run_op (DeadlineElapsed rid) w = mark_deadline_elapsed w rid"
| "run_op (PeerGone rid) w = snd (PeerGuard_drop w rid)"
| "run_op BeginDrain w = on_registry begin_drain w"
| "run_op BeginShutdown w = on_registry begin_shutdown w"
| "run_op (RetireDrained expected) w = on_registry (\<lambda>s. retire_drained s expected) w"
| "run_op (SetAdmission expected acc) w = on_registry (\<lambda>s. set_admission s expected acc) w"

section \<open>The drain gate\<close>

text \<open>
  What an executor relies on when it drains a process: the revision never goes back, and as
  long as it stays the same a closed gate stays closed and its load does not grow.
\<close>

locale drain_gate =
  fixes exec :: "'op \<Rightarrow> 's \<Rightarrow> 's"
    and is_closed :: "'s \<Rightarrow> bool"
    and rev_of :: "'s \<Rightarrow> nat"
    and load :: "'s \<Rightarrow> nat"
    and is_stopped :: "'s \<Rightarrow> bool"
  assumes revision_mono: "rev_of s \<le> rev_of (exec c s)"
    and closed_kept: "is_closed s \<Longrightarrow> rev_of (exec c s) = rev_of s \<Longrightarrow>
          is_closed (exec c s) \<and> load (exec c s) \<le> load s"
    and stopped_kept: "is_stopped s \<Longrightarrow> is_stopped (exec c s)"
    and stopped_closed: "is_stopped s \<Longrightarrow> is_closed s \<Longrightarrow> is_closed (exec c s) \<and> load (exec c s) \<le> load s"
begin

lemma history_revision: "rev_of s \<le> rev_of (fold exec cs s)"
  by (induction cs arbitrary: s) (auto intro: order_trans revision_mono)

lemma closed_history:
  assumes "is_closed s" and "rev_of (fold exec cs s) = rev_of s"
  shows "is_closed (fold exec cs s) \<and> load (fold exec cs s) \<le> load s"
  using assms
proof (induction cs arbitrary: s)
  case (Cons c cs)
  have "rev_of s \<le> rev_of (exec c s)" and "rev_of (exec c s) \<le> rev_of (fold exec cs (exec c s))"
    by (rule revision_mono, rule history_revision)
  with Cons.prems(2) have same: "rev_of (exec c s) = rev_of s" by simp
  from closed_kept [OF Cons.prems(1) same] Cons.IH [of "exec c s"] Cons.prems(2) same
  show ?case by auto
qed simp

lemma closed_prefix:
  assumes "is_closed s" and "rev_of (fold exec cs s) = rev_of s"
  shows "is_closed (fold exec (take k cs) s) \<and> load (fold exec (take k cs) s) \<le> load s"
proof (rule closed_history [OF assms(1)])
  have "fold exec (drop k cs) (fold exec (take k cs) s) = fold exec cs s"
    by (metis append_take_drop_id comp_apply fold_append)
  then show "rev_of (fold exec (take k cs) s) = rev_of s"
    using history_revision [of s "take k cs"] history_revision [of "fold exec (take k cs) s" "drop k cs"]
      assms(2) by simp
qed

lemma stopped_history:
  assumes "is_stopped s" and "is_closed s"
  shows "is_stopped (fold exec cs s) \<and> is_closed (fold exec cs s) \<and> load (fold exec cs s) \<le> load s"
  using assms
proof (induction cs arbitrary: s)
  case (Cons c cs)
  from stopped_closed [OF Cons.prems, of c] Cons.IH [of "exec c s"] stopped_kept [OF Cons.prems(1), of c]
  show ?case by auto
qed simp

end

lemma saturating_add_ge: "unat a \<le> unat (saturating_add a b)"
proof (cases "checked_add a b")
  case None
  then show ?thesis by (simp add: saturating_add_def word_le_nat_alt [symmetric])
next
  case (Some c)
  then have "unat c = unat a + unat b" by (simp add: checked_simps)
  with Some show ?thesis by (simp add: saturating_add_def)
qed

lemma length_delete_le: "length (AList.delete k xs) \<le> length xs"
  by (simp add: AList.delete_eq)

text \<open>An operation that does not touch the registry keeps everything the gate observes.\<close>

lemma registry_kept [simp]:
  "registry (clone_lease w rid) = registry w" "registry (spawn w current) = registry w"
  "registry (mark_deadline_elapsed w rid) = registry w"
  by (auto simp: clone_lease_def spawn_def mark_deadline_elapsed_def split: option.splits)

lemma admit_registry: "registry (snd (admit w now)) = snd (Registry_admit (registry w) now)"
  by (auto simp: admit_def split: prod.splits sum.splits option.splits)

lemma drop_registry:
  "registry (snd (drop_lease w rid)) = registry w
    \<or> registry (snd (drop_lease w rid)) = snd (LeaseInner_drop (registry w) rid)"
  by (auto simp: drop_lease_def split: prod.splits option.splits)

lemma peer_registry:
  "registry (snd (PeerGuard_drop w rid)) = registry w
    \<or> registry (snd (PeerGuard_drop w rid)) = snd (LeaseInner_drop (registry w) rid)"
  by (auto simp: PeerGuard_drop_def drop_lease_def split: prod.splits option.splits)

lemmas registry_defs = Registry_admit_def begin_drain_def begin_shutdown_def retire_drained_def
  set_admission_def LeaseInner_drop_def on_registry_def

text \<open>The registry after an operation is the registry before it or one command's result.\<close>

lemma run_op_registry:
  "registry (run_op c w) \<in> {registry w}
     \<union> {snd (LeaseInner_drop (registry w) rid) |rid. True}
     \<union> {snd (Registry_admit (registry w) now) |now. True}
     \<union> {snd (begin_drain (registry w)), snd (begin_shutdown (registry w))}
     \<union> {snd (retire_drained (registry w) e) |e. True}
     \<union> {snd (set_admission (registry w) e acc) |e acc. True}"
  using drop_registry [of w] peer_registry [of w]
  by (cases c) (auto simp: on_registry_def admit_registry)

definition closed_gate :: "lifecycle_world \<Rightarrow> bool" where
  "closed_gate w \<longleftrightarrow> \<not> reg_accepting (registry w)"

definition gate_load :: "lifecycle_world \<Rightarrow> nat" where
  "gate_load w = length (requests (registry w))"

text \<open>One command on the registry, as the gate sees it.\<close>

definition gate_step :: "Registry \<Rightarrow> Registry \<Rightarrow> bool" where
  "gate_step s t \<longleftrightarrow> unat (reg_revision s) \<le> unat (reg_revision t)
     \<and> (reg_stopping s \<longrightarrow> reg_stopping t)
     \<and> (\<not> reg_accepting s \<and> (reg_revision t = reg_revision s \<or> reg_stopping s) \<longrightarrow>
          \<not> reg_accepting t \<and> length (requests t) \<le> length (requests s))"

lemma gate_step_refl [simp]: "gate_step s s"
  by (simp add: gate_step_def)

lemma checked_succ_neq: "checked_add a 1 = Some b \<Longrightarrow> b \<noteq> (a :: 'a::len word)"
  using checked_add_one_lt by blast

lemma gate_step_commands:
  "gate_step s (snd (LeaseInner_drop s rid))"
  "gate_step s (snd (Registry_admit s now))"
  "gate_step s (snd (begin_drain s))"
  "gate_step s (snd (begin_shutdown s))"
  "gate_step s (snd (retire_drained s e))"
  "gate_step s (snd (set_admission s e acc))"
  by (auto simp: gate_step_def registry_defs Let_def length_delete_le saturating_add_ge checked_add_eq_Some
      dest: checked_succ_neq split: option.splits if_splits)

lemma run_op_gate: "gate_step (registry w) (registry (run_op c w))"
  using run_op_registry [of c w] by (auto simp: gate_step_commands)

interpretation gate: drain_gate run_op closed_gate "\<lambda>w. unat (reg_revision (registry w))" gate_load
    "\<lambda>w. reg_stopping (registry w)"
  using run_op_gate by unfold_locales (auto simp: gate_step_def closed_gate_def gate_load_def word_unat_eq_iff)

section \<open>Ownership\<close>

text \<open>
  The invariant of a world: identifiers are distinct and below the next one, every lease is an
  entry of the registry with the deadlines of its admission and has a handle, and every entry
  has a lease unless the registry was poisoned.
\<close>

definition lease_ok :: "Registry \<Rightarrow> u64 \<Rightarrow> LeaseInner \<times> nat \<Rightarrow> bool" where
  "lease_ok s rid ln \<longleftrightarrow> 0 < snd ln \<and> lease_id (fst ln) = rid
     \<and> is_some_and (map_of (requests s) rid) (\<lambda>t.
          response_deadline (fst ln) = t + REQUEST_BUDGET
          \<and> execution_deadline (fst ln) + SETTLEMENT_RESERVE = response_deadline (fst ln))"

definition world_ok :: "lifecycle_world \<Rightarrow> bool" where
  "world_ok w \<longleftrightarrow> distinct (map fst (requests (registry w)))
     \<and> (\<forall>rid\<in>fst ` set (requests (registry w)). rid < reg_next_id (registry w))
     \<and> (\<forall>rid ln. leases w rid = Some ln \<longrightarrow> lease_ok (registry w) rid ln)
     \<and> (\<not> reg_poisoned (registry w) \<longrightarrow> fst ` set (requests (registry w)) \<subseteq> dom (leases w))"

lemma world_ok_default: "world_ok world_default"
  by (simp add: world_ok_def world_default_def Registry_default_def)

text \<open>A registry command that keeps the entries keeps the invariant.\<close>

lemma world_ok_frame:
  assumes "world_ok w" and "requests s = requests (registry w)" "reg_next_id s = reg_next_id (registry w)"
    "reg_poisoned s = reg_poisoned (registry w)"
  shows "world_ok (w\<lparr>registry := s\<rparr>)"
  using assms by (auto simp: world_ok_def lease_ok_def)

lemma frame_commands:
  "requests (snd (begin_drain s)) = requests s" "reg_next_id (snd (begin_drain s)) = reg_next_id s"
  "reg_poisoned (snd (begin_drain s)) = reg_poisoned s"
  "requests (snd (begin_shutdown s)) = requests s" "reg_next_id (snd (begin_shutdown s)) = reg_next_id s"
  "reg_poisoned (snd (begin_shutdown s)) = reg_poisoned s"
  "requests (snd (retire_drained s e)) = requests s" "reg_next_id (snd (retire_drained s e)) = reg_next_id s"
  "reg_poisoned (snd (retire_drained s e)) = reg_poisoned s"
  "requests (snd (set_admission s e acc)) = requests s" "reg_next_id (snd (set_admission s e acc)) = reg_next_id s"
  "reg_poisoned (snd (set_admission s e acc)) = reg_poisoned s"
  by (auto simp: registry_defs split: option.splits)

text \<open>Changing the flags or the handles of one lease keeps it too.\<close>

lemma world_ok_leaseD: "world_ok w \<Longrightarrow> leases w rid = Some ln \<Longrightarrow> lease_ok (registry w) rid ln"
  unfolding world_ok_def by blast

lemma world_ok_lease:
  assumes ok: "world_ok w" and l: "leases w rid = Some (l, n)" and "0 < n'" "lease_id l' = lease_id l"
    "response_deadline l' = response_deadline l" "execution_deadline l' = execution_deadline l"
  shows "world_ok (w\<lparr>leases := (leases w)(rid \<mapsto> (l', n'))\<rparr>)"
proof -
  have "lease_ok (registry w) rid (l', n')"
    using world_ok_leaseD [OF ok l] assms(3-) by (simp add: lease_ok_def)
  with ok l show ?thesis unfolding world_ok_def by auto
qed

lemma world_ok_handles: "world_ok w \<Longrightarrow> leases w rid = Some (l, n) \<Longrightarrow> 0 < n"
  by (drule (1) world_ok_leaseD) (simp add: lease_ok_def)

lemma delete_entry_keys: "fst ` set (AList.delete k xs) = fst ` set xs - {k}"
  by (metis delete_keys image_set set_removeAll)

lemma update_entry_keys: "fst ` set (AList.update k v xs) = insert k (fst ` set xs)"
  by (simp add: dom_map_of_conv_image_fst [symmetric] update_conv')

lemma world_ok_drop_entry:
  assumes ok: "world_ok w" and "\<not> reg_poisoned (registry w)"
  shows "world_ok (w\<lparr>registry := (registry w)\<lparr>requests := AList.delete rid (requests (registry w))\<rparr>,
                      leases := (leases w)(rid := None)\<rparr>)"
  using assms unfolding world_ok_def
  by (auto simp: lease_ok_def distinct_delete delete_entry_keys delete_conv' simp del: set_map split: if_splits)

lemma drop_lease_ok:
  assumes ok: "world_ok w"
  shows "world_ok (snd (drop_lease w rid))"
proof (cases "leases w rid")
  case (Some ln)
  obtain l n where ln: "ln = (l, n)" by (cases ln)
  show ?thesis
  proof (cases "n \<le> 1")
    case True
    show ?thesis
    proof (cases "reg_poisoned (registry w)")
      case True
      then have "world_ok (w\<lparr>leases := (leases w)(rid := None)\<rparr>)" using ok by (auto simp: world_ok_def)
      with True \<open>n \<le> 1\<close> Some ln show ?thesis by (simp add: drop_lease_def LeaseInner_drop_def)
    next
      case False
      from world_ok_drop_entry [OF ok this] \<open>n \<le> 1\<close> Some ln False show ?thesis
        by (simp add: drop_lease_def LeaseInner_drop_def)
    qed
  next
    case False
    with world_ok_lease [OF ok, of rid l n "n - 1" l] Some ln show ?thesis by (simp add: drop_lease_def)
  qed
qed (simp add: drop_lease_def ok)

text \<open>Admission: the new entry has a fresh identifier and a lease with one handle.\<close>

lemma budget_split: "t + REQUEST_BUDGET - SETTLEMENT_RESERVE + SETTLEMENT_RESERVE = t + REQUEST_BUDGET"
  by (simp add: REQUEST_BUDGET_def SETTLEMENT_RESERVE_def)

lemma admit_cases:
  assumes "admit w now = (r, w')"
  obtains "w' = w"
    | nid where "checked_add (reg_next_id (registry w)) 1 = Some nid" "\<not> reg_poisoned (registry w)"
        "r = Inl InstantOverflow"
        "w' = w\<lparr>registry := (registry w)\<lparr>reg_next_id := nid,
                requests := AList.update (reg_next_id (registry w)) now (requests (registry w)),
                reg_poisoned := True\<rparr>\<rparr>"
    | nid l where "checked_add (reg_next_id (registry w)) 1 = Some nid" "\<not> reg_poisoned (registry w)"
        "reg_accepting (registry w)" "r = Inr (Some l)"
        "l = \<lparr>execution_deadline = now + REQUEST_BUDGET - SETTLEMENT_RESERVE,
              response_deadline = now + REQUEST_BUDGET, deadline_elapsed = False,
              disconnected = False, lease_id = reg_next_id (registry w)\<rparr>"
        "w' = w\<lparr>registry := (registry w)\<lparr>reg_next_id := nid,
                requests := AList.update (reg_next_id (registry w)) now (requests (registry w))\<rparr>,
              leases := (leases w)(reg_next_id (registry w) \<mapsto> (l, 1))\<rparr>"
proof (cases "reg_poisoned (registry w) \<or> \<not> reg_accepting (registry w)
    \<or> checked_add (reg_next_id (registry w)) 1 = None")
  case True
  then have "Registry_admit (registry w) now \<in> {(Inl RegistryPoisoned, registry w), (Inr None, registry w)}"
    by (auto simp: Registry_admit_def)
  then have "w' = w" using assms by (auto simp: admit_def)
  then show ?thesis by (rule that(1))
next
  case False
  then obtain nid where nid: "checked_add (reg_next_id (registry w)) 1 = Some nid" by blast
  show ?thesis
  proof (cases "now + REQUEST_BUDGET < instant_limit")
    case True
    with False nid assms show ?thesis
      by (intro that(3) [OF nid]) (auto simp: admit_def Registry_admit_def Let_def instant_plus_def)
  next
    case over: False
    with False nid assms show ?thesis
      by (intro that(2) [OF nid]) (auto simp: admit_def Registry_admit_def Let_def instant_plus_def)
  qed
qed

lemma admit_ok:
  assumes ok: "world_ok w"
  shows "world_ok (snd (admit w now))"
proof -
  obtain r w' where a: "admit w now = (r, w')" by (cases "admit w now")
  let ?s = "registry w" and ?rid = "reg_next_id (registry w)"
  have fresh: "?rid \<notin> fst ` set (requests ?s)"
    using ok by (auto simp: world_ok_def)
  then have no_entry: "map_of (requests ?s) ?rid = None" by (simp add: map_of_eq_None_iff)
  have no_lease: "leases w ?rid = None"
  proof (rule ccontr)
    assume "leases w ?rid \<noteq> None"
    then obtain ln where "leases w ?rid = Some ln" by blast
    from world_ok_leaseD [OF ok this] no_entry show False by (simp add: lease_ok_def)
  qed
  from a have "world_ok w'"
  proof (cases rule: admit_cases)
    case (2 nid)
    then have lt: "?rid < nid" by (blast dest: checked_add_one_lt)
    from 2 ok no_lease show ?thesis
      by (auto simp: world_ok_def lease_ok_def update_entry_keys distinct_update update_conv'
          simp del: set_map dest: less_trans [OF _ lt] intro: lt split: if_splits)
  next
    case (3 nid l)
    then have lt: "?rid < nid" by (blast dest: checked_add_one_lt)
    from 3 ok no_lease show ?thesis
      by (auto simp: world_ok_def lease_ok_def update_entry_keys distinct_update update_conv' budget_split
          simp del: set_map dest: less_trans [OF _ lt] intro: lt split: if_splits)
  qed (simp add: ok)
  with a show ?thesis by simp
qed

lemma run_op_ok:
  assumes ok: "world_ok w"
  shows "world_ok (run_op c w)"
proof (cases c)
  case (Spawn current)
  have "world_ok (clone_lease w rid)" for rid
    using ok world_ok_lease [OF ok] by (auto simp: clone_lease_def split: option.splits)
  with ok show ?thesis by (simp add: Spawn spawn_def split: option.splits)
next
  case (DeadlineElapsed rid)
  then show ?thesis
    using ok world_ok_lease [OF ok] world_ok_handles [OF ok]
    by (auto simp: mark_deadline_elapsed_def split: option.splits)
next
  case (PeerGone rid)
  then show ?thesis
    using ok world_ok_lease [OF ok] world_ok_handles [OF ok]
    by (auto simp: PeerGuard_drop_def intro!: drop_lease_ok split: option.splits)
qed (simp_all add: ok admit_ok drop_lease_ok on_registry_def world_ok_frame frame_commands)

lemma history_ok: "world_ok w \<Longrightarrow> world_ok (fold run_op cs w)"
  by (induction cs arbitrary: w) (simp_all add: run_op_ok)

lemmas reachable_ok = history_ok [OF world_ok_default]

section \<open>Waiting\<close>

text \<open>
  \<open>wait_drained\<close> and \<open>wait_shutdown_started\<close> are one loop with two conditions: register for a
  notification, take a snapshot, return when the condition holds, otherwise sleep until a
  notification arrives. A notification wakes the waiters registered at that moment and nobody
  else. It may be sent after the registry's lock was released (a dropped lease does), so an
  operation that notifies leaves a pending notification, delivered by a step of its own.
\<close>

datatype waiter = Idle | Enabled bool | Parked bool | Finished | Crashed

record wait_state =
  waited_world :: lifecycle_world
  pending :: nat
  waiter_of :: waiter

fun notified :: "waiter \<Rightarrow> waiter" where
  "notified (Enabled _) = Enabled True"
| "notified (Parked _) = Parked True"
| "notified wt = wt"

definition drops_last :: "lifecycle_world \<Rightarrow> u64 \<Rightarrow> bool" where
  "drops_last w rid \<longleftrightarrow> is_some_and (leases w rid) (\<lambda>ln. snd ln \<le> 1) \<and> \<not> reg_poisoned (registry w)"

fun notifies :: "lifecycle_op \<Rightarrow> lifecycle_world \<Rightarrow> bool" where
  "notifies (DropLease rid) w = drops_last w rid"
| "notifies (PeerGone rid) w = drops_last w rid"
| "notifies BeginDrain w = (\<not> reg_poisoned (registry w))"
| "notifies BeginShutdown w = (\<not> reg_poisoned (registry w))"
| "notifies (RetireDrained e) w = (fst (retire_drained (registry w) e) = Inr True)"
| "notifies (SetAdmission e acc) w = (fst (set_admission (registry w) e acc) = Inr True)"
| "notifies _ w = False"

inductive wait_step :: "(LifecycleSnapshot \<Rightarrow> bool) \<Rightarrow> wait_state \<Rightarrow> wait_state \<Rightarrow> bool"
  for until :: "LifecycleSnapshot \<Rightarrow> bool" where
  operation: "wait_step until s (s\<lparr>waited_world := run_op c (waited_world s),
     pending := pending s + (if notifies c (waited_world s) then 1 else 0)\<rparr>)"
| notify: "pending s = Suc n \<Longrightarrow>
     wait_step until s (s\<lparr>pending := n, waiter_of := notified (waiter_of s)\<rparr>)"
| enable: "waiter_of s = Idle \<Longrightarrow> wait_step until s (s\<lparr>waiter_of := Enabled False\<rparr>)"
| check: "waiter_of s = Enabled b \<Longrightarrow> Registry_snapshot clk (registry (waited_world s)) = Inr shot \<Longrightarrow>
     wait_step until s (s\<lparr>waiter_of := if until shot then Finished else Parked b\<rparr>)"
| crash: "waiter_of s = Enabled b \<Longrightarrow> Registry_snapshot clk (registry (waited_world s)) = Inl p \<Longrightarrow>
     wait_step until s (s\<lparr>waiter_of := Crashed\<rparr>)"
| resume: "waiter_of s = Parked True \<Longrightarrow> wait_step until s (s\<lparr>waiter_of := Idle\<rparr>)"

definition drained_shot :: "LifecycleSnapshot \<Rightarrow> bool" where
  "drained_shot shot \<longleftrightarrow> \<not> accepting shot \<and> in_flight shot = 0"

definition wait_start :: wait_state where
  "wait_start = \<lparr>waited_world = world_default, pending = 0, waiter_of = Idle\<rparr>"

text \<open>The condition of a waiter on the registry itself, without the ages.\<close>

definition drained_registry :: "Registry \<Rightarrow> bool" where
  "drained_registry s \<longleftrightarrow> \<not> reg_accepting s \<and> requests s = []"

text \<open>The number of requests fits the snapshot's counter.\<close>

lemma requests_count:
  assumes "world_ok w"
  shows "length (requests (registry w)) < 2 ^ 64"
proof -
  let ?ids = "fst ` set (requests (registry w))" and ?n = "unat (reg_next_id (registry w))"
  have "length (requests (registry w)) = card ?ids"
    using assms by (metis world_ok_def distinct_card length_map set_map)
  also have "\<dots> = card (unat ` ?ids)"
    by (rule card_image [symmetric]) (simp add: inj_on_def word_unat_eq_iff)
  also have "\<dots> \<le> card {..<?n}"
    using assms by (intro card_mono) (auto simp: world_ok_def word_less_nat_alt)
  also have "\<dots> < 2 ^ 64" using unsigned_less [of "reg_next_id (registry w)"] by simp
  finally show ?thesis .
qed

lemma snapshot_in_flight:
  assumes "world_ok w" "Registry_snapshot clk (registry w) = Inr shot"
  shows "unat (in_flight shot) = length (requests (registry w))"
  using assms requests_count [OF assms(1)]
  by (auto simp: Registry_snapshot_def unat_of_nat split: if_splits)

lemma snapshot_fields:
  assumes "Registry_snapshot clk s = Inr shot"
  shows "accepting shot = reg_accepting s" "stopping shot = reg_stopping s" "revision shot = reg_revision s"
  using assms by (auto simp: Registry_snapshot_def split: if_splits)

lemma drained_shot_iff:
  assumes "world_ok w" "Registry_snapshot clk (registry w) = Inr shot"
  shows "drained_shot shot \<longleftrightarrow> drained_registry (registry w)"
  using snapshot_in_flight [OF assms] snapshot_fields(1) [OF assms(2)]
  by (auto simp: drained_shot_def drained_registry_def unat_eq_0)

text \<open>An operation that drains the registry notifies.\<close>

lemma registry_unchanged:
  "\<not> drops_last w rid \<Longrightarrow> registry (snd (drop_lease w rid)) = registry w"
  "\<not> drops_last w rid \<Longrightarrow> registry (snd (PeerGuard_drop w rid)) = registry w"
  by (auto simp: drops_last_def drop_lease_def PeerGuard_drop_def LeaseInner_drop_def split: option.splits prod.splits)

lemma admit_not_drained:
  "drained_registry (snd (Registry_admit s now)) \<Longrightarrow> drained_registry s"
  by (auto simp: drained_registry_def Registry_admit_def Let_def split: option.splits if_splits)

lemma refused_commands:
  "fst (retire_drained s e) \<noteq> Inr True \<Longrightarrow> snd (retire_drained s e) = s"
  "fst (set_admission s e acc) \<noteq> Inr True \<Longrightarrow> snd (set_admission s e acc) = s"
  by (auto simp: registry_defs split: option.splits if_splits)

lemma poisoned_commands:
  "reg_poisoned s \<Longrightarrow> snd (begin_drain s) = s" "reg_poisoned s \<Longrightarrow> snd (begin_shutdown s) = s"
  by (simp_all add: registry_defs)

text \<open>Without a notification, only an admission changes the registry.\<close>

lemma silent_op:
  assumes "\<not> notifies c w"
  shows "registry (run_op c w) = registry w \<or> (\<exists>now. registry (run_op c w) = snd (Registry_admit (registry w) now))"
  using assms
  by (cases c) (auto simp: registry_unchanged on_registry_def refused_commands poisoned_commands admit_registry)

lemma silent_op_condition:
  assumes "\<not> notifies c w"
  shows "drained_registry (registry (run_op c w)) \<Longrightarrow> drained_registry (registry w)"
    and "reg_stopping (registry (run_op c w)) = reg_stopping (registry w)"
proof -
  have "reg_stopping (snd (Registry_admit s now)) = reg_stopping s" for s now
    by (simp add: Registry_admit_def Let_def split: option.splits)
  with silent_op [OF assms] show "reg_stopping (registry (run_op c w)) = reg_stopping (registry w)" by auto
  show "drained_registry (registry (run_op c w)) \<Longrightarrow> drained_registry (registry w)"
    using silent_op [OF assms] admit_not_drained by metis
qed

text \<open>
  The invariant of the loop for a condition \<open>holds\<close> of the registry that only a notifying
  operation can make true: a waiter asleep and not yet woken sees the condition false, or a
  notification is on its way.
\<close>

definition no_lost_wakeup :: "(Registry \<Rightarrow> bool) \<Rightarrow> wait_state \<Rightarrow> bool" where
  "no_lost_wakeup holds s \<longleftrightarrow> world_ok (waited_world s)
     \<and> (waiter_of s = Parked False \<and> holds (registry (waited_world s)) \<longrightarrow> 0 < pending s)"

definition watches :: "(LifecycleSnapshot \<Rightarrow> bool) \<Rightarrow> (Registry \<Rightarrow> bool) \<Rightarrow> bool" where
  "watches until holds \<longleftrightarrow>
     (\<forall>w clk shot. world_ok w \<longrightarrow> Registry_snapshot clk (registry w) = Inr shot \<longrightarrow> until shot = holds (registry w))
     \<and> (\<forall>c w. \<not> notifies c w \<longrightarrow> holds (registry (run_op c w)) \<longrightarrow> holds (registry w))"

lemma watches_drained: "watches drained_shot drained_registry"
  unfolding watches_def using drained_shot_iff silent_op_condition(1) by blast

lemma watches_stopping: "watches stopping reg_stopping"
  unfolding watches_def using snapshot_fields(2) silent_op_condition(2) by blast

lemma notified_not_asleep: "notified wt \<noteq> Parked False"
  by (cases wt) auto

lemma wait_step_invariant:
  assumes "watches until holds" and "wait_step until s t" and "no_lost_wakeup holds s"
  shows "no_lost_wakeup holds t"
  using assms(2,3,1)
proof (induction rule: wait_step.induct)
  case (check s b clk shot)
  then show ?case unfolding no_lost_wakeup_def watches_def by auto
next
  case (operation s c)
  then show ?case by (auto simp: no_lost_wakeup_def watches_def run_op_ok)
qed (auto simp: no_lost_wakeup_def notified_not_asleep)

lemma wait_invariant:
  assumes "watches until holds" and "(wait_step until)\<^sup>*\<^sup>* wait_start s"
  shows "no_lost_wakeup holds s"
  using assms(2)
proof (induction rule: rtranclp_induct)
  case base
  show ?case by (simp add: no_lost_wakeup_def wait_start_def world_ok_default)
qed (rule wait_step_invariant [OF assms(1)])

text \<open>Once the condition holds, the waiter can return without any further operation.\<close>

definition can_return :: "(LifecycleSnapshot \<Rightarrow> bool) \<Rightarrow> wait_state \<Rightarrow> bool" where
  "can_return until s \<longleftrightarrow>
     (\<exists>t. (wait_step until)\<^sup>*\<^sup>* s t \<and> waited_world t = waited_world s \<and> waiter_of t = Finished)"

lemma can_return_step:
  "wait_step until s t \<Longrightarrow> waited_world t = waited_world s \<Longrightarrow> can_return until t \<Longrightarrow> can_return until s"
  unfolding can_return_def by (metis converse_rtranclp_into_rtranclp)

definition settled :: "(LifecycleSnapshot \<Rightarrow> bool) \<Rightarrow> lifecycle_world \<Rightarrow> bool" where
  "settled until w \<longleftrightarrow> (\<exists>clk shot. Registry_snapshot clk (registry w) = Inr shot \<and> until shot)"

lemma settledI:
  assumes "watches until holds" "world_ok w" "holds (registry w)" "\<not> reg_poisoned (registry w)"
  shows "settled until w"
proof -
  obtain shot where "Registry_snapshot (\<lambda>_. 0) (registry w) = Inr shot"
    using assms(4) by (simp add: Registry_snapshot_def)
  with assms show ?thesis unfolding settled_def watches_def by blast
qed

lemma return_enabled:
  assumes "settled until (waited_world s)" "waiter_of s = Enabled b"
  shows "can_return until s"
proof -
  from assms(1) obtain clk shot
    where "Registry_snapshot clk (registry (waited_world s)) = Inr shot" "until shot"
    by (auto simp: settled_def)
  with wait_step.check [OF assms(2) this(1), of until]
  have "wait_step until s (s\<lparr>waiter_of := Finished\<rparr>)" by simp
  then show ?thesis unfolding can_return_def by (intro exI [of _ "s\<lparr>waiter_of := Finished\<rparr>"]) auto
qed

lemma return_idle:
  assumes "settled until (waited_world s)" "waiter_of s = Idle"
  shows "can_return until s"
  using wait_step.enable [OF assms(2), of until]
  by (rule can_return_step) (simp_all add: return_enabled [where b = False] assms)

lemma return_woken:
  assumes "settled until (waited_world s)" "waiter_of s = Parked True"
  shows "can_return until s"
  using wait_step.resume [OF assms(2), of until] by (rule can_return_step) (simp_all add: return_idle assms)

lemma return_asleep:
  assumes "settled until (waited_world s)" "waiter_of s = Parked False" "0 < pending s"
  shows "can_return until s"
proof -
  obtain n where "pending s = Suc n" using assms(3) by (auto simp: gr0_conv_Suc)
  from wait_step.notify [OF this, of until] show ?thesis
    by (rule can_return_step) (simp_all add: return_woken assms)
qed

lemma wait_returns:
  assumes "watches until holds" "(wait_step until)\<^sup>*\<^sup>* wait_start s"
    and "holds (registry (waited_world s))" "\<not> reg_poisoned (registry (waited_world s))" "waiter_of s \<noteq> Crashed"
  shows "can_return until s"
proof -
  have inv: "no_lost_wakeup holds s" by (rule wait_invariant [OF assms(1,2)])
  then have st: "settled until (waited_world s)"
    using settledI [OF assms(1) _ assms(3,4)] by (simp add: no_lost_wakeup_def)
  show ?thesis
  proof (cases "waiter_of s")
    case (Parked b)
    with inv assms(3) st show ?thesis
      by (cases b) (auto simp: no_lost_wakeup_def intro: return_woken return_asleep)
  next
    case Finished
    then show ?thesis unfolding can_return_def by blast
  qed (use st assms(5) return_enabled return_idle in auto)
qed

section \<open>Properties\<close>

text \<open>Dropping handles one by one.\<close>

lemma drop_handle:
  assumes "leases w rid = Some (l, Suc n)" "\<not> reg_poisoned (registry w)"
  shows "n = 0 \<Longrightarrow> registry (run_op (DropLease rid) w) = (registry w)\<lparr>requests := AList.delete rid (requests (registry w))\<rparr>
            \<and> leases (run_op (DropLease rid) w) rid = None"
    and "0 < n \<Longrightarrow> registry (run_op (DropLease rid) w) = registry w \<and> leases (run_op (DropLease rid) w) rid = Some (l, n)"
  using assms by (simp_all add: drop_lease_def LeaseInner_drop_def)

lemma drop_gone: "leases w rid = None \<Longrightarrow> fold run_op (replicate k (DropLease rid)) w = w"
  by (induction k) (simp_all add: drop_lease_def)

definition in_registry :: "lifecycle_world \<Rightarrow> u64 \<Rightarrow> bool" where
  "in_registry w rid \<longleftrightarrow> rid \<in> fst ` set (requests (registry w))"

lemma drops_release:
  assumes "leases w rid = Some (l, n)" "\<not> reg_poisoned (registry w)" "in_registry w rid" "0 < n"
  shows "in_registry (fold run_op (replicate k (DropLease rid)) w) rid \<longleftrightarrow> k < n"
  using assms
proof (induction k arbitrary: w n)
  case (Suc k)
  then obtain m where n: "n = Suc m" by (cases n) auto
  let ?w = "run_op (DropLease rid) w"
  show ?case
  proof (cases "m = 0")
    case True
    with drop_handle(1) [of w rid l m] Suc.prems n
    have "\<not> in_registry ?w rid" "leases ?w rid = None"
      by (simp_all add: in_registry_def delete_entry_keys del: run_op.simps)
    with drop_gone [of ?w rid k] True n show ?thesis by (simp del: run_op.simps)
  next
    case False
    with drop_handle(2) [of w rid l m] Suc.prems n
    have "leases ?w rid = Some (l, m)" "registry ?w = registry w" by (simp_all del: run_op.simps)
    with Suc.IH [of ?w m] Suc.prems False n show ?thesis by (simp add: in_registry_def del: run_op.simps)
  qed
qed simp

text \<open>
  C24: After any history of operations on a healthy registry, the requests it lists are exactly
  the leases with a live handle, and a request with \<open>n\<close> handles (the HTTP handler, its body,
  detached tasks) leaves the registry with its last handle and not before: dropping \<open>k\<close> of them
  keeps it exactly while \<open>k\<close> is below \<open>n\<close>.
\<close>

theorem request_owned_until_last_handle:
  assumes "w = fold run_op cs world_default" and "\<not> reg_poisoned (registry w)"
  shows "(in_registry w rid \<longleftrightarrow> leases w rid \<noteq> None)
    \<and> (\<forall>l n. leases w rid = Some (l, n) \<longrightarrow>
         (\<forall>k. in_registry (fold run_op (replicate k (DropLease rid)) w) rid \<longleftrightarrow> k < n))"
proof -
  have ok: "world_ok w" using reachable_ok assms(1) by simp
  have iff: "in_registry w rid \<longleftrightarrow> leases w rid \<noteq> None"
  proof
    show "in_registry w rid \<Longrightarrow> leases w rid \<noteq> None"
      using ok assms(2) by (auto simp: world_ok_def in_registry_def)
    assume "leases w rid \<noteq> None"
    then obtain ln where "leases w rid = Some ln" by blast
    from world_ok_leaseD [OF ok this] show "in_registry w rid"
      by (auto simp: lease_ok_def is_some_and_iff in_registry_def dest!: map_of_SomeD intro: rev_image_eqI)
  qed
  with drops_release [OF _ assms(2)] world_ok_handles [OF ok] show ?thesis by auto
qed

theorem request_owned_until_last_handle_witness:
  "\<exists>l. leases (fold run_op [Admit 5, Spawn (Some 0)] world_default) 0 = Some (l, 2)
     \<and> in_registry (fold run_op [DropLease 0] (fold run_op [Admit 5, Spawn (Some 0)] world_default)) 0
     \<and> \<not> in_registry (fold run_op [DropLease 0, DropLease 0] (fold run_op [Admit 5, Spawn (Some 0)] world_default)) 0"
proof -
  let ?w = "fold run_op [Admit 5, Spawn (Some 0)] world_default"
  have a: "checked_add (0 :: u64) 1 = Some 1" by (simp add: checked_add_def)
  have b: "instant_plus 5 REQUEST_BUDGET = Some (5 + REQUEST_BUDGET)"
    by (simp add: instant_plus_def REQUEST_BUDGET_def instant_limit_def)
  have reg: "\<not> reg_poisoned (registry ?w)" and l: "\<exists>l. leases ?w 0 = Some (l, 2)"
    by (simp_all add: admit_def Registry_admit_def world_default_def Registry_default_def a b Let_def
        spawn_def clone_lease_def)
  from l obtain l where l: "leases ?w 0 = Some (l, 2)" by blast
  with request_owned_until_last_handle [OF refl reg, of 0]
  have d: "\<forall>k. in_registry (fold run_op (replicate k (DropLease 0)) ?w) 0 \<longleftrightarrow> k < 2" by blast
  have "replicate 1 (DropLease 0) = [DropLease 0]" "replicate 2 (DropLease 0) = [DropLease 0, DropLease 0]"
    by (simp_all add: numeral_2_eq_2)
  with l spec [OF d, of 1] spec [OF d, of 2] show ?thesis by (metis less_irrefl one_less_numeral_iff semiring_norm(76))
qed

text \<open>What a successful retirement saw and left.\<close>

lemma retire_drained_True:
  "retire_drained s e = (Inr True, t) \<Longrightarrow>
     \<not> reg_accepting s \<and> requests s = [] \<and> reg_revision s = e \<and> \<not> reg_poisoned s
     \<and> reg_stopping t \<and> \<not> reg_accepting t \<and> requests t = [] \<and> checked_add e 1 = Some (reg_revision t)"
  by (auto simp: retire_drained_def split: if_splits option.splits)

text \<open>While the revision stays the same, and below its last value, nothing stops the process.\<close>

lemma saturating_succ_neq: "r < - 1 \<Longrightarrow> saturating_add r 1 \<noteq> (r :: 'a::len word)"
proof (cases "checked_add r 1")
  case (Some c)
  then show ?thesis using checked_succ_neq by (fastforce simp: saturating_add_def)
qed (simp add: saturating_add_def)

lemma stopping_changes_revision:
  "reg_revision s < - 1 \<Longrightarrow> \<not> reg_stopping s \<Longrightarrow> reg_revision (registry (run_op c w)) = reg_revision s \<Longrightarrow>
     registry w = s \<Longrightarrow> \<not> reg_stopping (registry (run_op c w))"
  using run_op_registry [of c w]
  by (auto simp: registry_defs Let_def saturating_succ_neq dest: checked_succ_neq split: option.splits if_splits)

lemma same_revision_not_stopping:
  assumes "\<not> reg_stopping (registry w)" "reg_revision (registry w) < - 1"
    and "reg_revision (registry (fold run_op cs w)) = reg_revision (registry w)"
  shows "\<not> reg_stopping (registry (fold run_op cs w))"
  using assms
proof (induction cs arbitrary: w)
  case (Cons c cs)
  have "reg_revision (registry (run_op c w)) = reg_revision (registry w)"
    using gate.revision_mono [of w c] gate.history_revision [of "run_op c w" cs] Cons.prems(3)
    by (simp add: word_unat_eq_iff)
  with Cons.IH [of "run_op c w"] stopping_changes_revision [OF Cons.prems(2,1) _ refl] Cons.prems
  show ?case by simp
qed simp

lemma checked_succ_exists: "(r :: u64) < - 1 \<Longrightarrow> \<exists>n. checked_add r 1 = Some n"
proof -
  assume "r < - 1"
  then have "unat r < unat (- 1 :: u64)" by (simp add: word_less_nat_alt)
  moreover have "unat (- 1 :: u64) = 2 ^ 64 - 1" by (simp add: unsigned_minus_1_eq_mask mask_eq_exp_minus_1)
  ultimately have "unat r + unat (1 :: u64) < 2 ^ LENGTH(64)" by simp
  then show ?thesis by (simp add: checked_add_def)
qed

lemma retirement_reply:
  assumes "retire_drained s e = (Inr True, t)" "Registry_snapshot clk t = Inr shot"
  shows "checked_add e 1 = Some (revision shot) \<and> \<not> accepting shot \<and> stopping shot \<and> in_flight shot = 0"
  using retire_drained_True [OF assms(1)] assms(2) by (auto simp: Registry_snapshot_def split: if_splits)

lemma closed_refuses:
  "\<not> reg_accepting (registry w) \<Longrightarrow> fst (admit w now) \<in> {Inr None, Inl RegistryPoisoned}"
  by (auto simp: admit_def Registry_admit_def split: prod.splits)

text \<open>
  C23: A retirement command that names the revision of a closed registry and succeeds proves that
  the registry stayed closed, with no new request, during everything that happened since that
  revision was observed, and that nothing was in flight; after it, whatever operations follow,
  the process is stopping, stays empty and refuses every admission.
\<close>

theorem drained_retirement_is_final:
  assumes "\<not> reg_accepting (registry w)"
    and "retire_drained (registry (fold run_op cs w)) (reg_revision (registry w)) = (Inr True, s)"
  shows "(\<forall>k. \<not> reg_accepting (registry (fold run_op (take k cs) w))
              \<and> length (requests (registry (fold run_op (take k cs) w))) \<le> length (requests (registry w)))
    \<and> requests s = []
    \<and> (\<forall>ds. let v = fold run_op (cs @ [RetireDrained (reg_revision (registry w))] @ ds) w in
          reg_stopping (registry v) \<and> \<not> reg_accepting (registry v) \<and> requests (registry v) = []
          \<and> (\<forall>now. fst (admit v now) \<in> {Inr None, Inl RegistryPoisoned}))"
proof -
  let ?v = "fold run_op cs w"
  note won = retire_drained_True [OF assms(2)]
  have s: "requests s = []" "reg_stopping s" "\<not> reg_accepting s" using won by simp_all
  have closed: "closed_gate w" using assms(1) by (simp add: closed_gate_def)
  have "unat (reg_revision (registry ?v)) = unat (reg_revision (registry w))" using won by simp
  from gate.closed_prefix [OF closed this]
  have prefix: "\<not> reg_accepting (registry (fold run_op (take k cs) w))
              \<and> length (requests (registry (fold run_op (take k cs) w))) \<le> length (requests (registry w))" for k
    by (simp add: closed_gate_def gate_load_def)
  let ?u = "run_op (RetireDrained (reg_revision (registry w))) ?v"
  have u: "registry ?u = s" using assms(2) by (simp add: on_registry_def)
  have after: "reg_stopping (registry (fold run_op ds ?u)) \<and> \<not> reg_accepting (registry (fold run_op ds ?u))
      \<and> requests (registry (fold run_op ds ?u)) = []" for ds
    using gate.stopped_history [of ?u ds] u s by (simp add: closed_gate_def gate_load_def)
  show ?thesis
    using prefix s(1) after closed_refuses by (simp add: Let_def)
qed

text \<open>A request that came and went, then a drain.\<close>

definition sample_drain :: "lifecycle_op list" where
  "sample_drain = [DropLease 0]"

theorem drained_retirement_is_final_witness:
  "let w = fold run_op [Admit 5, BeginDrain] world_default in
     requests (registry (fold run_op (sample_drain @ [RetireDrained (reg_revision (registry w))] @ [SetAdmission 2 True]) w)) = []
     \<and> length (requests (registry w)) = 1"
proof -
  let ?w = "fold run_op [Admit 5, BeginDrain] world_default"
  have a: "checked_add (0 :: u64) 1 = Some 1" "checked_add (1 :: u64) 1 = Some 2"
    by (simp_all add: checked_add_def)
  have b: "instant_plus 5 REQUEST_BUDGET = Some (5 + REQUEST_BUDGET)"
    by (simp add: instant_plus_def REQUEST_BUDGET_def instant_limit_def)
  note run = admit_def Registry_admit_def world_default_def Registry_default_def a b Let_def on_registry_def
    begin_drain_def saturating_add_def drop_lease_def LeaseInner_drop_def retire_drained_def sample_drain_def
  have "\<not> reg_accepting (registry ?w)" by (simp add: run)
  moreover obtain s where
    "retire_drained (registry (fold run_op sample_drain ?w)) (reg_revision (registry ?w)) = (Inr True, s)"
    by (simp add: run)
  moreover have "length (requests (registry ?w)) = 1" by (simp add: run)
  ultimately show ?thesis
    using drained_retirement_is_final [of ?w sample_drain] unfolding Let_def by blast
qed

text \<open>
  C25: \<open>wait_drained\<close> and \<open>wait_shutdown_started\<close> lose no wake-up. Whatever operations and
  deliveries of notifications interleave with the loop, once the registry is drained (or
  stopping) the waiter can return without any further operation on the registry: if it sleeps,
  a notification that wakes it is still on its way.
\<close>

theorem waiting_misses_no_wakeup:
  assumes "\<not> reg_poisoned (registry (waited_world s))" and "waiter_of s \<noteq> Crashed"
  shows "((wait_step drained_shot)\<^sup>*\<^sup>* wait_start s \<and> drained_registry (registry (waited_world s))
           \<longrightarrow> can_return drained_shot s)
    \<and> ((wait_step stopping)\<^sup>*\<^sup>* wait_start s \<and> reg_stopping (registry (waited_world s))
           \<longrightarrow> can_return stopping s)"
  using wait_returns [OF watches_drained _ _ assms] wait_returns [OF watches_stopping _ _ assms] by blast

theorem waiting_misses_no_wakeup_witness:
  "can_return drained_shot \<lparr>waited_world = fold run_op [BeginDrain] world_default, pending = 1, waiter_of = Idle\<rparr>"
proof -
  let ?s = "\<lparr>waited_world = run_op BeginDrain world_default, pending = 1, waiter_of = Idle\<rparr>"
  have "wait_step drained_shot wait_start ?s"
    using wait_step.operation [of drained_shot wait_start BeginDrain]
    by (simp add: wait_start_def world_default_def Registry_default_def del: run_op.simps)
  then have "(wait_step drained_shot)\<^sup>*\<^sup>* wait_start ?s" by (rule r_into_rtranclp)
  with waiting_misses_no_wakeup [of ?s] show ?thesis
    by (simp add: on_registry_def begin_drain_def world_default_def Registry_default_def drained_registry_def)
qed

text \<open>
  C26: The budget of every attempt of an admitted request ends inside the same deadline, 690
  seconds after its admission, so that the last 30 of the 720 seconds stay for settlement; it
  never exceeds what the caller asked for, and it is refused exactly for a disconnected peer or
  an elapsed deadline.
\<close>

theorem attempt_budget_within_deadline:
  assumes "w = fold run_op cs world_default" and "leases w rid = Some (l, n)"
  shows "\<exists>admitted. map_of (requests (registry w)) rid = Some admitted
    \<and> (\<forall>now maximum. case execution_budget (Some l) now maximum of
         Inr b \<Rightarrow> b \<le> maximum \<and> now + b \<le> admitted + 690000000000
           \<and> now + b + SETTLEMENT_RESERVE \<le> response_deadline l
       | Inl _ \<Rightarrow> disconnected l \<or> admitted + 690000000000 \<le> now)"
proof -
  have "world_ok w" using reachable_ok assms(1) by simp
  from world_ok_leaseD [OF this assms(2)] obtain t where
    t: "map_of (requests (registry w)) rid = Some t" "response_deadline l = t + REQUEST_BUDGET"
      "execution_deadline l + SETTLEMENT_RESERVE = response_deadline l"
    by (auto simp: lease_ok_def is_some_and_iff)
  then have "execution_deadline l = t + 690000000000"
    by (simp add: REQUEST_BUDGET_def SETTLEMENT_RESERVE_def)
  with t show ?thesis by (auto simp: execution_budget_def Let_def)
qed

theorem attempt_budget_within_deadline_witness:
  "\<exists>l. leases (fold run_op [Admit 5] world_default) 0 = Some (l, 1)
     \<and> (\<exists>b. execution_budget (Some l) 600000000005 120000000000 = Inr b \<and> b \<le> 90000000000)"
proof -
  let ?w = "fold run_op [Admit 5] world_default"
  have a: "checked_add (0 :: u64) 1 = Some 1" by (simp add: checked_add_def)
  have b: "instant_plus 5 REQUEST_BUDGET = Some (5 + REQUEST_BUDGET)"
    by (simp add: instant_plus_def REQUEST_BUDGET_def instant_limit_def)
  obtain l where l: "leases ?w 0 = Some (l, 1)" "execution_deadline l = 5 + REQUEST_BUDGET - SETTLEMENT_RESERVE"
      "\<not> disconnected l"
    by (simp add: admit_def Registry_admit_def world_default_def Registry_default_def a b Let_def)
  have t: "map_of (requests (registry ?w)) 0 = Some 5"
    by (simp add: admit_def Registry_admit_def world_default_def Registry_default_def a b Let_def)
  obtain c where c: "execution_budget (Some l) 600000000005 120000000000 = Inr c"
    using l by (simp add: execution_budget_def Let_def REQUEST_BUDGET_def SETTLEMENT_RESERVE_def)
  from attempt_budget_within_deadline [OF refl l(1)] t
  have "\<forall>now maximum. case execution_budget (Some l) now maximum of
      Inr b \<Rightarrow> now + b \<le> 5 + 690000000000 | Inl _ \<Rightarrow> True"
    by (auto split: sum.splits)
  from spec [OF spec [OF this], of 600000000005 120000000000] c have "c \<le> 90000000000" by simp
  with l(1) c show ?thesis by blast
qed

end
