(* ===== verification/Timestamps.thy ===== *)
theory Timestamps
  imports Prelude
begin

text \<open>
  Wall-clock instants. \<open>OffsetDateTime\<close> and \<open>Duration\<close> belong to the \<open>time\<close> crate: what the
  code calls of them is the record \<open>time_ops\<close>, an argument of the definitions that use it. A
  duration is its count of nanoseconds. Adding a duration panics when the result leaves the
  range of representable dates, which is the value \<open>None\<close>. \<open>time_laws\<close> states the documented
  behaviour: comparison, subtraction and addition act on the instant in nanoseconds.
\<close>

type_synonym duration = int

record 't time_ops =
  unix_timestamp_nanos :: "'t \<Rightarrow> int"
  time_less :: "'t \<Rightarrow> 't \<Rightarrow> bool"
  time_diff :: "'t \<Rightarrow> 't \<Rightarrow> duration"
  time_plus :: "'t \<Rightarrow> duration \<Rightarrow> 't option"
  parse_rfc3339 :: "string \<Rightarrow> 't option"

definition time_laws :: "'t time_ops \<Rightarrow> bool" where
  "time_laws T \<longleftrightarrow>
     (\<forall>a b. time_less T a b \<longleftrightarrow> unix_timestamp_nanos T a < unix_timestamp_nanos T b)
   \<and> (\<forall>a b. time_diff T a b = unix_timestamp_nanos T a - unix_timestamp_nanos T b)
   \<and> (\<forall>a d b. time_plus T a d = Some b \<longrightarrow> unix_timestamp_nanos T b = unix_timestamp_nanos T a + d)"

lemma time_lawsD:
  assumes "time_laws T"
  shows "time_less T a b \<longleftrightarrow> unix_timestamp_nanos T a < unix_timestamp_nanos T b"
    and "time_diff T a b = unix_timestamp_nanos T a - unix_timestamp_nanos T b"
    and "time_plus T a d = Some b \<Longrightarrow> unix_timestamp_nanos T b = unix_timestamp_nanos T a + d"
  using assms by (simp_all add: time_laws_def)

text \<open>\<open>unix_timestamp\<close> counts the whole seconds before the instant.\<close>

definition unix_timestamp :: "'t time_ops \<Rightarrow> 't \<Rightarrow> int" where
  "unix_timestamp T t = unix_timestamp_nanos T t div 1000000000"

definition seconds :: "int \<Rightarrow> duration" where
  "seconds n = n * 1000000000"

definition minutes :: "int \<Rightarrow> duration" where
  "minutes n = seconds (n * 60)"

definition days :: "int \<Rightarrow> duration" where
  "days n = seconds (n * 86400)"

text \<open>\<open>whole_milliseconds\<close> rounds toward zero.\<close>

definition whole_milliseconds :: "duration \<Rightarrow> int" where
  "whole_milliseconds d = (if d < 0 then - ((- d) div 1000000) else d div 1000000)"

text \<open>
  A concrete instance: instants are their nanoseconds, from the year 1 to the year 9999, and
  text is an instant when it lists its nanoseconds in decimal digits.
\<close>

definition sample_time :: "int time_ops" where
  "sample_time =
     \<lparr>unix_timestamp_nanos = id, time_less = (<), time_diff = (-),
      time_plus = (\<lambda>t d. if - 62135596800000000000 \<le> t + d \<and> t + d < 253402300800000000000
                         then Some (t + d) else None),
      parse_rfc3339 = (\<lambda>s. if s \<noteq> [] \<and> list_all is_ascii_digit s
         then Some (foldl (\<lambda>n c. 10 * n + (int (byte_of c) - 48)) 0 s) else None)\<rparr>"

lemma sample_time_laws: "time_laws sample_time"
  by (simp add: time_laws_def sample_time_def)

end
