(* ===== verification/Routing.thy ===== *)
theory Routing
  imports Timestamps
begin

text \<open>
  Runner selection and delivery attempts (\<open>routing/src/lib.rs\<close>): which runners are candidates
  for a request, their load score, the choice of the last successful runner or of the least
  loaded one, and the state of one delivery with its single permitted switch. Outcomes:
  \<open>None\<close> is the panic of a date out of range.
\<close>

section \<open>Runners\<close>

datatype 't CircuitState = CircuitClosed | CircuitOpen (retry_at: 't) | HalfOpen

record 't RunnerSnapshot =
  runner_id :: string
  enabled :: bool
  protocol_version :: u32
  last_heartbeat_at :: 't
  inflight :: u32
  max_inflight :: u32
  recent_request_count :: u32
  recent_error_rate_ppm :: u32
  latency_ms :: u32
  circuit :: "'t CircuitState"

definition circuit_permits :: "'t time_ops \<Rightarrow> 't \<Rightarrow> 't RunnerSnapshot \<Rightarrow> bool" where
  "circuit_permits T now r =
     (case circuit r of
        CircuitClosed \<Rightarrow> True
      | CircuitOpen retry \<Rightarrow> \<not> time_less T now retry \<and> inflight r = 0
      | HalfOpen \<Rightarrow> inflight r = 0)"

text \<open>The guards are tested in the order of the code; only the last one computes a date.\<close>

definition is_candidate :: "'t time_ops \<Rightarrow> 't RunnerSnapshot \<Rightarrow> u32 \<Rightarrow> 't \<Rightarrow> duration \<Rightarrow> bool option" where
  "is_candidate T r required_protocol now timeout =
     (if \<not> enabled r
        \<or> protocol_version r \<noteq> required_protocol
        \<or> max_inflight r = 0
        \<or> max_inflight r \<le> inflight r
        \<or> timeout < time_diff T now (last_heartbeat_at r)
      then Some False
      else case time_plus T now (minutes 1) of
             None \<Rightarrow> None
           | Some horizon \<Rightarrow>
               Some (\<not> time_less T horizon (last_heartbeat_at r) \<and> circuit_permits T now r))"

text \<open>
  The score is computed in \<open>u128\<close>; \<open>load_score_fits\<close> below shows that no runner leaves its range.
  It is called for candidates only, whose \<open>max_inflight\<close> is not zero.
\<close>

definition load_score :: "'t time_ops \<Rightarrow> 't RunnerSnapshot \<Rightarrow> 't \<Rightarrow> nat" where
  "load_score T r now =
     (let utilization_ppm = unat (inflight r) * 1000000 div unat (max_inflight r);
          heartbeat_age_ms = nat (max (whole_milliseconds (time_diff T now (last_heartbeat_at r))) 0)
      in utilization_ppm * 1000000000
         + unat (recent_request_count r) * 10000000
         + unat (recent_error_rate_ppm r) * 10000
         + unat (latency_ms r) * 100
         + min heartbeat_age_ms 60000)"

datatype SelectionReason = LastSuccessfulAffinity | LowestRecentLoad

record RunnerSelection =
  selected_runner_id :: string
  reason :: SelectionReason

datatype RoutingError = NoRunnerReady | RetryForbidden

text \<open>\<open>filter\<close> and \<open>min_by_key\<close>; of several least elements the first one is returned.\<close>

fun filter_candidates :: "('a \<Rightarrow> bool option) \<Rightarrow> 'a list \<Rightarrow> 'a list option" where
  "filter_candidates p [] = Some []"
| "filter_candidates p (x # xs) =
     (case p x of
        None \<Rightarrow> None
      | Some b \<Rightarrow> map_option (\<lambda>ys. if b then x # ys else ys) (filter_candidates p xs))"

definition key_less :: "nat \<times> string \<Rightarrow> nat \<times> string \<Rightarrow> bool" where
  "key_less a b \<longleftrightarrow> fst a < fst b \<or> (fst a = fst b \<and> bytes_less (snd a) (snd b))"

fun min_by_key :: "('a \<Rightarrow> nat \<times> string) \<Rightarrow> 'a list \<Rightarrow> 'a option" where
  "min_by_key key [] = None"
| "min_by_key key (x # xs) = Some (foldl (\<lambda>best y. if key_less (key y) (key best) then y else best) x xs)"

definition select_runner ::
    "'t time_ops \<Rightarrow> 't RunnerSnapshot list \<Rightarrow> string option \<Rightarrow> u32 \<Rightarrow> 't \<Rightarrow> duration
      \<Rightarrow> (RoutingError, RunnerSelection) result option" where
  "select_runner T runners last_success required_protocol now timeout =
     map_option (\<lambda>candidates.
       case Option.bind last_success (\<lambda>affinity. find (\<lambda>r. runner_id r = affinity) candidates) of
         Some r \<Rightarrow> Inr \<lparr>selected_runner_id = runner_id r, reason = LastSuccessfulAffinity\<rparr>
       | None \<Rightarrow>
           ok_or (map_option (\<lambda>r. \<lparr>selected_runner_id = runner_id r, reason = LowestRecentLoad\<rparr>)
                    (min_by_key (\<lambda>r. (load_score T r now, runner_id r)) candidates)) NoRunnerReady)
       (filter_candidates (\<lambda>r. is_candidate T r required_protocol now timeout) runners)"

section \<open>Delivery attempts\<close>

datatype DeliveryPhase = Assigned | RunnerAccepted | UpstreamStarted | Streaming | Completed | Failed

record DeliveryAttempt =
  delivery_phase :: DeliveryPhase
  switches_used :: u8

definition DeliveryAttempt_new :: DeliveryAttempt where
  "DeliveryAttempt_new = \<lparr>delivery_phase = Assigned, switches_used = 0\<rparr>"

fun phase_advances :: "DeliveryPhase \<Rightarrow> DeliveryPhase \<Rightarrow> bool" where
  "phase_advances Assigned next = (next \<in> {RunnerAccepted, Failed})"
| "phase_advances RunnerAccepted next = (next \<in> {UpstreamStarted, Failed})"
| "phase_advances UpstreamStarted next = (next \<in> {Streaming, Completed, Failed})"
| "phase_advances Streaming next = (next \<in> {Completed, Failed})"
| "phase_advances Completed next = False"
| "phase_advances Failed next = False"

definition DeliveryAttempt_advance ::
    "DeliveryAttempt \<Rightarrow> DeliveryPhase \<Rightarrow> (RoutingError, unit) result \<times> DeliveryAttempt" where
  "DeliveryAttempt_advance a next =
     (if \<not> phase_advances (delivery_phase a) next then (Inl RetryForbidden, a)
      else (Inr (), a\<lparr>delivery_phase := next\<rparr>))"

definition switch_runner :: "DeliveryAttempt \<Rightarrow> (RoutingError, unit) result \<times> DeliveryAttempt" where
  "switch_runner a =
     (if switches_used a \<noteq> 0 \<or> delivery_phase a \<notin> {Assigned, RunnerAccepted}
      then (Inl RetryForbidden, a)
      else (Inr (), a\<lparr>switches_used := 1, delivery_phase := Assigned\<rparr>))"

datatype delivery_op = Advance DeliveryPhase | SwitchRunner

fun delivery_step :: "delivery_op \<Rightarrow> DeliveryAttempt \<Rightarrow> (RoutingError, unit) result \<times> DeliveryAttempt" where
  "delivery_step (Advance next) a = DeliveryAttempt_advance a next"
| "delivery_step SwitchRunner a = switch_runner a"

text \<open>The operations of a history that succeeded, and the attempt after it.\<close>

fun delivery_run :: "delivery_op list \<Rightarrow> DeliveryAttempt \<Rightarrow> delivery_op list \<times> DeliveryAttempt" where
  "delivery_run [] a = ([], a)"
| "delivery_run (c # cs) a =
     (case delivery_step c a of
        (Inl _, a') \<Rightarrow> delivery_run cs a'
      | (Inr _, a') \<Rightarrow> (case delivery_run cs a' of (done, b) \<Rightarrow> (c # done, b)))"

section \<open>Selection\<close>

lemma key_less_trans: "key_less a b \<Longrightarrow> key_less b c \<Longrightarrow> key_less a c"
  by (auto simp: key_less_def intro: bytes_less_trans)

lemma key_less_irrefl [simp]: "\<not> key_less a a"
  by (simp add: key_less_def)

lemma key_less_total: "key_less a b \<or> a = b \<or> key_less b a"
  unfolding key_less_def by (metis bytes_less_total linorder_less_linear prod.expand)

lemma foldl_least:
  assumes "m = foldl (\<lambda>best y. if key_less (key y) (key best) then y else best) x xs"
  shows "m \<in> set (x # xs) \<and> (\<forall>y\<in>set (x # xs). \<not> key_less (key y) (key m))"
  using assms
proof (induction xs arbitrary: x)
  case (Cons z zs)
  let ?x = "if key_less (key z) (key x) then z else x"
  from Cons.prems Cons.IH [of ?x]
  have IH: "m \<in> set (?x # zs)" "\<forall>y\<in>set (?x # zs). \<not> key_less (key y) (key m)" by simp_all
  have "\<not> key_less (key y) (key m)" if "y = x \<or> y = z" for y
  proof (cases "y = ?x")
    case False
    then have "key_less (key ?x) (key y) \<or> key y = key ?x"
      using that key_less_total [of "key z" "key x"] by (auto split: if_splits)
    moreover have "\<not> key_less (key ?x) (key m)" using IH(2) by simp
    ultimately show ?thesis using key_less_trans by metis
  qed (use IH(2) in simp)
  with IH show ?case by (auto split: if_splits)
qed simp

lemma min_by_key_Some:
  assumes "min_by_key key xs = Some m"
  shows "m \<in> set xs" and "y \<in> set xs \<Longrightarrow> \<not> key_less (key y) (key m)"
proof -
  obtain x rest where xs: "xs = x # rest" using assms by (cases xs) auto
  with assms have "m = foldl (\<lambda>best y. if key_less (key y) (key best) then y else best) x rest" by simp
  from foldl_least [OF this] xs have "m \<in> set xs \<and> (\<forall>y\<in>set xs. \<not> key_less (key y) (key m))" by simp
  then show "m \<in> set xs" and "y \<in> set xs \<Longrightarrow> \<not> key_less (key y) (key m)" by blast+
qed

lemma min_by_key_None [simp]: "min_by_key key xs = None \<longleftrightarrow> xs = []"
  by (cases xs) simp_all

lemma filter_candidates_total:
  "(\<And>x. x \<in> set xs \<Longrightarrow> p x = Some (q x)) \<Longrightarrow> filter_candidates p xs = Some (filter q xs)"
  by (induction xs) auto

text \<open>What makes a runner eligible, on instants in nanoseconds.\<close>

definition eligible :: "'t time_ops \<Rightarrow> u32 \<Rightarrow> 't \<Rightarrow> duration \<Rightarrow> 't RunnerSnapshot \<Rightarrow> bool" where
  "eligible T proto now timeout r \<longleftrightarrow>
     (let clk = unix_timestamp_nanos T in
      enabled r \<and> protocol_version r = proto \<and> inflight r < max_inflight r
      \<and> clk now - clk (last_heartbeat_at r) \<le> timeout
      \<and> clk (last_heartbeat_at r) \<le> clk now + 60000000000
      \<and> (case circuit r of
           CircuitClosed \<Rightarrow> True
         | CircuitOpen retry \<Rightarrow> clk retry \<le> clk now \<and> inflight r = 0
         | HalfOpen \<Rightarrow> inflight r = 0))"

lemma is_candidate_eligible:
  assumes "time_laws T" "time_plus T now (minutes 1) = Some horizon"
  shows "is_candidate T r proto now timeout = Some (eligible T proto now timeout r)"
proof -
  have "inflight r < max_inflight r \<Longrightarrow> max_inflight r \<noteq> 0" by auto
  with time_lawsD(3) [OF assms] assms(2) show ?thesis
    by (auto simp: is_candidate_def eligible_def circuit_permits_def Let_def time_lawsD(1,2) [OF assms(1)]
        minutes_def seconds_def not_less not_le split: CircuitState.splits)
qed

lemma select_runner_eligible:
  assumes "time_laws T" "time_plus T now (minutes 1) = Some horizon"
  shows "select_runner T runners last_success proto now timeout =
    (let candidates = filter (eligible T proto now timeout) runners in
     Some (case Option.bind last_success (\<lambda>affinity. find (\<lambda>r. runner_id r = affinity) candidates) of
         Some r \<Rightarrow> Inr \<lparr>selected_runner_id = runner_id r, reason = LastSuccessfulAffinity\<rparr>
       | None \<Rightarrow>
           ok_or (map_option (\<lambda>r. \<lparr>selected_runner_id = runner_id r, reason = LowestRecentLoad\<rparr>)
                    (min_by_key (\<lambda>r. (load_score T r now, runner_id r)) candidates)) NoRunnerReady))"
  using filter_candidates_total [of runners "\<lambda>r. is_candidate T r proto now timeout"]
    is_candidate_eligible [OF assms]
  by (simp add: select_runner_def Let_def)

lemma affinity_found:
  "Option.bind last_id (\<lambda>affinity. find (\<lambda>r. runner_id r = affinity) cs) = Some r \<Longrightarrow>
     r \<in> set cs \<and> last_id = Some (runner_id r)"
  by (cases last_id) (auto simp: find_Some_iff)

lemma affinity_missing:
  "Option.bind last_id (\<lambda>affinity. find (\<lambda>r. runner_id r = affinity) cs) = None \<Longrightarrow>
     r \<in> set cs \<Longrightarrow> last_id \<noteq> Some (runner_id r)"
  by (cases last_id) (auto simp: find_None_iff)

text \<open>
  C27: Runner selection always returns: no runner exactly when none is eligible, the last
  successful runner exactly when it is eligible, and otherwise an eligible runner whose load
  score, with its identifier as tie-break, no eligible runner undercuts.
\<close>

theorem select_runner_spec:
  assumes "time_laws T" and "time_plus T now (minutes 1) \<noteq> None"
  shows "\<exists>res. select_runner T runners last_success proto now timeout = Some res
    \<and> (case res of
         Inl e \<Rightarrow> e = NoRunnerReady \<and> (\<forall>r\<in>set runners. \<not> eligible T proto now timeout r)
       | Inr sel \<Rightarrow> \<exists>r\<in>set runners. eligible T proto now timeout r \<and> selected_runner_id sel = runner_id r
           \<and> (reason sel = LastSuccessfulAffinity \<longleftrightarrow>
               (\<exists>x\<in>set runners. eligible T proto now timeout x \<and> last_success = Some (runner_id x)))
           \<and> (reason sel = LastSuccessfulAffinity \<longrightarrow> last_success = Some (runner_id r))
           \<and> (reason sel = LowestRecentLoad \<longrightarrow>
               (\<forall>x\<in>set runners. eligible T proto now timeout x \<longrightarrow>
                  \<not> key_less (load_score T x now, runner_id x) (load_score T r now, runner_id r))))"
proof -
  obtain horizon where h: "time_plus T now (minutes 1) = Some horizon" using assms(2) by blast
  let ?cs = "filter (eligible T proto now timeout) runners"
  let ?aff = "Option.bind last_success (\<lambda>affinity. find (\<lambda>r. runner_id r = affinity) ?cs)"
  note sel = select_runner_eligible [OF assms(1) h, of runners last_success proto timeout]
  show ?thesis
  proof (cases ?aff)
    case (Some r)
    with affinity_found [OF Some] sel show ?thesis by (auto simp: Let_def)
  next
    case None
    note missing = affinity_missing [OF None]
    show ?thesis
    proof (cases "min_by_key (\<lambda>r. (load_score T r now, runner_id r)) ?cs")
      case None
      with sel \<open>?aff = None\<close> show ?thesis by (simp add: Let_def filter_empty_conv)
    next
      case (Some r)
      with sel \<open>?aff = None\<close> missing min_by_key_Some [OF Some] show ?thesis
        by (auto simp: Let_def intro!: bexI [of _ r])
    qed
  qed
qed

definition sample_runner :: "string \<Rightarrow> u32 \<Rightarrow> int RunnerSnapshot" where
  "sample_runner rid load =
     \<lparr>runner_id = rid, enabled = True, protocol_version = 2, last_heartbeat_at = 0, inflight = load,
      max_inflight = 4, recent_request_count = 0, recent_error_rate_ppm = 0, latency_ms = 10,
      circuit = CircuitClosed\<rparr>"

theorem select_runner_spec_witness:
  "select_runner sample_time [sample_runner ''a'' 3, sample_runner ''b'' 2] (Some ''c'') 2 0 1000
     = Some (Inr \<lparr>selected_runner_id = ''b'', reason = LowestRecentLoad\<rparr>)
   \<and> \<not> key_less (load_score sample_time (sample_runner ''a'' 3) 0, ''a'') (load_score sample_time (sample_runner ''b'' 2) 0, ''b'')"
proof -
  let ?rs = "[sample_runner ''a'' 3, sample_runner ''b'' 2]"
  have h: "time_plus sample_time (0::int) (minutes 1) \<noteq> None"
    by (simp add: sample_time_def minutes_def seconds_def)
  have e: "eligible sample_time 2 0 1000 (sample_runner ''a'' 3)"
    by (simp add: eligible_def sample_time_def sample_runner_def Let_def)
  have s: "select_runner sample_time ?rs (Some ''c'') 2 0 1000
      = Some (Inr \<lparr>selected_runner_id = ''b'', reason = LowestRecentLoad\<rparr>)"
    by (simp add: select_runner_def is_candidate_def circuit_permits_def sample_time_def sample_runner_def
        minutes_def seconds_def key_less_def load_score_def whole_milliseconds_def Let_def)
  with select_runner_spec [OF sample_time_laws h, of ?rs "Some ''c''" 2 1000] e
  show ?thesis by (auto simp: sample_runner_def)
qed

text \<open>The load score fits an \<open>u128\<close> whatever the runner reports.\<close>

lemma load_score_fits: "load_score T r now < 2 ^ 128"
proof -
  have b: "unat (x :: u32) \<le> 4294967295" for x using unat_less_pow [of x] by simp
  have "unat (inflight r) * 1000000 div unat (max_inflight r) \<le> unat (inflight r) * 1000000"
    by (rule div_le_dividend)
  with b [of "inflight r"] have "unat (inflight r) * 1000000 div unat (max_inflight r) \<le> 4294967295000000"
    by linarith
  with b [of "recent_request_count r"] b [of "recent_error_rate_ppm r"] b [of "latency_ms r"]
  show ?thesis by (simp add: load_score_def Let_def)
qed

section \<open>Delivery\<close>

lemma delivery_step_ok:
  "delivery_step c a = (Inr u, b) \<Longrightarrow>
     (\<exists>next. c = Advance next \<and> phase_advances (delivery_phase a) next \<and> b = a\<lparr>delivery_phase := next\<rparr>)
     \<or> (c = SwitchRunner \<and> switches_used a = 0 \<and> delivery_phase a \<in> {Assigned, RunnerAccepted}
        \<and> b = a\<lparr>switches_used := 1, delivery_phase := Assigned\<rparr>)"
  by (cases c) (auto simp: DeliveryAttempt_advance_def switch_runner_def split: if_splits)

lemma delivery_step_error: "delivery_step c a = (Inl e, b) \<Longrightarrow> b = a"
  by (cases c) (auto simp: DeliveryAttempt_advance_def switch_runner_def split: if_splits)

lemma phase_advances_cases:
  "phase_advances p n \<Longrightarrow> (p, n) \<in> {(Assigned, RunnerAccepted), (Assigned, Failed),
     (RunnerAccepted, UpstreamStarted), (RunnerAccepted, Failed), (UpstreamStarted, Streaming),
     (UpstreamStarted, Completed), (UpstreamStarted, Failed), (Streaming, Completed), (Streaming, Failed)}"
  by (cases p) auto

text \<open>How many operations, starts and switches an attempt still permits.\<close>

fun permitted_ops :: "DeliveryPhase \<Rightarrow> bool \<Rightarrow> nat" where
  "permitted_ops Assigned switched = (if switched then 4 else 6)"
| "permitted_ops RunnerAccepted switched = (if switched then 3 else 5)"
| "permitted_ops UpstreamStarted _ = 2"
| "permitted_ops Streaming _ = 1"
| "permitted_ops Completed _ = 0"
| "permitted_ops Failed _ = 0"

definition before_upstream :: "DeliveryAttempt \<Rightarrow> nat" where
  "before_upstream a = (if delivery_phase a \<in> {Assigned, RunnerAccepted} then 1 else 0)"

definition may_switch :: "DeliveryAttempt \<Rightarrow> nat" where
  "may_switch a = (if switches_used a = 0 then before_upstream a else 0)"

lemma step_decreases:
  assumes "delivery_step c a = (Inr u, b)"
  shows "permitted_ops (delivery_phase b) (switches_used b \<noteq> 0) < permitted_ops (delivery_phase a) (switches_used a \<noteq> 0)"
    and "before_upstream b + (if c = Advance UpstreamStarted then 1 else 0) \<le> before_upstream a"
    and "may_switch b + (if c = SwitchRunner then 1 else 0) \<le> may_switch a"
    and "c = Advance UpstreamStarted \<Longrightarrow> may_switch b = 0"
  using delivery_step_ok [OF assms]
  by (auto simp: before_upstream_def may_switch_def dest!: phase_advances_cases)

lemma run_step:
  "delivery_run (c # cs) a = (ok, b) \<Longrightarrow>
     delivery_run cs a = (ok, b)
     \<or> (\<exists>u a' rest. delivery_step c a = (Inr u, a') \<and> delivery_run cs a' = (rest, b) \<and> ok = c # rest)"
  by (auto split: prod.splits sum.splits dest: delivery_step_error)

lemma run_bounded:
  assumes "delivery_run cs a = (ok, b)"
  shows "length ok \<le> permitted_ops (delivery_phase a) (switches_used a \<noteq> 0)"
    and "count_list ok (Advance UpstreamStarted) \<le> before_upstream a"
    and "count_list ok SwitchRunner \<le> may_switch a"
    and "ok = xs @ Advance UpstreamStarted # ys \<Longrightarrow> SwitchRunner \<notin> set ys"
proof -
  have "length ok \<le> permitted_ops (delivery_phase a) (switches_used a \<noteq> 0)
      \<and> count_list ok (Advance UpstreamStarted) \<le> before_upstream a
      \<and> count_list ok SwitchRunner \<le> may_switch a
      \<and> (\<forall>xs ys. ok = xs @ Advance UpstreamStarted # ys \<longrightarrow> SwitchRunner \<notin> set ys)"
    using assms
  proof (induction cs arbitrary: a ok)
    case (Cons c cs)
    from run_step [OF Cons.prems] show ?case
    proof
      assume "delivery_run cs a = (ok, b)"
      with Cons.IH show ?thesis by blast
    next
      assume "\<exists>u a' rest. delivery_step c a = (Inr u, a') \<and> delivery_run cs a' = (rest, b) \<and> ok = c # rest"
      then obtain u a' rest where st: "delivery_step c a = (Inr u, a')"
        and run: "delivery_run cs a' = (rest, b)" and ok: "ok = c # rest" by blast
      note IH = Cons.IH [OF run]
      from step_decreases [OF st] IH ok show ?thesis
        by (auto simp: Cons_eq_append_conv count_list_0_iff)
    qed
  qed simp
  then show "length ok \<le> permitted_ops (delivery_phase a) (switches_used a \<noteq> 0)"
    and "count_list ok (Advance UpstreamStarted) \<le> before_upstream a"
    and "count_list ok SwitchRunner \<le> may_switch a"
    and "ok = xs @ Advance UpstreamStarted # ys \<Longrightarrow> SwitchRunner \<notin> set ys"
    by blast+
qed

text \<open>
  C28: Whatever a delivery is asked to do, at most six operations succeed: the upstream is
  started at most once, the runner is switched at most once and never after the upstream was
  started, and an operation refused leaves the attempt unchanged.
\<close>

theorem delivery_starts_upstream_once:
  assumes "delivery_run cs DeliveryAttempt_new = (ok, b)"
  shows "length ok \<le> 6 \<and> count_list ok (Advance UpstreamStarted) \<le> 1 \<and> count_list ok SwitchRunner \<le> 1
    \<and> (\<forall>xs ys. ok = xs @ Advance UpstreamStarted # ys \<longrightarrow> SwitchRunner \<notin> set ys)
    \<and> (\<forall>c e b'. delivery_step c b = (Inl e, b') \<longrightarrow> e = RetryForbidden \<and> b' = b)"
proof -
  have "delivery_step c b = (Inl e, b') \<Longrightarrow> e = RetryForbidden" for c e b'
    by (cases c) (auto simp: DeliveryAttempt_advance_def switch_runner_def split: if_splits)
  with run_bounded [OF assms] delivery_step_error show ?thesis
    by (fastforce simp: DeliveryAttempt_new_def before_upstream_def may_switch_def)
qed

theorem delivery_starts_upstream_once_witness:
  "fst (delivery_run [Advance RunnerAccepted, SwitchRunner, SwitchRunner, Advance RunnerAccepted,
      Advance UpstreamStarted, SwitchRunner, Advance Streaming, Advance Completed] DeliveryAttempt_new)
    = [Advance RunnerAccepted, SwitchRunner, Advance RunnerAccepted, Advance UpstreamStarted,
       Advance Streaming, Advance Completed]
   \<and> SwitchRunner \<notin> set [Advance Streaming, Advance Completed]"
proof -
  let ?ok = "[Advance RunnerAccepted, SwitchRunner, Advance RunnerAccepted, Advance UpstreamStarted,
       Advance Streaming, Advance Completed]"
  let ?cs = "[Advance RunnerAccepted, SwitchRunner, SwitchRunner, Advance RunnerAccepted,
      Advance UpstreamStarted, SwitchRunner, Advance Streaming, Advance Completed]"
  have run: "delivery_run ?cs DeliveryAttempt_new = (?ok, \<lparr>delivery_phase = Completed, switches_used = 1\<rparr>)"
    by (simp add: DeliveryAttempt_new_def DeliveryAttempt_advance_def switch_runner_def)
  have "?ok = [Advance RunnerAccepted, SwitchRunner, Advance RunnerAccepted] @ Advance UpstreamStarted # [Advance Streaming, Advance Completed]"
    by simp
  moreover have "\<forall>xs ys. ?ok = xs @ Advance UpstreamStarted # ys \<longrightarrow> SwitchRunner \<notin> set ys"
    using delivery_starts_upstream_once [OF run] by (elim conjE)
  ultimately have "SwitchRunner \<notin> set [Advance Streaming, Advance Completed]" by blast
  with run show ?thesis by (simp only: fst_conv simp_thms)
qed

end
