(* ===== verification/Entitlements.thy ===== *)
theory Entitlements
  imports Prelude
begin

text \<open>
  The capability catalog and the entitlement payload of licenses and plans
  (\<open>license-core/src/catalog.rs\<close>, \<open>license-core/src/entitlements.rs\<close>): quota limits, the
  validation of a payload, the features it grants through the compiled catalog, and the
  comparison of a payload with the ceiling of its issuer. Labels and descriptions of the
  catalog are presentation text and left out.
\<close>

section \<open>Catalog\<close>

datatype FeatureSetId = Standard

datatype CapabilityId = Gateway | Member | Runner

datatype QuotaId = MemberSeats | Runners | UpstreamAccounts | ApiKeysPerMember

datatype BusinessOperationId = UpstreamAuthorize | UpstreamSync | UpstreamRefresh

definition CATALOG_VERSION :: u32 where
  "CATALOG_VERSION = 1"

definition QuotaId_ALL :: "QuotaId list" where
  "QuotaId_ALL = [MemberSeats, Runners, UpstreamAccounts, ApiKeysPerMember]"

definition CapabilityId_ALL :: "CapabilityId list" where
  "CapabilityId_ALL = [Gateway, Member, Runner]"

fun CapabilityId_as_str :: "CapabilityId \<Rightarrow> string" where
  "CapabilityId_as_str Gateway = ''gateway''"
| "CapabilityId_as_str Member = ''member''"
| "CapabilityId_as_str Runner = ''runner''"

definition CapabilityId_from_str :: "string \<Rightarrow> CapabilityId option" where
  "CapabilityId_from_str s =
     (if s = ''gateway'' then Some Gateway
      else if s = ''member'' then Some Member
      else if s = ''runner'' then Some Runner
      else None)"

fun QuotaId_as_str :: "QuotaId \<Rightarrow> string" where
  "QuotaId_as_str MemberSeats = ''member_seats''"
| "QuotaId_as_str Runners = ''runners''"
| "QuotaId_as_str UpstreamAccounts = ''upstream_accounts''"
| "QuotaId_as_str ApiKeysPerMember = ''api_keys_per_member''"

definition QuotaId_from_str :: "string \<Rightarrow> QuotaId option" where
  "QuotaId_from_str s =
     (if s = ''member_seats'' then Some MemberSeats
      else if s = ''runners'' then Some Runners
      else if s = ''upstream_accounts'' then Some UpstreamAccounts
      else if s = ''api_keys_per_member'' then Some ApiKeysPerMember
      else None)"

fun required_capabilities :: "BusinessOperationId \<Rightarrow> CapabilityId list" where
  "required_capabilities UpstreamAuthorize = [Gateway, Runner]"
| "required_capabilities UpstreamSync = [Gateway, Runner]"
| "required_capabilities UpstreamRefresh = [Gateway, Runner]"

record CapabilityDescriptor =
  cd_id :: CapabilityId
  cd_feature_set :: FeatureSetId
  cd_free_default :: bool
  cd_requires :: "CapabilityId list"

definition CAPABILITIES :: "CapabilityDescriptor list" where
  "CAPABILITIES =
     [\<lparr>cd_id = Gateway, cd_feature_set = Standard, cd_free_default = True, cd_requires = []\<rparr>,
      \<lparr>cd_id = Member, cd_feature_set = Standard, cd_free_default = True, cd_requires = []\<rparr>,
      \<lparr>cd_id = Runner, cd_feature_set = Standard, cd_free_default = True, cd_requires = []\<rparr>]"

section \<open>Entitlements\<close>

datatype QuotaLimit = Limited u32 | Unlimited

fun QuotaLimit_permits :: "QuotaLimit \<Rightarrow> u32 \<Rightarrow> bool" where
  "QuotaLimit_permits (Limited value) occupied = (occupied \<le> value)"
| "QuotaLimit_permits Unlimited occupied = True"

fun QuotaLimit_is_within :: "QuotaLimit \<Rightarrow> QuotaLimit \<Rightarrow> bool" where
  "QuotaLimit_is_within _ Unlimited = True"
| "QuotaLimit_is_within Unlimited (Limited _) = False"
| "QuotaLimit_is_within (Limited value) (Limited maximum) = (value \<le> maximum)"

record QuotaGrant =
  qg_id :: QuotaId
  qg_limit :: QuotaLimit

record Entitlements =
  catalog_version :: u32
  features :: "CapabilityId list"
  feature_sets :: "FeatureSetId list"
  quotas :: "QuotaGrant list"

datatype EntitlementError =
    CatalogVersion | DuplicateCapability | MissingDependency | IncompleteQuotas | EntIssuerScope

definition effective_features :: "Entitlements \<Rightarrow> CapabilityId list" where
  "effective_features e =
     map cd_id (filter (\<lambda>entry. cd_id entry \<in> set (features e) \<or> cd_feature_set entry \<in> set (feature_sets e))
       CAPABILITIES)"

text \<open>The loop over the catalog; the first entry with a missing requirement stops it.\<close>

definition missing_dependency :: "CapabilityId list \<Rightarrow> CapabilityDescriptor list \<Rightarrow> bool" where
  "missing_dependency granted entries \<longleftrightarrow>
     list_ex (\<lambda>entry. cd_id entry \<in> set granted \<and> list_ex (\<lambda>r. r \<notin> set granted) (cd_requires entry)) entries"

definition Entitlements_validate :: "Entitlements \<Rightarrow> (EntitlementError, unit) result" where
  "Entitlements_validate e =
     (if catalog_version e \<noteq> CATALOG_VERSION then Inl CatalogVersion
      else if card (set (features e)) \<noteq> length (features e) then Inl DuplicateCapability
      else if card (set (feature_sets e)) \<noteq> length (feature_sets e) then Inl DuplicateCapability
      else if missing_dependency (effective_features e) CAPABILITIES then Inl MissingDependency
      else
        let ids = set (map qg_id (quotas e)) in
        if card ids \<noteq> length QuotaId_ALL \<or> card ids \<noteq> length (quotas e)
           \<or> list_ex (\<lambda>q. q \<notin> ids) QuotaId_ALL
        then Inl IncompleteQuotas
        else Inr ())"

definition Entitlements_quota :: "Entitlements \<Rightarrow> QuotaId \<Rightarrow> QuotaLimit option" where
  "Entitlements_quota e qid = map_option qg_limit (find (\<lambda>grant. qg_id grant = qid) (quotas e))"

definition ensure_within :: "Entitlements \<Rightarrow> Entitlements \<Rightarrow> (EntitlementError, unit) result" where
  "ensure_within e ceiling =
     and_then (Entitlements_validate e) (\<lambda>_.
     and_then (Entitlements_validate ceiling) (\<lambda>_.
     if list_ex (\<lambda>f. f \<notin> set (effective_features ceiling)) (features e)
       \<or> list_ex (\<lambda>s. s \<notin> set (feature_sets ceiling)) (feature_sets e)
       \<or> list_ex (\<lambda>grant. \<not> is_some_and (Entitlements_quota ceiling (qg_id grant))
                             (\<lambda>limit. QuotaLimit_is_within (qg_limit grant) limit)) (quotas e)
     then Inl EntIssuerScope else Inr ()))"

section \<open>Laws\<close>

lemma capability_roundtrip: "CapabilityId_from_str (CapabilityId_as_str c) = Some c"
  by (cases c) (simp_all add: CapabilityId_from_str_def)

lemma quota_roundtrip: "QuotaId_from_str (QuotaId_as_str q) = Some q"
  by (cases q) (simp_all add: QuotaId_from_str_def)

lemma CapabilityId_as_str_inj: "CapabilityId_as_str c = CapabilityId_as_str d \<longleftrightarrow> c = d"
  by (metis capability_roundtrip option.inject)

lemma QuotaId_ALL_all: "q \<in> set QuotaId_ALL"
  by (cases q) (simp_all add: QuotaId_ALL_def)

text \<open>Being within a limit is the order of what the limits permit.\<close>

lemma is_within_permits: "QuotaLimit_is_within a b \<Longrightarrow> QuotaLimit_permits a n \<Longrightarrow> QuotaLimit_permits b n"
  by (cases a; cases b) auto

lemma is_within_refl [simp]: "QuotaLimit_is_within a a"
  by (cases a) auto

lemma is_within_trans: "QuotaLimit_is_within a b \<Longrightarrow> QuotaLimit_is_within b c \<Longrightarrow> QuotaLimit_is_within a c"
  by (cases a; cases b; cases c) auto

lemma validate_ok:
  "Entitlements_validate e = Inr () \<longleftrightarrow>
     catalog_version e = CATALOG_VERSION \<and> distinct (features e) \<and> distinct (feature_sets e)
     \<and> \<not> missing_dependency (effective_features e) CAPABILITIES
     \<and> distinct (map qg_id (quotas e)) \<and> set (map qg_id (quotas e)) = set QuotaId_ALL"
proof -
  have "card (set (map qg_id (quotas e))) = length QuotaId_ALL \<and> card (set (map qg_id (quotas e))) = length (quotas e)
      \<and> \<not> list_ex (\<lambda>q. q \<notin> set (map qg_id (quotas e))) QuotaId_ALL
      \<longleftrightarrow> distinct (map qg_id (quotas e)) \<and> set (map qg_id (quotas e)) = set QuotaId_ALL"
    (is "?L \<longleftrightarrow> ?R")
  proof
    assume L: ?L
    then have "distinct (map qg_id (quotas e))" by (metis card_distinct length_map)
    moreover have "set QuotaId_ALL \<subseteq> set (map qg_id (quotas e))" using L by (auto simp: list_ex_iff)
    moreover have "set (map qg_id (quotas e)) \<subseteq> set QuotaId_ALL" using QuotaId_ALL_all by blast
    ultimately show ?R by blast
  next
    assume R: ?R
    then show ?L using distinct_card [of "map qg_id (quotas e)"]
      by (auto simp: list_ex_iff QuotaId_ALL_def)
  qed
  then show ?thesis
    by (auto simp: Entitlements_validate_def Let_def card_distinct distinct_card simp del: set_map)
qed

text \<open>A valid payload declares every quota exactly once.\<close>

lemma quota_declared:
  assumes "Entitlements_validate e = Inr ()"
  obtains limit where "Entitlements_quota e q = Some limit" and "\<lparr>qg_id = q, qg_limit = limit\<rparr> \<in> set (quotas e)"
proof -
  have "q \<in> set (map qg_id (quotas e))" using assms QuotaId_ALL_all by (simp add: validate_ok)
  then have "find (\<lambda>grant. qg_id grant = q) (quotas e) \<noteq> None" by (auto simp: find_None_iff)
  then obtain g where g: "find (\<lambda>grant. qg_id grant = q) (quotas e) = Some g" by blast
  then have "g \<in> set (quotas e)" "qg_id g = q" by (auto simp: find_Some_iff)
  with g that [of "qg_limit g"] show thesis by (cases g) (auto simp: Entitlements_quota_def)
qed

lemma effective_iff:
  "c \<in> set (effective_features e) \<longleftrightarrow> c \<in> set (features e) \<or> Standard \<in> set (feature_sets e)"
  by (cases c) (auto simp: effective_features_def CAPABILITIES_def)

lemma effective_mono:
  "set (features e) \<subseteq> set (effective_features c) \<Longrightarrow> set (feature_sets e) \<subseteq> set (feature_sets c) \<Longrightarrow>
     set (effective_features e) \<subseteq> set (effective_features c)"
  unfolding subset_iff effective_iff by blast

lemma features_effective: "set (features e) \<subseteq> set (effective_features e)"
  unfolding subset_iff effective_iff by blast

lemma ensure_within_iff:
  "ensure_within e ceiling = Inr () \<longleftrightarrow> Entitlements_validate e = Inr () \<and> Entitlements_validate ceiling = Inr ()
     \<and> set (features e) \<subseteq> set (effective_features ceiling) \<and> set (feature_sets e) \<subseteq> set (feature_sets ceiling)
     \<and> (\<forall>grant\<in>set (quotas e). \<exists>limit. Entitlements_quota ceiling (qg_id grant) = Some limit
          \<and> QuotaLimit_is_within (qg_limit grant) limit)"
  by (auto simp: ensure_within_def result_simps list_ex_iff is_some_and_iff split: if_splits)

text \<open>The same comparison on what is looked up, quota by quota.\<close>

lemma ensure_within_lookup:
  "ensure_within e ceiling = Inr () \<longleftrightarrow> Entitlements_validate e = Inr () \<and> Entitlements_validate ceiling = Inr ()
     \<and> set (features e) \<subseteq> set (effective_features ceiling) \<and> set (feature_sets e) \<subseteq> set (feature_sets ceiling)
     \<and> (\<forall>q a b. Entitlements_quota e q = Some a \<longrightarrow> Entitlements_quota ceiling q = Some b \<longrightarrow> QuotaLimit_is_within a b)"
proof (cases "Entitlements_validate e = Inr () \<and> Entitlements_validate ceiling = Inr ()")
  case True
  have lookup: "Entitlements_quota e q = Some a \<longleftrightarrow> \<lparr>qg_id = q, qg_limit = a\<rparr> \<in> set (quotas e)" for q a
  proof
    show "Entitlements_quota e q = Some a \<Longrightarrow> \<lparr>qg_id = q, qg_limit = a\<rparr> \<in> set (quotas e)"
      using quota_declared [of e q] True by (metis option.inject)
    assume g: "\<lparr>qg_id = q, qg_limit = a\<rparr> \<in> set (quotas e)"
    obtain b where b: "Entitlements_quota e q = Some b" "\<lparr>qg_id = q, qg_limit = b\<rparr> \<in> set (quotas e)"
      using quota_declared [of e q] True by blast
    have "inj_on qg_id (set (quotas e))" using True by (simp add: validate_ok distinct_map)
    from inj_onD [OF this _ g b(2)] have "a = b" by simp
    with b show "Entitlements_quota e q = Some a" by simp
  qed
  have "(\<forall>grant\<in>set (quotas e). \<exists>limit. Entitlements_quota ceiling (qg_id grant) = Some limit
          \<and> QuotaLimit_is_within (qg_limit grant) limit)
    \<longleftrightarrow> (\<forall>q a b. Entitlements_quota e q = Some a \<longrightarrow> Entitlements_quota ceiling q = Some b \<longrightarrow> QuotaLimit_is_within a b)"
    (is "?L \<longleftrightarrow> ?R")
  proof
    assume ?L
    then show ?R unfolding lookup by fastforce
  next
    assume R: ?R
    show ?L
    proof
      fix g
      assume g: "g \<in> set (quotas e)"
      have "\<lparr>qg_id = qg_id g, qg_limit = qg_limit g\<rparr> = g" by simp
      with g have "Entitlements_quota e (qg_id g) = Some (qg_limit g)" unfolding lookup by metis
      moreover obtain b where "Entitlements_quota ceiling (qg_id g) = Some b"
        using quota_declared [of ceiling "qg_id g"] True by blast
      ultimately show "\<exists>limit. Entitlements_quota ceiling (qg_id g) = Some limit
          \<and> QuotaLimit_is_within (qg_limit g) limit" using R by blast
    qed
  qed
  with True show ?thesis unfolding ensure_within_iff by blast
next
  case False
  then show ?thesis unfolding ensure_within_iff by blast
qed

lemma within_quota:
  assumes "ensure_within e ceiling = Inr ()"
  shows "\<exists>a b. Entitlements_quota e q = Some a \<and> Entitlements_quota ceiling q = Some b
    \<and> (\<forall>n. QuotaLimit_permits a n \<longrightarrow> QuotaLimit_permits b n)"
proof -
  have v: "Entitlements_validate e = Inr ()" "Entitlements_validate ceiling = Inr ()"
    and q: "\<And>q a b. Entitlements_quota e q = Some a \<Longrightarrow> Entitlements_quota ceiling q = Some b \<Longrightarrow> QuotaLimit_is_within a b"
    using assms unfolding ensure_within_lookup by blast+
  show ?thesis using quota_declared [OF v(1), of q] quota_declared [OF v(2), of q] q is_within_permits by metis
qed

section \<open>Properties\<close>

text \<open>
  A payload that passes the ceiling check grants nothing beyond the ceiling: every feature it
  makes effective is effective in the ceiling, and every occupancy one of its quotas permits, the
  ceiling's quota permits. The check composes: a payload within a ceiling that is itself within
  another ceiling is within that one, and every valid payload is within itself.
\<close>

theorem ensure_within_grants_no_more:
  assumes "ensure_within e ceiling = Inr ()"
  shows "set (effective_features e) \<subseteq> set (effective_features ceiling)
    \<and> (\<forall>q. \<exists>a b. Entitlements_quota e q = Some a \<and> Entitlements_quota ceiling q = Some b
          \<and> (\<forall>n. QuotaLimit_permits a n \<longrightarrow> QuotaLimit_permits b n))
    \<and> (\<forall>outer. ensure_within ceiling outer = Inr () \<longrightarrow> ensure_within e outer = Inr ())
    \<and> ensure_within ceiling ceiling = Inr ()"
proof -
  have v: "Entitlements_validate e = Inr ()" "Entitlements_validate ceiling = Inr ()"
    and f: "set (features e) \<subseteq> set (effective_features ceiling)" "set (feature_sets e) \<subseteq> set (feature_sets ceiling)"
    and q: "\<And>q a b. Entitlements_quota e q = Some a \<Longrightarrow> Entitlements_quota ceiling q = Some b \<Longrightarrow> QuotaLimit_is_within a b"
    using assms unfolding ensure_within_lookup by blast+
  have mono: "set (effective_features e) \<subseteq> set (effective_features ceiling)" by (rule effective_mono [OF f])
  have "ensure_within e outer = Inr ()" if w: "ensure_within ceiling outer = Inr ()" for outer
  proof -
    have "set (features e) \<subseteq> set (effective_features outer)"
      using w f effective_mono [of ceiling outer] unfolding ensure_within_lookup by blast
    moreover have "QuotaLimit_is_within a c"
      if "Entitlements_quota e p = Some a" "Entitlements_quota outer p = Some c" for p a c
    proof -
      obtain b where "Entitlements_quota ceiling p = Some b" using quota_declared [OF v(2)] by blast
      with q [OF that(1)] w that(2) show ?thesis unfolding ensure_within_lookup by (metis is_within_trans)
    qed
    ultimately show ?thesis using w v(1) f(2) unfolding ensure_within_lookup by blast
  qed
  moreover have "ensure_within ceiling ceiling = Inr ()"
    using v(2) features_effective unfolding ensure_within_lookup by auto
  ultimately show ?thesis using mono within_quota [OF assms] by blast
qed

definition sample_entitlements :: "u32 \<Rightarrow> Entitlements" where
  "sample_entitlements seats =
     \<lparr>catalog_version = 1, features = [Gateway, Member], feature_sets = [],
      quotas = [\<lparr>qg_id = MemberSeats, qg_limit = Limited seats\<rparr>, \<lparr>qg_id = Runners, qg_limit = Limited 1\<rparr>,
                \<lparr>qg_id = UpstreamAccounts, qg_limit = Unlimited\<rparr>, \<lparr>qg_id = ApiKeysPerMember, qg_limit = Limited 5\<rparr>]\<rparr>"

lemma sample_entitlements_valid: "Entitlements_validate (sample_entitlements n) = Inr ()"
  by (simp add: validate_ok sample_entitlements_def CATALOG_VERSION_def missing_dependency_def
      CAPABILITIES_def QuotaId_ALL_def)

theorem ensure_within_grants_no_more_witness:
  "ensure_within (sample_entitlements 5) (sample_entitlements 20) = Inr ()
   \<and> (\<exists>a b. Entitlements_quota (sample_entitlements 5) MemberSeats = Some a
        \<and> Entitlements_quota (sample_entitlements 20) MemberSeats = Some b
        \<and> (\<forall>n. QuotaLimit_permits a n \<longrightarrow> QuotaLimit_permits b n))"
proof -
  have w: "ensure_within (sample_entitlements 5) (sample_entitlements 20) = Inr ()"
    unfolding ensure_within_iff
    by (simp add: sample_entitlements_valid) (simp add: sample_entitlements_def Entitlements_quota_def
      effective_features_def CAPABILITIES_def)
  from ensure_within_grants_no_more [OF this] w show ?thesis by blast
qed

end
