(* ===== verification/Canonical.thy ===== *)
theory Canonical
  imports Decimal
begin

text \<open>
  Canonical JSON (\<open>canonicalize\<close>, \<open>append_canonical\<close> and \<open>compare_utf16\<close> of
  \<open>license-core/src/lib.rs\<close>): the bytes a license signature covers. A JSON value is the
  \<open>Value\<close> of \<open>serde_json\<close>; a string in it is the list of its Unicode code points, a map the list
  of its entries with distinct keys. The literal of a string (\<open>serde_json::to_string\<close>) is an
  argument, \<open>json_string\<close>; \<open>string_literals\<close> states the documented behaviour relied on.
\<close>

datatype LicenseError =
    InvalidJson string | TrailingJson | InvalidField string | InvalidTimeRange | DuplicateFeature
  | DuplicateMachineFactor | IncompleteMachineFactors | SignatureEncoding | InvalidSignature
  | PublicKeyEncoding | UntrustedKey string | DuplicateTrustedKey string | ConflictingTrustedKey
  | UnsupportedNumber | CanonicalSerialization

type_synonym json_text = "nat list"

datatype Number = PosInt u64 | NegInt int | Float string

datatype Value =
    VNull | VBool bool | VNumber Number | VString json_text | VArray "Value list"
  | VObject "(json_text \<times> Value) list"

section \<open>Serialization\<close>

definition encode_utf16 :: "json_text \<Rightarrow> nat list" where
  "encode_utf16 s = concat (map (\<lambda>c. if c < 65536 then [c]
     else [55296 + (c - 65536) div 1024, 56320 + (c - 65536) mod 1024]) s)"

fun units_less :: "nat list \<Rightarrow> nat list \<Rightarrow> bool" where
  "units_less _ [] = False"
| "units_less [] (_ # _) = True"
| "units_less (a # s) (b # t) = (a < b \<or> (a = b \<and> units_less s t))"

definition compare_utf16_less :: "json_text \<Rightarrow> json_text \<Rightarrow> bool" where
  "compare_utf16_less a b = units_less (encode_utf16 a) (encode_utf16 b)"

text \<open>The stable sort of the entries by key.\<close>

fun insert_entry :: "json_text \<times> 'v \<Rightarrow> (json_text \<times> 'v) list \<Rightarrow> (json_text \<times> 'v) list" where
  "insert_entry e [] = [e]"
| "insert_entry e (f # fs) =
     (if compare_utf16_less (fst f) (fst e) then f # insert_entry e fs else e # f # fs)"

definition sort_entries :: "(json_text \<times> 'v) list \<Rightarrow> (json_text \<times> 'v) list" where
  "sort_entries es = foldr insert_entry es []"

fun all_ok :: "('e, 'a) result list \<Rightarrow> ('e, 'a list) result" where
  "all_ok [] = Inr []"
| "all_ok (r # rs) = and_then r (\<lambda>a. and_then (all_ok rs) (\<lambda>xs. Inr (a # xs)))"

fun comma_join :: "string list \<Rightarrow> string" where
  "comma_join [] = []"
| "comma_join [s] = s"
| "comma_join (s # t # ss) = s @ CHR '','' # comma_join (t # ss)"

fun canonical_number :: "Number \<Rightarrow> (LicenseError, string) result" where
  "canonical_number (PosInt n) = Inr (show_nat (unat n))"
| "canonical_number (NegInt n) = Inr (CHR ''-'' # show_nat (nat (- n)))"
| "canonical_number (Float _) = Inl UnsupportedNumber"

definition canonical_member ::
    "(json_text \<Rightarrow> string option) \<Rightarrow> json_text \<times> (LicenseError, string) result \<Rightarrow> (LicenseError, string) result" where
  "canonical_member json_string e =
     and_then (ok_or (json_string (fst e)) CanonicalSerialization) (\<lambda>k.
     and_then (snd e) (\<lambda>v. Inr (k @ CHR '':'' # v)))"

text \<open>
  The serialization of one value. The values of an object are serialized entry by entry in the
  order of the sorted keys, so the first failure in that order is the one reported.
\<close>

primrec append_canonical :: "(json_text \<Rightarrow> string option) \<Rightarrow> Value \<Rightarrow> (LicenseError, string) result" where
  "append_canonical json_string VNull = Inr ''null''"
| "append_canonical json_string (VBool b) = Inr (if b then ''true'' else ''false'')"
| "append_canonical json_string (VString s) = ok_or (json_string s) CanonicalSerialization"
| "append_canonical json_string (VNumber n) = canonical_number n"
| "append_canonical json_string (VArray vs) =
     and_then (all_ok (map (append_canonical json_string) vs)) (\<lambda>items.
     Inr (CHR ''['' # comma_join items @ '']''))"
| "append_canonical json_string (VObject es) =
     and_then (all_ok (map (canonical_member json_string)
        (sort_entries (map (map_prod id (append_canonical json_string)) es)))) (\<lambda>items.
     Inr (CHR ''{'' # comma_join items @ ''}''))"

definition canonicalize :: "(json_text \<Rightarrow> string option) \<Rightarrow> Value \<Rightarrow> (LicenseError, string) result" where
  "canonicalize json_string v = append_canonical json_string v"

section \<open>Sorting\<close>

lemma set_insert_entry [simp]: "set (insert_entry e es) = insert e (set es)"
  by (induction es) auto

lemma set_sort_entries [simp]: "set (sort_entries es) = set es"
  by (induction es) (auto simp: sort_entries_def)

lemma insert_entry_map: "insert_entry (map_prod id f e) (map (map_prod id f) es) = map (map_prod id f) (insert_entry e es)"
  by (induction es) auto

lemma sort_entries_map: "sort_entries (map (map_prod id f) es) = map (map_prod id f) (sort_entries es)"
  by (induction es) (simp_all add: sort_entries_def insert_entry_map [unfolded id_def] id_def)

lemma all_ok_Inr: "all_ok rs = Inr xs \<longleftrightarrow> rs = map Inr xs"
  by (induction rs arbitrary: xs) (auto simp: result_simps)

section \<open>Normal forms\<close>

text \<open>
  Two values have the same content when they differ in the order of object entries only: the
  normal form sorts every object by its keys.
\<close>

primrec normal :: "Value \<Rightarrow> Value" where
  "normal VNull = VNull"
| "normal (VBool b) = VBool b"
| "normal (VNumber n) = VNumber n"
| "normal (VString s) = VString s"
| "normal (VArray vs) = VArray (map normal vs)"
| "normal (VObject es) = VObject (sort_entries (map (map_prod id normal) es))"

text \<open>A negative number is stored as such, and only then.\<close>

fun number_ok :: "Number \<Rightarrow> bool" where
  "number_ok (NegInt n) = (n < 0)"
| "number_ok _ = True"

primrec value_ok :: "Value \<Rightarrow> bool" where
  "value_ok VNull = True"
| "value_ok (VBool b) = True"
| "value_ok (VNumber n) = number_ok n"
| "value_ok (VString s) = True"
| "value_ok (VArray vs) = list_all id (map value_ok vs)"
| "value_ok (VObject es) = list_all snd (map (map_prod id value_ok) es)"

text \<open>
  What is relied on of string literals: they start with a quotation mark, and the text of a
  literal and what follows it are determined by the bytes.
\<close>

definition string_literals :: "(json_text \<Rightarrow> string option) \<Rightarrow> bool" where
  "string_literals json_string \<longleftrightarrow>
     (\<forall>s a. json_string s = Some a \<longrightarrow> (\<exists>rest. a = CHR 0x22 # rest))
   \<and> (\<forall>s t a b x y. json_string s = Some a \<longrightarrow> json_string t = Some b \<longrightarrow> a @ x = b @ y \<longrightarrow> s = t \<and> x = y)"

lemma string_literalsD:
  assumes "string_literals J" and "J s = Some a"
  shows "\<exists>rest. a = CHR 0x22 # rest" and "J t = Some b \<Longrightarrow> a @ x = b @ y \<Longrightarrow> s = t \<and> x = y"
  using assms unfolding string_literals_def by blast+

definition stops :: "string \<Rightarrow> bool" where
  "stops x \<longleftrightarrow> (case x of [] \<Rightarrow> True | c # _ \<Rightarrow> c \<in> {CHR '','', CHR '']'', CHR ''}''})"

lemma stops_simps [simp]:
  "stops []" "stops (CHR '','' # x)" "stops (CHR '']'' # x)" "stops (CHR ''}'' # x)"
  by (simp_all add: stops_def)

lemma stops_not_digit: "stops (c # x) \<Longrightarrow> \<not> is_ascii_digit c"
  by (auto simp: stops_def byte_defs)

text \<open>The digits of a number are read up to the first other byte.\<close>

lemma digits_determined:
  assumes "list_all is_ascii_digit a" "list_all is_ascii_digit b" "stops x" "stops y" "a @ x = b @ y"
  shows "a = b \<and> x = y"
proof -
  have stop: "takeWhile is_ascii_digit (d @ z) = d" if "list_all is_ascii_digit d" "stops z" for d z
    using that stops_not_digit by (cases z) (auto simp: list_all_iff)
  from stop [OF assms(1,3)] stop [OF assms(2,4)] assms(5) show ?thesis by (metis same_append_eq)
qed

lemma show_nat_inj: "show_nat m = show_nat n \<longleftrightarrow> m = n"
  using show_nat_digits [of m] show_nat_digits [of n] by (metis of_nat_eq_iff)

lemma show_nat_hd: obtains c s where "show_nat n = c # s" "is_ascii_digit c"
  using show_nat_digits [of n] by (cases "show_nat n") auto

definition determined :: "('a \<Rightarrow> (LicenseError, string) result) \<Rightarrow> ('a \<Rightarrow> 'b) \<Rightarrow> ('a \<Rightarrow> bool) \<Rightarrow> 'a \<Rightarrow> bool" where
  "determined enc nf P v \<longleftrightarrow>
     (\<forall>w a b x y. P w \<longrightarrow> enc v = Inr a \<longrightarrow> enc w = Inr b \<longrightarrow> stops x \<longrightarrow> stops y \<longrightarrow> a @ x = b @ y
        \<longrightarrow> nf v = nf w \<and> x = y)"

text \<open>Whatever closes a list, no item starts with it.\<close>

definition opens :: "('a \<Rightarrow> (LicenseError, string) result) \<Rightarrow> bool" where
  "opens enc \<longleftrightarrow> (\<forall>v a. enc v = Inr a \<longrightarrow> (\<exists>c r. a = c # r \<and> c \<notin> {CHR '','', CHR '']'', CHR ''}''}))"

lemma comma_join_Cons: "comma_join (s # ss) = s @ (if ss = [] then [] else CHR '','' # comma_join ss)"
  by (cases ss) auto

lemma items_determined:
  assumes op: "opens enc" and cl: "cl \<in> {CHR '']'', CHR ''}''}"
    and "\<forall>v\<in>set vs. determined enc nf P v" and "list_all P ws"
    and "all_ok (map enc vs) = Inr as" and "all_ok (map enc ws) = Inr bs"
    and "comma_join as @ cl # x = comma_join bs @ cl # y"
  shows "map nf vs = map nf ws \<and> x = y"
  using assms(3-)
proof (induction vs arbitrary: ws as bs)
  case Nil
  then have as: "as = []" by simp
  show ?case
  proof (cases ws)
    case (Cons w ws')
    with Nil.prems(4) obtain b bs' where b: "enc w = Inr b" "bs = b # bs'"
      by (auto simp: result_simps)
    then obtain c r where "b = c # r" "c \<notin> {CHR '','', CHR '']'', CHR ''}''}"
      using op unfolding opens_def by blast
    with Nil.prems(5) as b(2) cl show ?thesis by (auto simp: comma_join_Cons)
  qed (use Nil.prems as in simp)
next
  case (Cons v vs)
  from Cons.prems(3) obtain a as' where a: "enc v = Inr a" "as = a # as'" "all_ok (map enc vs) = Inr as'"
    by (auto simp: result_simps)
  obtain c r where ar: "a = c # r" "c \<notin> {CHR '','', CHR '']'', CHR ''}''}"
    using op a(1) unfolding opens_def by blast
  show ?case
  proof (cases ws)
    case Nil
    with Cons.prems(4,5) a(2) ar cl show ?thesis by (auto simp: comma_join_Cons)
  next
    case w: (Cons w ws')
    with Cons.prems(4) obtain b bs' where b: "enc w = Inr b" "bs = b # bs'" "all_ok (map enc ws') = Inr bs'"
      by (auto simp: result_simps)
    let ?tail = "\<lambda>ss z. (if ss = [] then [] else CHR '','' # comma_join ss) @ cl # z"
    have eq: "a @ ?tail as' x = b @ ?tail bs' y"
      using Cons.prems(5) a(2) b(2) by (simp add: comma_join_Cons)
    have st: "stops (?tail ss z)" for ss z using cl by auto
    have d: "determined enc nf P v" and P: "P w" using Cons.prems(1,2) w by simp_all
    from d P a(1) b(1) st [of as' x] st [of bs' y] eq
    have one: "nf v = nf w" and tl: "?tail as' x = ?tail bs' y" unfolding determined_def by blast+
    have "comma_join as' @ cl # x = comma_join bs' @ cl # y"
      using tl cl by (auto split: if_splits)
    from Cons.IH [OF _ _ a(3) b(3) this] Cons.prems(1,2) w one show ?thesis by simp
  qed
qed

text \<open>The first byte tells the kind of value.\<close>

fun first_byte :: "Value \<Rightarrow> char \<Rightarrow> bool" where
  "first_byte VNull c = (c = CHR ''n'')"
| "first_byte (VBool b) c = (c = (if b then CHR ''t'' else CHR ''f''))"
| "first_byte (VNumber (PosInt n)) c = is_ascii_digit c"
| "first_byte (VNumber (NegInt n)) c = (c = CHR ''-'')"
| "first_byte (VNumber (Float s)) c = False"
| "first_byte (VString s) c = (c = CHR 0x22)"
| "first_byte (VArray vs) c = (c = CHR ''['')"
| "first_byte (VObject es) c = (c = CHR ''{'')"

lemma canonical_first_byte:
  assumes "string_literals J" "append_canonical J v = Inr a"
  shows "\<exists>c r. a = c # r \<and> first_byte v c"
proof (cases v)
  case (VNumber n)
  with assms(2) show_nat_hd show ?thesis by (cases n) (auto, metis show_nat_hd)
qed (use assms in \<open>auto simp: string_literals_def result_simps\<close>)

lemma canonical_opens:
  assumes "string_literals J"
  shows "opens (append_canonical J)"
  unfolding opens_def
proof (intro allI impI)
  fix v a
  assume "append_canonical J v = Inr a"
  from canonical_first_byte [OF assms this] obtain c r where "a = c # r" "first_byte v c" by blast
  moreover from this(2) have "c \<notin> {CHR '','', CHR '']'', CHR ''}''}"
    by (cases "(v, c)" rule: first_byte.cases) (auto simp: byte_defs split: if_splits)
  ultimately show "\<exists>c r. a = c # r \<and> c \<notin> {CHR '','', CHR '']'', CHR ''}''}" by blast
qed

text \<open>Two values whose first bytes agree are of one kind.\<close>

definition same_kind :: "Value \<Rightarrow> Value \<Rightarrow> bool" where
  "same_kind v w \<longleftrightarrow> (\<exists>c. first_byte v c \<and> first_byte w c)"

lemma same_kindD:
  "same_kind VNull w \<Longrightarrow> w = VNull"
  "same_kind (VBool b) w \<Longrightarrow> w = VBool b"
  "same_kind (VString s) w \<Longrightarrow> \<exists>t. w = VString t"
  "same_kind (VArray vs) w \<Longrightarrow> \<exists>ws. w = VArray ws"
  "same_kind (VObject es) w \<Longrightarrow> \<exists>fs. w = VObject fs"
  "same_kind (VNumber (PosInt n)) w \<Longrightarrow> \<exists>m. w = VNumber (PosInt m)"
  "same_kind (VNumber (NegInt i)) w \<Longrightarrow> \<exists>j. w = VNumber (NegInt j)"
  by (auto simp: same_kind_def byte_defs elim!: first_byte.elims(2) split: if_splits)

lemma canonical_same_kind:
  assumes "string_literals J" "append_canonical J v = Inr a" "append_canonical J w = Inr b" "a @ x = b @ y"
  shows "same_kind v w"
  using canonical_first_byte [OF assms(1,2)] canonical_first_byte [OF assms(1,3)] assms(4)
  unfolding same_kind_def by auto

text \<open>A member of an object, given that its value is determined.\<close>

definition member_of :: "(json_text \<Rightarrow> string option) \<Rightarrow> json_text \<times> Value \<Rightarrow> (LicenseError, string) result" where
  "member_of J e = canonical_member J (map_prod id (append_canonical J) e)"

lemma member_opens: "string_literals J \<Longrightarrow> opens (member_of J)"
  unfolding opens_def
proof (intro allI impI)
  fix e a
  assume J: "string_literals J" and "member_of J e = Inr a"
  from this(2) obtain k v where k: "J (fst e) = Some k" and a: "a = k @ CHR '':'' # v"
    by (auto simp: member_of_def canonical_member_def result_simps)
  from string_literalsD(1) [OF J k] a obtain r where "a = CHR 0x22 # r" by auto
  then show "\<exists>c r. a = c # r \<and> c \<notin> {CHR '','', CHR '']'', CHR ''}''}" by auto
qed

lemma member_determined:
  assumes J: "string_literals J" and "determined (append_canonical J) normal value_ok (snd e)"
  shows "determined (member_of J) (map_prod id normal) (\<lambda>f. value_ok (snd f)) e"
  unfolding determined_def
proof (intro allI impI)
  fix f a b x y
  assume ok: "value_ok (snd f)" and a: "member_of J e = Inr a" and b: "member_of J f = Inr b"
    and st: "stops x" "stops y" and eq: "a @ x = b @ y"
  from a obtain k v where k: "J (fst e) = Some k" "append_canonical J (snd e) = Inr v" "a = k @ CHR '':'' # v"
    by (auto simp: member_of_def canonical_member_def result_simps)
  from b obtain l w where l: "J (fst f) = Some l" "append_canonical J (snd f) = Inr w" "b = l @ CHR '':'' # w"
    by (auto simp: member_of_def canonical_member_def result_simps)
  from eq k(3) l(3) have "k @ (CHR '':'' # v @ x) = l @ (CHR '':'' # w @ y)" by simp
  with J k(1) l(1) have "fst e = fst f" "v @ x = w @ y" unfolding string_literals_def by blast+
  moreover from assms(2) ok k(2) l(2) st this(2) have "normal (snd e) = normal (snd f) \<and> x = y"
    unfolding determined_def by blast
  ultimately show "map_prod id normal e = map_prod id normal f \<and> x = y" by (simp add: prod_eq_iff)
qed

lemma object_members:
  "append_canonical J (VObject es) = Inr a \<longleftrightarrow>
     (\<exists>items. all_ok (map (member_of J) (sort_entries es)) = Inr items \<and> a = CHR ''{'' # comma_join items @ ''}'')"
proof -
  have "map (canonical_member J) (map (map_prod id (append_canonical J)) fs) = map (member_of J) fs" for fs
    by (simp add: member_of_def)
  then show ?thesis by (auto simp: sort_entries_map result_simps simp del: map_map)
qed

lemma normal_object: "normal (VObject es) = VObject (map (map_prod id normal) (sort_entries es))"
  by (simp add: sort_entries_map)

lemma number_determined:
  assumes "string_literals J" "number_ok n"
  shows "determined (append_canonical J) normal value_ok (VNumber n)"
  unfolding determined_def
proof (intro allI impI)
  fix w a b x y
  assume ok: "value_ok w" and a: "append_canonical J (VNumber n) = Inr a" and b: "append_canonical J w = Inr b"
    and st: "stops x" "stops y" and eq: "a @ x = b @ y"
  note kind = canonical_same_kind [OF assms(1) a b eq]
  note dig = digits_determined [OF _ _ st, of "show_nat i" "show_nat j" for i j]
  show "normal (VNumber n) = normal w \<and> x = y"
  proof (cases n)
    case (PosInt i)
    with same_kindD(6) kind obtain j where w: "w = VNumber (PosInt j)" by blast
    with dig [of "unat i" "unat j"] PosInt a b eq show ?thesis
      by (auto simp: show_nat_digits show_nat_inj word_unat_eq_iff)
  next
    case (NegInt i)
    with same_kindD(7) kind obtain j where w: "w = VNumber (NegInt j)" by blast
    with dig [of "nat (- i)" "nat (- j)"] NegInt a b eq ok assms(2) show ?thesis
      by (auto simp: show_nat_digits show_nat_inj)
  next
    case (Float f)
    with a show ?thesis by simp
  qed
qed

lemma array_determined:
  assumes "string_literals J" "\<And>v. v \<in> set vs \<Longrightarrow> determined (append_canonical J) normal value_ok v"
  shows "determined (append_canonical J) normal value_ok (VArray vs)"
  unfolding determined_def
proof (intro allI impI)
  fix w a b x y
  assume ok: "value_ok w" and a: "append_canonical J (VArray vs) = Inr a" and b: "append_canonical J w = Inr b"
    and eq: "a @ x = b @ y"
  from canonical_same_kind [OF assms(1) a b eq] same_kindD(4) obtain ws where w: "w = VArray ws" by blast
  from a obtain as where as: "all_ok (map (append_canonical J) vs) = Inr as" "a = CHR ''['' # comma_join as @ '']''"
    by (auto simp: result_simps)
  from b w obtain bs where bs: "all_ok (map (append_canonical J) ws) = Inr bs" "b = CHR ''['' # comma_join bs @ '']''"
    by (auto simp: result_simps)
  have "map normal vs = map normal ws \<and> x = y"
    by (rule items_determined [OF canonical_opens [OF assms(1)], of "CHR '']''", OF _ _ _ as(1) bs(1)])
      (use assms(2) ok w eq as bs in \<open>auto simp: list_all_iff\<close>)
  with w show "normal (VArray vs) = normal w \<and> x = y" by simp
qed

lemma object_determined:
  assumes J: "string_literals J"
    and "\<And>e. e \<in> set es \<Longrightarrow> determined (append_canonical J) normal value_ok (snd e)"
  shows "determined (append_canonical J) normal value_ok (VObject es)"
  unfolding determined_def
proof (intro allI impI)
  fix w a b x y
  assume ok: "value_ok w" and a: "append_canonical J (VObject es) = Inr a" and b: "append_canonical J w = Inr b"
    and eq: "a @ x = b @ y"
  from canonical_same_kind [OF J a b eq] same_kindD(5) obtain fs where w: "w = VObject fs" by blast
  from a obtain as where as: "all_ok (map (member_of J) (sort_entries es)) = Inr as"
      "a = CHR ''{'' # comma_join as @ ''}''" unfolding object_members by blast
  from b obtain bs where bs: "all_ok (map (member_of J) (sort_entries fs)) = Inr bs"
      "b = CHR ''{'' # comma_join bs @ ''}''" unfolding w object_members by blast
  have "map (map_prod id normal) (sort_entries es) = map (map_prod id normal) (sort_entries fs) \<and> x = y"
    by (rule items_determined [OF member_opens [OF J], of "CHR ''}''" _ _ "\<lambda>f. value_ok (snd f)", OF _ _ _ as(1) bs(1)])
      (use assms(2) member_determined [OF J] ok w eq as bs in \<open>auto simp: list_all_iff\<close>)
  with w show "normal (VObject es) = normal w \<and> x = y" unfolding normal_object w by simp
qed

lemma value_determined:
  assumes "string_literals J" "value_ok v"
  shows "determined (append_canonical J) normal value_ok v"
  using assms(2)
proof (induction v)
  case (VArray vs)
  then show ?case by (intro array_determined [OF assms(1)]) (auto simp: list_all_iff)
next
  case (VObject es)
  then show ?case by (intro object_determined [OF assms(1)]) (fastforce simp: list_all_iff)
next
  case (VNumber n)
  then show ?case by (intro number_determined [OF assms(1)]) simp
next
  case (VString s)
  show ?case unfolding determined_def
  proof (intro allI impI)
    fix w a b x y
    assume a: "append_canonical J (VString s) = Inr a" and b: "append_canonical J w = Inr b" and eq: "a @ x = b @ y"
    from canonical_same_kind [OF assms(1) a b eq] same_kindD(3) obtain t where w: "w = VString t" by blast
    with a b have "J s = Some a" "J t = Some b" by (simp_all add: result_simps)
    with string_literalsD(2) [OF assms(1) this eq] w show "normal (VString s) = normal w \<and> x = y" by simp
  qed
next
  case VNull
  show ?case unfolding determined_def
    using canonical_same_kind [OF assms(1), of VNull] same_kindD(1) by fastforce
next
  case (VBool b)
  show ?case unfolding determined_def
    using canonical_same_kind [OF assms(1), of "VBool b"] same_kindD(2) by fastforce
qed

section \<open>Order of entries\<close>

lemma units_less_trans: "units_less r s \<Longrightarrow> units_less s t \<Longrightarrow> units_less r t"
proof (induction r s arbitrary: t rule: units_less.induct)
  case (2 b s)
  then show ?case by (cases t) auto
next
  case (3 a r b s)
  then show ?case by (cases t) auto
qed simp

lemma units_less_irrefl: "\<not> units_less s s"
  by (induction s) auto

lemma units_less_asym: "units_less s t \<Longrightarrow> \<not> units_less t s"
  using units_less_trans units_less_irrefl by blast

lemma units_less_total: "units_less s t \<or> s = t \<or> units_less t s"
proof (induction s t rule: units_less.induct)
  case (1 s)
  show ?case by (cases s) auto
qed auto

abbreviation entry_before :: "json_text \<times> 'v \<Rightarrow> json_text \<times> 'v \<Rightarrow> bool" where
  "entry_before e f \<equiv> compare_utf16_less (fst e) (fst f)"

lemma insert_entry_sorted:
  assumes "sorted_wrt entry_before es" and "\<forall>f\<in>set es. encode_utf16 (fst f) \<noteq> encode_utf16 (fst e)"
  shows "sorted_wrt entry_before (insert_entry e es)"
  using assms
proof (induction es)
  case (Cons f fs)
  show ?case
  proof (cases "entry_before f e")
    case True
    with Cons show ?thesis by auto
  next
    case False
    then have "entry_before e f"
      using units_less_total [of "encode_utf16 (fst f)" "encode_utf16 (fst e)"] Cons.prems(2)
      by (auto simp: compare_utf16_less_def)
    moreover from this Cons.prems(1) have "\<forall>g\<in>set fs. entry_before e g"
      by (auto simp: compare_utf16_less_def intro: units_less_trans)
    ultimately show ?thesis using False Cons.prems(1) by simp
  qed
qed simp

lemma sort_entries_sorted:
  "distinct (map (encode_utf16 \<circ> fst) es) \<Longrightarrow> sorted_wrt entry_before (sort_entries es)"
proof (induction es)
  case (Cons e es)
  have "\<forall>f\<in>set (sort_entries es). encode_utf16 (fst f) \<noteq> encode_utf16 (fst e)"
    using Cons.prems by (auto simp: image_iff)
  from insert_entry_sorted [OF _ this] Cons show ?case by (simp add: sort_entries_def)
qed (simp add: sort_entries_def)

lemma sort_entries_unique:
  assumes "distinct (map (encode_utf16 \<circ> fst) es)" "distinct (map (encode_utf16 \<circ> fst) fs)" "set es = set fs"
  shows "sort_entries es = sort_entries fs"
  by (rule sorted_wrt_unique [OF _ sort_entries_sorted [OF assms(1)] sort_entries_sorted [OF assms(2)]])
    (simp_all add: assms(3) compare_utf16_less_def units_less_asym)

text \<open>Entries listed in another order are serialized to the same bytes.\<close>

lemma canonical_order_irrelevant:
  assumes "distinct (map (encode_utf16 \<circ> fst) es)" "distinct (map (encode_utf16 \<circ> fst) fs)" "set es = set fs"
  shows "append_canonical J (VObject es) = append_canonical J (VObject fs)"
  using sort_entries_unique [OF assms] by (simp add: sort_entries_map)

section \<open>Properties\<close>

text \<open>
  C29: Canonical bytes determine the document and depend on nothing else: two JSON values with the
  same canonical bytes have the same content up to the order of object entries, so a signature
  over the bytes cannot be moved to other claims; and an object whose keys are listed in another
  order has the same bytes.
\<close>

theorem canonical_bytes_determine_content:
  assumes "string_literals J"
  shows "(\<forall>v w bytes. value_ok v \<longrightarrow> value_ok w \<longrightarrow> canonicalize J v = Inr bytes \<longrightarrow>
            canonicalize J w = Inr bytes \<longrightarrow> normal v = normal w)
    \<and> (\<forall>es fs. distinct (map (encode_utf16 \<circ> fst) es) \<longrightarrow> distinct (map (encode_utf16 \<circ> fst) fs) \<longrightarrow>
            set es = set fs \<longrightarrow> canonicalize J (VObject es) = canonicalize J (VObject fs))"
proof (intro conjI allI impI)
  fix v w bytes
  assume "value_ok v" "value_ok w" "canonicalize J v = Inr bytes" "canonicalize J w = Inr bytes"
  with value_determined [OF assms, of v] show "normal v = normal w"
    unfolding determined_def canonicalize_def by (metis stops_simps(1))
next
  fix es fs :: "(json_text \<times> Value) list"
  assume "distinct (map (encode_utf16 \<circ> fst) es)" "distinct (map (encode_utf16 \<circ> fst) fs)" "set es = set fs"
  then show "canonicalize J (VObject es) = canonicalize J (VObject fs)"
    unfolding canonicalize_def by (rule canonical_order_irrelevant)
qed

text \<open>Literals of printable ASCII text without quotation mark and backslash.\<close>

definition sample_literal :: "json_text \<Rightarrow> string option" where
  "sample_literal s =
     (if list_all (\<lambda>c. 32 \<le> c \<and> c < 127 \<and> c \<noteq> 34 \<and> c \<noteq> 92) s
      then Some (CHR 0x22 # map char_of s @ [CHR 0x22]) else None)"

lemma sample_literals: "string_literals sample_literal"
proof -
  let ?plain = "\<lambda>s. list_all (\<lambda>c::nat. 32 \<le> c \<and> c < 127 \<and> c \<noteq> 34 \<and> c \<noteq> 92) s"
  have body: "takeWhile (\<lambda>c. c \<noteq> CHR 0x22) (map char_of s @ CHR 0x22 # x) = map char_of s" if "?plain s" for s x
    using that by (induction s) (auto simp: char_of_eq_iff take_bit_eq_mod)
  have chars: "map of_char (map char_of s) = s" if "?plain s" for s
    using that by (induction s) auto
  have unique: "s = t \<and> x = y"
    if "?plain s" "?plain t" "map char_of s @ CHR 0x22 # x = map char_of t @ CHR 0x22 # y" for s t x y
  proof -
    from body [OF that(1), of x] body [OF that(2), of y] that(3)
    have eq: "map char_of s = (map char_of t :: string)" by simp
    then have "s = t" using chars [OF that(1)] chars [OF that(2)] by simp
    with that(3) show ?thesis by simp
  qed
  have lit: "sample_literal s = Some a \<longleftrightarrow> ?plain s \<and> a = CHR 0x22 # map char_of s @ [CHR 0x22]" for s a
    by (auto simp: sample_literal_def)
  show ?thesis unfolding string_literals_def lit
  proof (intro conjI allI impI, goal_cases)
    case (1 s a)
    then show ?case by simp
  next
    case (2 s t a b x y)
    then have "map char_of s @ CHR 0x22 # x = map char_of t @ CHR 0x22 # y" by simp
    with unique 2 show ?case by blast
  next
    case (3 s t a b x y)
    then have "map char_of s @ CHR 0x22 # x = map char_of t @ CHR 0x22 # y" by simp
    with unique 3 show ?case by blast
  qed
qed

theorem canonical_bytes_determine_content_witness:
  "let a = ([97], VNumber (PosInt 7)); b = ([98], VBool True) in
     canonicalize sample_literal (VObject [b, a]) = canonicalize sample_literal (VObject [a, b])
     \<and> canonicalize sample_literal (VObject [b, a]) = Inr (''{'' @ [CHR 0x22] @ ''a'' @ [CHR 0x22] @ '':7,''
           @ [CHR 0x22] @ ''b'' @ [CHR 0x22] @ '':true}'')"
proof -
  let ?a = "([97], VNumber (PosInt 7))" and ?b = "([98], VBool True)"
  have "canonicalize sample_literal (VObject [?b, ?a]) = canonicalize sample_literal (VObject [?a, ?b])"
    using conjunct2 [OF canonical_bytes_determine_content [OF sample_literals], rule_format, of "[?b, ?a]" "[?a, ?b]"]
    by (simp add: encode_utf16_def insert_commute)
  moreover have "canonicalize sample_literal (VObject [?a, ?b])
      = Inr (''{'' @ [CHR 0x22] @ ''a'' @ [CHR 0x22] @ '':7,'' @ [CHR 0x22] @ ''b'' @ [CHR 0x22] @ '':true}'')"
    by (simp add: canonicalize_def sort_entries_def compare_utf16_less_def encode_utf16_def canonical_member_def
        sample_literal_def show_nat.simps digit_char_def char_of_def bit_simps)
  ultimately show ?thesis by (simp add: Let_def)
qed

end
