(* ===== verification/License.thy ===== *)
theory License
  imports Timestamps Entitlements Canonical "HOL-Library.Multiset"
begin

text \<open>
  License documents (\<open>license-core/src/lib.rs\<close>, \<open>v2.rs\<close>, \<open>trust.rs\<close>, \<open>verified_ref.rs\<close>): the
  claims of both protocol versions and their validation, issuer policies, the trusted keys, and
  the verification of a document. What belongs to other crates is the record \<open>license_env\<close>, an
  argument of the definitions: dates, semantic versions, the decoding of JSON text into
  documents and of documents into JSON values, string literals, base64 and Ed25519. No law is
  assumed of them unless a theorem names it.
\<close>

section \<open>Claims\<close>

definition LICENSE_SCHEMA :: string where
  "LICENSE_SCHEMA = ''aster.license.v1''"

definition V2_SCHEMA :: string where
  "V2_SCHEMA = ''aster.license.v2''"

definition PRODUCT :: string where
  "PRODUCT = ''aster-team''"

definition QUOTA_POLICY_VERSION :: u32 where
  "QUOTA_POLICY_VERSION = 1"

record LicenseLimits =
  member_seats :: u32
  seat_over_limit_grace_days :: u16

record LicenseClaims =
  lc_schema :: string
  lc_key_id :: string
  lc_license_id :: string
  lc_serial :: string
  lc_request_id :: string
  lc_customer_ref :: string
  lc_product :: string
  lc_edition :: string
  lc_features :: "string list"
  lc_limits :: LicenseLimits
  lc_minimum_version :: string
  lc_installation_id :: string
  lc_machine_fingerprint :: string
  lc_transfer_sequence :: u32
  lc_issued_at :: string
  lc_not_before :: string
  lc_expires_at :: string

text \<open>The document on the wire is the claims and the signature side by side.\<close>

record LicenseWire = LicenseClaims +
  wire_signature :: string

record LicenseDocument =
  ld_claims :: LicenseClaims
  ld_signature :: string

definition into_document :: "LicenseWire \<Rightarrow> LicenseDocument" where
  "into_document w = \<lparr>ld_claims = LicenseClaims.truncate w, ld_signature = wire_signature w\<rparr>"

record VerifiedLicense =
  vl_document :: LicenseDocument
  vl_source :: string

datatype SourceKind = FreeDistributionKind | CommercialOrderKind | ApprovedTrialKind

datatype BindingKind = UnboundKind | InstallationKind

datatype ExpiryKind = FixedKind | NoneKind

text \<open>The fields of a source in the order of the code: its identifier, customer and request.\<close>

datatype Source =
    FreeDistribution string
  | CommercialOrder string string string
  | ApprovedTrial string string string

datatype Binding = Unbound | Installation string string u32

datatype Expiry = Fixed string | NoExpiry

record Validity =
  val_not_before :: string
  val_expiry :: Expiry

record Claims =
  cl_schema :: string
  cl_key_id :: string
  cl_license_id :: string
  cl_serial :: string
  cl_product :: string
  cl_edition :: string
  cl_plan_id :: string
  cl_plan_version :: u32
  cl_source :: Source
  cl_entitlements :: Entitlements
  cl_quota_policy_version :: u32
  cl_binding :: Binding
  cl_validity :: Validity
  cl_issued_at :: string
  cl_minimum_version :: string

record Document =
  doc_claims :: Claims
  doc_signature :: string

record Verified =
  ver_document :: Document
  ver_source :: string

fun Source_kind :: "Source \<Rightarrow> SourceKind" where
  "Source_kind (FreeDistribution _) = FreeDistributionKind"
| "Source_kind (CommercialOrder _ _ _) = CommercialOrderKind"
| "Source_kind (ApprovedTrial _ _ _) = ApprovedTrialKind"

fun Binding_kind :: "Binding \<Rightarrow> BindingKind" where
  "Binding_kind Unbound = UnboundKind"
| "Binding_kind (Installation _ _ _) = InstallationKind"

fun Expiry_kind :: "Expiry \<Rightarrow> ExpiryKind" where
  "Expiry_kind (Fixed _) = FixedKind"
| "Expiry_kind NoExpiry = NoneKind"

datatype V2Error =
    LicenseErr LicenseError | EntitlementsErr EntitlementError | IssuerPolicyErr | IssuerScope | SourcePolicy

section \<open>Environment\<close>

record ('t, 'v, 'k, 's) license_env =
  le_time :: "'t time_ops"
  offset_is_utc :: "'t \<Rightarrow> bool"
  format_millis :: "'t \<Rightarrow> string option"
  semver_parse :: "string \<Rightarrow> 'v option"
  semver_less :: "'v \<Rightarrow> 'v \<Rightarrow> bool"
  decode_wire :: "string \<Rightarrow> (LicenseError, LicenseWire) result"
  decode_document :: "string \<Rightarrow> (LicenseError, Document) result"
  decode_schema :: "string \<Rightarrow> (LicenseError, string option) result"
  v1_value :: "LicenseClaims \<Rightarrow> Value option"
  v2_value :: "Claims \<Rightarrow> Value option"
  json_literal :: "json_text \<Rightarrow> string option"
  decode_signature :: "string \<Rightarrow> 's option"
  key_verify :: "'k \<Rightarrow> string \<Rightarrow> 's \<Rightarrow> bool"
  decode_spki :: "string \<Rightarrow> 'k option"
  encode_spki :: "'k \<Rightarrow> string option"

section \<open>Field validation\<close>

definition identifier_byte :: "char \<Rightarrow> bool" where
  "identifier_byte c \<longleftrightarrow> is_ascii_alphanumeric c \<or> c \<in> set ''._:@+/-''"

definition validate_identifier :: "string \<Rightarrow> string \<Rightarrow> nat \<Rightarrow> nat \<Rightarrow> (LicenseError, unit) result" where
  "validate_identifier name value minimum maximum =
     (if length value < minimum \<or> maximum < length value \<or> \<not> list_all identifier_byte value
      then Inl (InvalidField name) else Inr ())"

definition validate_digest :: "string \<Rightarrow> string \<Rightarrow> (LicenseError, unit) result" where
  "validate_digest name value =
     (if length value \<noteq> 43
        \<or> \<not> list_all (\<lambda>c. is_ascii_alphanumeric c \<or> c = CHR ''_'' \<or> c = CHR ''-'') value
      then Inl (InvalidField name) else Inr ())"

definition validate_exact_time ::
    "('t, 'v, 'k, 's) license_env \<Rightarrow> string \<Rightarrow> string \<Rightarrow> (LicenseError, 't) result" where
  "validate_exact_time E name value =
     (if length value \<noteq> 24 \<or> value ! 19 \<noteq> CHR ''.'' \<or> last value \<noteq> CHR ''Z''
      then Inl (InvalidField name)
      else and_then (ok_or (parse_rfc3339 (le_time E) value) (InvalidField name)) (\<lambda>parsed.
           if \<not> offset_is_utc E parsed then Inl (InvalidField name) else Inr parsed))"

definition exact_time ::
    "('t, 'v, 'k, 's) license_env \<Rightarrow> string \<Rightarrow> string \<Rightarrow> (LicenseError, 't) result" where
  "exact_time E name value =
     and_then (validate_exact_time E name value) (\<lambda>parsed.
     and_then (ok_or (format_millis E parsed) (InvalidField name)) (\<lambda>text.
     if text \<noteq> value then Inl (InvalidField name) else Inr parsed))"

section \<open>Version 1\<close>

definition v1_identifiers :: "LicenseClaims \<Rightarrow> (string \<times> string) list" where
  "v1_identifiers c =
     [(''key_id'', lc_key_id c), (''license_id'', lc_license_id c), (''serial'', lc_serial c),
      (''request_id'', lc_request_id c), (''customer_ref'', lc_customer_ref c), (''edition'', lc_edition c),
      (''minimum_version'', lc_minimum_version c), (''installation_id'', lc_installation_id c)]"

text \<open>Adjacent equal elements of the sorted list are duplicates of the list.\<close>

definition validate_claims :: "('t, 'v, 'k, 's) license_env \<Rightarrow> LicenseClaims \<Rightarrow> (LicenseError, unit) result" where
  "validate_claims E c =
     (if lc_schema c \<noteq> LICENSE_SCHEMA then Inl (InvalidField ''schema'')
      else if lc_product c \<noteq> PRODUCT then Inl (InvalidField ''product'')
      else
        and_then (check_all (\<lambda>(name, value). validate_identifier name value 1 128) (v1_identifiers c)) (\<lambda>_.
        and_then (validate_digest ''machine_fingerprint_sha256'' (lc_machine_fingerprint c)) (\<lambda>_.
        if 10000 < lc_transfer_sequence c then Inl (InvalidField ''transfer_sequence'')
        else if lc_features c = [] \<or> 64 < length (lc_features c) then Inl (InvalidField ''features'')
        else if \<not> distinct (lc_features c) then Inl DuplicateFeature
        else
          and_then (check_all (\<lambda>feature. validate_identifier ''feature'' feature 1 64) (lc_features c)) (\<lambda>_.
          if 1000000 < member_seats (lc_limits c) \<or> 90 < seat_over_limit_grace_days (lc_limits c)
          then Inl (InvalidField ''limits'')
          else
            and_then (validate_exact_time E ''issued_at'' (lc_issued_at c)) (\<lambda>issued.
            and_then (validate_exact_time E ''not_before'' (lc_not_before c)) (\<lambda>begins.
            and_then (validate_exact_time E ''expires_at'' (lc_expires_at c)) (\<lambda>ends.
            if time_less (le_time E) begins issued \<or> \<not> time_less (le_time E) begins ends
            then Inl InvalidTimeRange else Inr ())))))))"

definition canonical_claims_v1 ::
    "('t, 'v, 'k, 's) license_env \<Rightarrow> LicenseClaims \<Rightarrow> (LicenseError, string) result" where
  "canonical_claims_v1 E c =
     and_then (ok_or (v1_value E c) CanonicalSerialization) (canonicalize (json_literal E))"

section \<open>Version 2\<close>

fun source_identifiers :: "Source \<Rightarrow> (string \<times> string) list" where
  "source_identifiers (FreeDistribution d) = [(''distribution_id'', d)]"
| "source_identifiers (CommercialOrder i c r) = [(''order_id'', i), (''customer_ref'', c), (''request_id'', r)]"
| "source_identifiers (ApprovedTrial i c r) = [(''trial_id'', i), (''customer_ref'', c), (''request_id'', r)]"

definition Source_validate :: "Source \<Rightarrow> (V2Error, unit) result" where
  "Source_validate s =
     check_all (\<lambda>(name, value). map_err LicenseErr (validate_identifier name value 1 128)) (source_identifiers s)"

definition v2_identifiers :: "Claims \<Rightarrow> (string \<times> string) list" where
  "v2_identifiers c =
     [(''key_id'', cl_key_id c), (''license_id'', cl_license_id c), (''serial'', cl_serial c),
      (''edition'', cl_edition c), (''plan_id'', cl_plan_id c)]"

text \<open>Free licenses are unbound; sold and trial licenses are bound to an installation and expire.\<close>

fun source_policy :: "Source \<Rightarrow> Binding \<Rightarrow> Expiry \<Rightarrow> bool" where
  "source_policy (FreeDistribution _) Unbound _ = True"
| "source_policy (CommercialOrder _ _ _) (Installation _ _ _) (Fixed _) = True"
| "source_policy (ApprovedTrial _ _ _) (Installation _ _ _) (Fixed _) = True"
| "source_policy _ _ _ = False"

fun Binding_validate :: "Binding \<Rightarrow> (V2Error, unit) result" where
  "Binding_validate Unbound = Inr ()"
| "Binding_validate (Installation i f t) =
     and_then (map_err LicenseErr (validate_identifier ''installation_id'' i 8 128)) (\<lambda>_.
     and_then (map_err LicenseErr (validate_digest ''machine_fingerprint_sha256'' f)) (\<lambda>_.
     if 10000 < t then Inl (LicenseErr (InvalidField ''transfer_sequence'')) else Inr ()))"

definition validity_range ::
    "('t, 'v, 'k, 's) license_env \<Rightarrow> Claims \<Rightarrow> (V2Error, unit) result" where
  "validity_range E c =
     map_err LicenseErr
       (and_then (exact_time E ''issued_at'' (cl_issued_at c)) (\<lambda>issued.
        and_then (exact_time E ''not_before'' (val_not_before (cl_validity c))) (\<lambda>begins.
        case val_expiry (cl_validity c) of
          NoExpiry \<Rightarrow> Inr ()
        | Fixed expires \<Rightarrow>
            and_then (exact_time E ''expires_at'' expires) (\<lambda>ends.
            if \<not> time_less (le_time E) begins ends \<or> \<not> time_less (le_time E) issued ends
            then Inl InvalidTimeRange else Inr ()))))"

definition Claims_validate :: "('t, 'v, 'k, 's) license_env \<Rightarrow> Claims \<Rightarrow> (V2Error, unit) result" where
  "Claims_validate E c =
     (if cl_schema c \<noteq> V2_SCHEMA then Inl (LicenseErr (InvalidField ''schema''))
      else if cl_product c \<noteq> PRODUCT then Inl (LicenseErr (InvalidField ''product''))
      else
        and_then (check_all (\<lambda>(name, value). map_err LicenseErr (validate_identifier name value 1 128))
          (v2_identifiers c)) (\<lambda>_.
        if cl_plan_version c = 0 then Inl (LicenseErr (InvalidField ''plan_version''))
        else if cl_quota_policy_version c \<noteq> QUOTA_POLICY_VERSION
        then Inl (LicenseErr (InvalidField ''quota_policy_version''))
        else if 64 < length (cl_minimum_version c) \<or> semver_parse E (cl_minimum_version c) = None
        then Inl (LicenseErr (InvalidField ''minimum_version''))
        else
          and_then (map_err EntitlementsErr (Entitlements_validate (cl_entitlements c))) (\<lambda>_.
          if feature_sets (cl_entitlements c) \<noteq> [] \<and> Source_kind (cl_source c) \<noteq> CommercialOrderKind
          then Inl IssuerPolicyErr
          else
            and_then (Source_validate (cl_source c)) (\<lambda>_.
            if \<not> source_policy (cl_source c) (cl_binding c) (val_expiry (cl_validity c)) then Inl SourcePolicy
            else and_then (Binding_validate (cl_binding c)) (\<lambda>_. validity_range E c)))))"

definition canonical_claims_v2 :: "('t, 'v, 'k, 's) license_env \<Rightarrow> Claims \<Rightarrow> (V2Error, string) result" where
  "canonical_claims_v2 E c =
     map_err LicenseErr
       (and_then (ok_or (v2_value E c) CanonicalSerialization) (canonicalize (json_literal E)))"

section \<open>Issuer policies\<close>

record IssuerPolicy =
  ip_sources :: "SourceKind list"
  ip_bindings :: "BindingKind list"
  ip_expiries :: "ExpiryKind list"
  entitlement_ceiling :: Entitlements

definition nonempty_unique :: "'a list \<Rightarrow> bool" where
  "nonempty_unique items \<longleftrightarrow> items \<noteq> [] \<and> distinct items"

definition IssuerPolicy_validate :: "IssuerPolicy \<Rightarrow> (V2Error, unit) result" where
  "IssuerPolicy_validate p =
     (if \<not> nonempty_unique (ip_sources p)
        \<or> \<not> nonempty_unique (ip_bindings p)
        \<or> \<not> nonempty_unique (ip_expiries p)
        \<or> (FreeDistributionKind \<in> set (ip_sources p) \<and> length (ip_sources p) \<noteq> 1)
      then Inl IssuerPolicyErr
      else
        and_then (map_err EntitlementsErr (Entitlements_validate (entitlement_ceiling p))) (\<lambda>_.
        if feature_sets (entitlement_ceiling p) \<noteq> [] \<and> ip_sources p \<noteq> [CommercialOrderKind]
        then Inl IssuerPolicyErr else Inr ()))"

definition IssuerPolicy_authorize ::
    "('t, 'v, 'k, 's) license_env \<Rightarrow> IssuerPolicy \<Rightarrow> Claims \<Rightarrow> (V2Error, unit) result" where
  "IssuerPolicy_authorize E p c =
     and_then (IssuerPolicy_validate p) (\<lambda>_.
     and_then (Claims_validate E c) (\<lambda>_.
     if Source_kind (cl_source c) \<notin> set (ip_sources p)
       \<or> Binding_kind (cl_binding c) \<notin> set (ip_bindings p)
       \<or> Expiry_kind (val_expiry (cl_validity c)) \<notin> set (ip_expiries p)
     then Inl IssuerScope
     else map_err EntitlementsErr (ensure_within (cl_entitlements c) (entitlement_ceiling p))))"

section \<open>Trusted keys\<close>

text \<open>The maps are iterated for their keys, so they are lists of entries.\<close>

record 'k ScopedKey =
  sk_key :: 'k
  sk_policy :: IssuerPolicy

record 'k TrustedLicenseKeys =
  legacy_keys :: "(string \<times> 'k) list"
  scoped_keys :: "(string \<times> 'k ScopedKey) list"

definition TrustedLicenseKeys_new :: "'k TrustedLicenseKeys" where
  "TrustedLicenseKeys_new = \<lparr>legacy_keys = [], scoped_keys = []\<rparr>"

definition insert_legacy ::
    "'k TrustedLicenseKeys \<Rightarrow> string \<Rightarrow> 'k \<Rightarrow> (LicenseError, 'k TrustedLicenseKeys) result" where
  "insert_legacy ks kid key =
     (if kid \<in> fst ` set (legacy_keys ks) \<or> kid \<in> fst ` set (scoped_keys ks) then Inl (DuplicateTrustedKey kid)
      else if key \<in> (sk_key \<circ> snd) ` set (scoped_keys ks) then Inl ConflictingTrustedKey
      else Inr (ks\<lparr>legacy_keys := (kid, key) # legacy_keys ks\<rparr>))"

definition insert_key ::
    "'k TrustedLicenseKeys \<Rightarrow> string \<Rightarrow> 'k \<Rightarrow> (LicenseError, 'k TrustedLicenseKeys) result" where
  "insert_key ks kid key =
     and_then (validate_identifier ''key_id'' kid 1 128) (\<lambda>_. insert_legacy ks kid key)"

definition insert_spki_base64url ::
    "('t, 'v, 'k, 's) license_env \<Rightarrow> 'k TrustedLicenseKeys \<Rightarrow> string \<Rightarrow> string
      \<Rightarrow> (LicenseError, 'k TrustedLicenseKeys) result" where
  "insert_spki_base64url E ks kid spki =
     and_then (validate_identifier ''key_id'' kid 1 128) (\<lambda>_.
     and_then (ok_or (decode_spki E spki) PublicKeyEncoding) (\<lambda>key. insert_legacy ks kid key))"

definition insert_scoped ::
    "'k TrustedLicenseKeys \<Rightarrow> string \<Rightarrow> 'k \<Rightarrow> IssuerPolicy \<Rightarrow> (V2Error, 'k TrustedLicenseKeys) result" where
  "insert_scoped ks kid key policy =
     and_then (map_err LicenseErr (validate_identifier ''key_id'' kid 1 128)) (\<lambda>_.
     and_then (IssuerPolicy_validate policy) (\<lambda>_.
     if kid \<in> fst ` set (legacy_keys ks) \<or> kid \<in> fst ` set (scoped_keys ks)
     then Inl (LicenseErr (DuplicateTrustedKey kid))
     else if key \<in> snd ` set (legacy_keys ks) \<or> key \<in> (sk_key \<circ> snd) ` set (scoped_keys ks)
     then Inl (LicenseErr ConflictingTrustedKey)
     else Inr (ks\<lparr>scoped_keys := (kid, \<lparr>sk_key = key, sk_policy = policy\<rparr>) # scoped_keys ks\<rparr>)))"

definition insert_scoped_spki ::
    "('t, 'v, 'k, 's) license_env \<Rightarrow> 'k TrustedLicenseKeys \<Rightarrow> string \<Rightarrow> string \<Rightarrow> IssuerPolicy
      \<Rightarrow> (V2Error, 'k TrustedLicenseKeys) result" where
  "insert_scoped_spki E ks kid spki policy =
     and_then (ok_or (decode_spki E spki) (LicenseErr PublicKeyEncoding)) (\<lambda>key. insert_scoped ks kid key policy)"

text \<open>
  The keyring built into a release: a list of profiles, decoded by \<open>decode_profiles\<close>. A profile's
  key must be written in its one canonical encoding, and no key may occur twice.
\<close>

record KeyProfile =
  kp_key_id :: string
  kp_public_key_spki :: string
  kp_policy :: IssuerPolicy

definition MAX_KEYRING_BYTES :: nat where
  "MAX_KEYRING_BYTES = 2 ^ 20"

definition MAX_KEYS :: nat where
  "MAX_KEYS = 8"

fun load_profiles ::
    "('t, 'v, 'k, 's) license_env \<Rightarrow> KeyProfile list \<Rightarrow> 'k list \<Rightarrow> 'k TrustedLicenseKeys
      \<Rightarrow> (V2Error, 'k TrustedLicenseKeys) result" where
  "load_profiles E [] seen ks = Inr ks"
| "load_profiles E (entry # rest) seen ks =
     and_then (ok_or (decode_spki E (kp_public_key_spki entry)) (LicenseErr PublicKeyEncoding)) (\<lambda>key.
     and_then (ok_or (encode_spki E key) (LicenseErr PublicKeyEncoding)) (\<lambda>text.
     if text \<noteq> kp_public_key_spki entry then Inl (LicenseErr PublicKeyEncoding)
     else if key \<in> set seen then Inl (LicenseErr ConflictingTrustedKey)
     else and_then (insert_scoped ks (kp_key_id entry) key (kp_policy entry)) (\<lambda>ks'.
          load_profiles E rest (key # seen) ks')))"

definition keys_from_json ::
    "('t, 'v, 'k, 's) license_env \<Rightarrow> (string \<Rightarrow> (LicenseError, KeyProfile list) result) \<Rightarrow> string
      \<Rightarrow> (V2Error, 'k TrustedLicenseKeys) result" where
  "keys_from_json E decode_profiles data =
     (if MAX_KEYRING_BYTES < length data then Inl (LicenseErr (InvalidField ''trusted_keys''))
      else and_then (map_err LicenseErr (decode_profiles data)) (\<lambda>entries.
           if entries = [] \<or> MAX_KEYS < length entries then Inl (LicenseErr (InvalidField ''trusted_keys''))
           else load_profiles E entries [] TrustedLicenseKeys_new))"

section \<open>Verification\<close>

definition verify_v1 ::
    "('t, 'v, 'k, 's) license_env \<Rightarrow> string \<Rightarrow> 'k TrustedLicenseKeys \<Rightarrow> (LicenseError, VerifiedLicense) result" where
  "verify_v1 E data ks =
     and_then (decode_wire E data) (\<lambda>wire.
     let document = into_document wire; claims = ld_claims document in
     and_then (validate_claims E claims) (\<lambda>_.
     and_then (ok_or (decode_signature E (ld_signature document)) SignatureEncoding) (\<lambda>signature.
     and_then (canonical_claims_v1 E claims) (\<lambda>payload.
     and_then (ok_or (map_of (legacy_keys ks) (lc_key_id claims)) (UntrustedKey (lc_key_id claims))) (\<lambda>key.
     if \<not> key_verify E key payload signature then Inl InvalidSignature
     else Inr \<lparr>vl_document = document, vl_source = data\<rparr>)))))"

definition verify_v2 ::
    "('t, 'v, 'k, 's) license_env \<Rightarrow> string \<Rightarrow> 'k TrustedLicenseKeys \<Rightarrow> (V2Error, Verified) result" where
  "verify_v2 E data ks =
     (if 2 ^ 20 < length data then Inl (LicenseErr (InvalidField ''document_size''))
      else
        and_then (map_err LicenseErr (decode_document E data)) (\<lambda>document.
        let claims = doc_claims document in
        and_then (Claims_validate E claims) (\<lambda>_.
        and_then (ok_or (map_of (scoped_keys ks) (cl_key_id claims)) (LicenseErr (UntrustedKey (cl_key_id claims)))) (\<lambda>scoped.
        and_then (ok_or (decode_signature E (doc_signature document)) (LicenseErr SignatureEncoding)) (\<lambda>signature.
        and_then (canonical_claims_v2 E claims) (\<lambda>payload.
        if \<not> key_verify E (sk_key scoped) payload signature then Inl (LicenseErr InvalidSignature)
        else and_then (IssuerPolicy_authorize E (sk_policy scoped) claims) (\<lambda>_.
             Inr \<lparr>ver_document = document, ver_source = data\<rparr>)))))))"

datatype VerifiedProductLicense = ProductV1 VerifiedLicense | ProductV2 Verified

definition verify_product_license ::
    "('t, 'v, 'k, 's) license_env \<Rightarrow> string \<Rightarrow> 'k TrustedLicenseKeys \<Rightarrow> (V2Error, VerifiedProductLicense) result" where
  "verify_product_license E data ks =
     (if 2 ^ 20 < length data then Inl (LicenseErr (InvalidField ''document_size''))
      else
        and_then (map_err LicenseErr (decode_schema E data)) (\<lambda>schema.
        if schema = Some V2_SCHEMA then and_then (verify_v2 E data ks) (\<lambda>v. Inr (ProductV2 v))
        else Inl (LicenseErr (InvalidField ''schema''))))"

section \<open>Signing\<close>

text \<open>Issuing a document: \<open>signer\<close> is the Ed25519 signature with the issuer's private key.\<close>

definition sign_v1 ::
    "('t, 'v, 'k, 's) license_env \<Rightarrow> (string \<Rightarrow> 's) \<Rightarrow> ('s \<Rightarrow> string) \<Rightarrow> LicenseClaims
      \<Rightarrow> (LicenseError, LicenseDocument) result" where
  "sign_v1 E signer encode_signature claims =
     and_then (validate_claims E claims) (\<lambda>_.
     and_then (canonical_claims_v1 E claims) (\<lambda>payload.
     Inr \<lparr>ld_claims = claims, ld_signature = encode_signature (signer payload)\<rparr>))"

definition sign_v2 ::
    "('t, 'v, 'k, 's) license_env \<Rightarrow> (string \<Rightarrow> 's) \<Rightarrow> ('s \<Rightarrow> string) \<Rightarrow> Claims \<Rightarrow> (V2Error, Document) result" where
  "sign_v2 E signer encode_signature claims =
     and_then (Claims_validate E claims) (\<lambda>_.
     and_then (canonical_claims_v2 E claims) (\<lambda>payload.
     Inr \<lparr>doc_claims = claims, doc_signature = encode_signature (signer payload)\<rparr>))"

section \<open>License requests\<close>

definition LICENSE_REQUEST_SCHEMA :: string where
  "LICENSE_REQUEST_SCHEMA = ''aster.license-request.v1''"

definition REQUEST_V2_SCHEMA :: string where
  "REQUEST_V2_SCHEMA = ''aster.license-request.v2''"

datatype MachineFactorKind = DmiProductUuid | MachineId

record MachineFactor =
  mf_kind :: MachineFactorKind
  mf_sha256 :: string

record LicenseRequest =
  lr_schema :: string
  lr_request_id :: string
  lr_product :: string
  lr_product_version :: string
  lr_platform :: string
  lr_architecture :: string
  lr_installation_id :: string
  lr_machine_fingerprint :: string
  lr_machine_factors :: "MachineFactor list"
  lr_generated_at :: string

text \<open>The flags are the kinds seen so far: \<open>dmi\<close> and \<open>machine_id\<close>.\<close>

fun check_factors :: "bool \<Rightarrow> bool \<Rightarrow> MachineFactor list \<Rightarrow> (LicenseError, bool \<times> bool) result" where
  "check_factors dmi machine_id [] = Inr (dmi, machine_id)"
| "check_factors dmi machine_id (f # fs) =
     and_then (validate_digest ''machine factor sha256'' (mf_sha256 f)) (\<lambda>_.
     case mf_kind f of
       DmiProductUuid \<Rightarrow> if dmi then Inl DuplicateMachineFactor else check_factors True machine_id fs
     | MachineId \<Rightarrow> if machine_id then Inl DuplicateMachineFactor else check_factors dmi True fs)"

definition validate_request :: "('t, 'v, 'k, 's) license_env \<Rightarrow> LicenseRequest \<Rightarrow> (LicenseError, unit) result" where
  "validate_request E r =
     (if lr_schema r \<noteq> LICENSE_REQUEST_SCHEMA then Inl (InvalidField ''schema'')
      else if lr_product r \<noteq> PRODUCT then Inl (InvalidField ''product'')
      else if lr_platform r \<notin> {''linux'', ''windows'', ''macos''} then Inl (InvalidField ''platform'')
      else if lr_architecture r \<noteq> ''amd64'' \<and> lr_architecture r \<noteq> ''arm64'' then Inl (InvalidField ''architecture'')
      else
        and_then (validate_identifier ''request_id'' (lr_request_id r) 8 128) (\<lambda>_.
        and_then (validate_identifier ''product_version'' (lr_product_version r) 1 64) (\<lambda>_.
        and_then (validate_identifier ''installation_id'' (lr_installation_id r) 8 128) (\<lambda>_.
        and_then (validate_digest ''machine_fingerprint_sha256'' (lr_machine_fingerprint r)) (\<lambda>_.
        and_then (validate_exact_time E ''generated_at'' (lr_generated_at r)) (\<lambda>_.
        if length (lr_machine_factors r) \<noteq> 2 then Inl IncompleteMachineFactors
        else and_then (check_factors False False (lr_machine_factors r)) (\<lambda>(dmi, machine_id).
             if \<not> dmi \<or> \<not> machine_id then Inl IncompleteMachineFactors else Inr ())))))))"

record RequestV2 = LicenseRequest +
  rq_license_schema :: string
  rq_catalog_version :: u32
  rq_quota_policy_version :: u32

definition parse_version :: "('t, 'v, 'k, 's) license_env \<Rightarrow> string \<Rightarrow> (LicenseError, 'v) result" where
  "parse_version E value =
     (if 64 < length value then Inl (InvalidField ''product_version'')
      else ok_or (semver_parse E value) (InvalidField ''product_version''))"

definition version_at_least :: "('t, 'v, 'k, 's) license_env \<Rightarrow> string \<Rightarrow> string \<Rightarrow> bool" where
  "version_at_least E actual minimum =
     (case (parse_version E actual, parse_version E minimum) of
        (Inr a, Inr b) \<Rightarrow> \<not> semver_less E a b
      | _ \<Rightarrow> False)"

definition RequestV2_validate :: "('t, 'v, 'k, 's) license_env \<Rightarrow> RequestV2 \<Rightarrow> (LicenseError, unit) result" where
  "RequestV2_validate E r =
     (if lr_schema r \<noteq> REQUEST_V2_SCHEMA \<or> rq_license_schema r \<noteq> V2_SCHEMA
        \<or> rq_catalog_version r \<noteq> CATALOG_VERSION \<or> rq_quota_policy_version r \<noteq> QUOTA_POLICY_VERSION
      then Inl (InvalidField ''request_compatibility'')
      else
        and_then (parse_version E (lr_product_version r)) (\<lambda>_.
        and_then (exact_time E ''generated_at'' (lr_generated_at r)) (\<lambda>_.
        validate_request E ((LicenseRequest.truncate r)\<lparr>lr_schema := LICENSE_REQUEST_SCHEMA\<rparr>))))"

definition RequestV2_supports ::
    "('t, 'v, 'k, 's) license_env \<Rightarrow> RequestV2 \<Rightarrow> string \<Rightarrow> u32 \<Rightarrow> u32 \<Rightarrow> bool" where
  "RequestV2_supports E r minimum catalog quota_policy \<longleftrightarrow>
     is_ok (RequestV2_validate E r) \<and> rq_catalog_version r = catalog
     \<and> rq_quota_policy_version r = quota_policy \<and> version_at_least E (lr_product_version r) minimum"

section \<open>The view of a verified document\<close>

text \<open>A quota of a verified document is an \<open>expect\<close> in version 2: \<open>None\<close> is its panic.\<close>

datatype VerifiedBinding = NotBound | BoundTo string string u32

fun ref_license_id :: "VerifiedProductLicense \<Rightarrow> string" where
  "ref_license_id (ProductV1 v) = lc_license_id (ld_claims (vl_document v))"
| "ref_license_id (ProductV2 v) = cl_license_id (doc_claims (ver_document v))"

fun ref_issued_at :: "VerifiedProductLicense \<Rightarrow> string" where
  "ref_issued_at (ProductV1 v) = lc_issued_at (ld_claims (vl_document v))"
| "ref_issued_at (ProductV2 v) = cl_issued_at (doc_claims (ver_document v))"

fun ref_features :: "VerifiedProductLicense \<Rightarrow> string list" where
  "ref_features (ProductV1 v) = lc_features (ld_claims (vl_document v))"
| "ref_features (ProductV2 v) =
     map CapabilityId_as_str (effective_features (cl_entitlements (doc_claims (ver_document v))))"

fun ref_quota :: "VerifiedProductLicense \<Rightarrow> QuotaId \<Rightarrow> QuotaLimit option" where
  "ref_quota (ProductV1 v) q =
     (case q of MemberSeats \<Rightarrow> Some (Limited (member_seats (lc_limits (ld_claims (vl_document v)))))
      | _ \<Rightarrow> Some Unlimited)"
| "ref_quota (ProductV2 v) q = Entitlements_quota (cl_entitlements (doc_claims (ver_document v))) q"

fun ref_grace_days :: "VerifiedProductLicense \<Rightarrow> u16" where
  "ref_grace_days (ProductV1 v) = seat_over_limit_grace_days (lc_limits (ld_claims (vl_document v)))"
| "ref_grace_days (ProductV2 v) = 0"

fun ref_not_before :: "VerifiedProductLicense \<Rightarrow> string" where
  "ref_not_before (ProductV1 v) = lc_not_before (ld_claims (vl_document v))"
| "ref_not_before (ProductV2 v) = val_not_before (cl_validity (doc_claims (ver_document v)))"

fun ref_expires_at :: "VerifiedProductLicense \<Rightarrow> string option" where
  "ref_expires_at (ProductV1 v) = Some (lc_expires_at (ld_claims (vl_document v)))"
| "ref_expires_at (ProductV2 v) =
     (case val_expiry (cl_validity (doc_claims (ver_document v))) of
        Fixed expires \<Rightarrow> Some expires | NoExpiry \<Rightarrow> None)"

fun ref_minimum_version :: "VerifiedProductLicense \<Rightarrow> string" where
  "ref_minimum_version (ProductV1 v) = lc_minimum_version (ld_claims (vl_document v))"
| "ref_minimum_version (ProductV2 v) = cl_minimum_version (doc_claims (ver_document v))"

fun ref_has_feature :: "VerifiedProductLicense \<Rightarrow> string \<Rightarrow> bool" where
  "ref_has_feature (ProductV1 v) required = (required \<in> set (lc_features (ld_claims (vl_document v))))"
| "ref_has_feature (ProductV2 v) required =
     list_ex (\<lambda>f. CapabilityId_as_str f = required)
       (effective_features (cl_entitlements (doc_claims (ver_document v))))"

fun ref_binding :: "VerifiedProductLicense \<Rightarrow> VerifiedBinding" where
  "ref_binding (ProductV1 v) =
     (let c = ld_claims (vl_document v) in BoundTo (lc_installation_id c) (lc_machine_fingerprint c) (lc_transfer_sequence c))"
| "ref_binding (ProductV2 v) =
     (case cl_binding (doc_claims (ver_document v)) of
        Unbound \<Rightarrow> NotBound | Installation i f t \<Rightarrow> BoundTo i f t)"

definition ref_transfer_sequence :: "VerifiedProductLicense \<Rightarrow> u32" where
  "ref_transfer_sequence l = (case ref_binding l of NotBound \<Rightarrow> 0 | BoundTo _ _ t \<Rightarrow> t)"

section \<open>Laws\<close>

lemma has_feature_iff: "ref_has_feature l f \<longleftrightarrow> f \<in> set (ref_features l)"
  by (cases l) (auto simp: list_ex_iff)

lemma authorize_ok:
  "IssuerPolicy_authorize E p c = Inr () \<longleftrightarrow>
     IssuerPolicy_validate p = Inr () \<and> Claims_validate E c = Inr ()
     \<and> Source_kind (cl_source c) \<in> set (ip_sources p) \<and> Binding_kind (cl_binding c) \<in> set (ip_bindings p)
     \<and> Expiry_kind (val_expiry (cl_validity c)) \<in> set (ip_expiries p)
     \<and> ensure_within (cl_entitlements c) (entitlement_ceiling p) = Inr ()"
  by (auto simp: IssuerPolicy_authorize_def result_simps split: if_splits)

lemma verify_v2_ok:
  "verify_v2 E data ks = Inr v \<longleftrightarrow>
     length data \<le> 2 ^ 20
     \<and> (\<exists>scoped signature payload.
          decode_document E data = Inr (ver_document v) \<and> ver_source v = data
          \<and> map_of (scoped_keys ks) (cl_key_id (doc_claims (ver_document v))) = Some scoped
          \<and> decode_signature E (doc_signature (ver_document v)) = Some signature
          \<and> canonical_claims_v2 E (doc_claims (ver_document v)) = Inr payload
          \<and> key_verify E (sk_key scoped) payload signature
          \<and> IssuerPolicy_authorize E (sk_policy scoped) (doc_claims (ver_document v)) = Inr ())"
proof -
  have "IssuerPolicy_authorize E p c = Inr () \<Longrightarrow> Claims_validate E c = Inr ()" for p c
    by (simp add: authorize_ok)
  then show ?thesis
    by (cases v) (auto simp: verify_v2_def Let_def result_simps not_less)
qed

lemma verify_product_ok:
  "verify_product_license E data ks = Inr l \<longleftrightarrow>
     decode_schema E data = Inr (Some V2_SCHEMA) \<and> (\<exists>v. l = ProductV2 v \<and> verify_v2 E data ks = Inr v)"
  by (auto simp: verify_product_license_def result_simps verify_v2_ok split: if_splits)

lemma valid_claims_entitlements: "Claims_validate E c = Inr () \<Longrightarrow> Entitlements_validate (cl_entitlements c) = Inr ()"
  by (auto simp: Claims_validate_def result_simps split: if_splits)

text \<open>
  The invariant of a keyring: an identifier names one key, a scoped key is registered once and
  under no legacy identifier, and every scope is a valid policy.
\<close>

definition keyring_ok :: "'k TrustedLicenseKeys \<Rightarrow> bool" where
  "keyring_ok ks \<longleftrightarrow> distinct (map fst (legacy_keys ks) @ map fst (scoped_keys ks))
     \<and> distinct (map (sk_key \<circ> snd) (scoped_keys ks))
     \<and> snd ` set (legacy_keys ks) \<inter> (sk_key \<circ> snd) ` set (scoped_keys ks) = {}
     \<and> (\<forall>entry\<in>set (scoped_keys ks). IssuerPolicy_validate (sk_policy (snd entry)) = Inr ())"

lemma keyring_ok_new: "keyring_ok TrustedLicenseKeys_new"
  by (simp add: keyring_ok_def TrustedLicenseKeys_new_def)

lemma insert_legacy_ok: "keyring_ok ks \<Longrightarrow> insert_legacy ks kid key = Inr ks' \<Longrightarrow> keyring_ok ks'"
  unfolding keyring_ok_def insert_legacy_def
  by (erule_tac conjE)+ (simp split: if_splits, hypsubst, simp)

lemma insert_scoped_Inr:
  "insert_scoped ks kid key policy = Inr ks' \<longleftrightarrow>
     validate_identifier ''key_id'' kid 1 128 = Inr () \<and> IssuerPolicy_validate policy = Inr ()
     \<and> kid \<notin> fst ` set (legacy_keys ks) \<union> fst ` set (scoped_keys ks)
     \<and> key \<notin> snd ` set (legacy_keys ks) \<union> (sk_key \<circ> snd) ` set (scoped_keys ks)
     \<and> ks' = ks\<lparr>scoped_keys := (kid, \<lparr>sk_key = key, sk_policy = policy\<rparr>) # scoped_keys ks\<rparr>"
  by (auto simp: insert_scoped_def result_simps split: if_splits)

lemma insert_scoped_ok: "keyring_ok ks \<Longrightarrow> insert_scoped ks kid key policy = Inr ks' \<Longrightarrow> keyring_ok ks'"
  unfolding keyring_ok_def insert_scoped_Inr by simp

lemma load_profiles_ok:
  "keyring_ok ks \<Longrightarrow> load_profiles E entries seen ks = Inr ks' \<Longrightarrow>
     keyring_ok ks' \<and> length (scoped_keys ks') = length (scoped_keys ks) + length entries
     \<and> legacy_keys ks' = legacy_keys ks"
proof (induction entries arbitrary: seen ks)
  case (Cons entry rest)
  from Cons.prems(2) obtain key ks1
    where ins: "insert_scoped ks (kp_key_id entry) key (kp_policy entry) = Inr ks1"
      and rest: "load_profiles E rest (key # seen) ks1 = Inr ks'"
    by (auto simp: result_simps split: if_splits)
  have "keyring_ok ks1" by (rule insert_scoped_ok [OF Cons.prems(1) ins])
  from Cons.IH [OF this rest] ins show ?case by (simp add: insert_scoped_Inr)
qed simp

datatype 'k key_op = InsertKey string 'k | InsertSpki string string
  | InsertScoped string 'k IssuerPolicy | InsertScopedSpki string string IssuerPolicy

fun run_key_op ::
    "('t, 'v, 'k, 's) license_env \<Rightarrow> 'k key_op \<Rightarrow> 'k TrustedLicenseKeys \<Rightarrow> 'k TrustedLicenseKeys" where
  "run_key_op E (InsertKey kid key) ks = (case insert_key ks kid key of Inr ks' \<Rightarrow> ks' | Inl _ \<Rightarrow> ks)"
| "run_key_op E (InsertSpki kid spki) ks = (case insert_spki_base64url E ks kid spki of Inr ks' \<Rightarrow> ks' | Inl _ \<Rightarrow> ks)"
| "run_key_op E (InsertScoped kid key policy) ks = (case insert_scoped ks kid key policy of Inr ks' \<Rightarrow> ks' | Inl _ \<Rightarrow> ks)"
| "run_key_op E (InsertScopedSpki kid spki policy) ks =
     (case insert_scoped_spki E ks kid spki policy of Inr ks' \<Rightarrow> ks' | Inl _ \<Rightarrow> ks)"

lemma run_key_op_ok: "keyring_ok ks \<Longrightarrow> keyring_ok (run_key_op E c ks)"
  by (cases c) (auto simp: insert_key_def insert_spki_base64url_def insert_scoped_spki_def result_simps
      intro: insert_legacy_ok insert_scoped_ok split: sum.splits)

lemma run_key_ops_ok: "keyring_ok ks \<Longrightarrow> keyring_ok (fold (run_key_op E) cs ks)"
  by (induction cs arbitrary: ks) (simp_all add: run_key_op_ok)

section \<open>Sample environment\<close>

text \<open>
  A concrete environment: an instant is its text and counts by its digits, a semantic version is
  its text, one document is known, and a signature is valid when it names the key.
\<close>

definition sample_nanos :: "string \<Rightarrow> int" where
  "sample_nanos s = digits_value (filter is_ascii_digit s)"

definition text_time :: "string time_ops" where
  "text_time =
     \<lparr>unix_timestamp_nanos = sample_nanos, time_less = (\<lambda>a b. sample_nanos a < sample_nanos b),
      time_diff = (\<lambda>a b. sample_nanos a - sample_nanos b),
      time_plus = (\<lambda>t d. if d = 0 then Some t else None), parse_rfc3339 = Some\<rparr>"

lemma text_time_laws: "time_laws text_time"
  by (simp add: time_laws_def text_time_def)

definition sample_claims :: Claims where
  "sample_claims =
     \<lparr>cl_schema = V2_SCHEMA, cl_key_id = ''key-01'', cl_license_id = ''license-1'', cl_serial = ''AT-1'',
      cl_product = PRODUCT, cl_edition = ''free'', cl_plan_id = ''plan-1'', cl_plan_version = 1,
      cl_source = FreeDistribution ''dist-1'', cl_entitlements = sample_entitlements 5,
      cl_quota_policy_version = 1, cl_binding = Unbound,
      cl_validity = \<lparr>val_not_before = ''2026-08-26T00:00:00.000Z'', val_expiry = NoExpiry\<rparr>,
      cl_issued_at = ''2026-08-26T00:00:00.000Z'', cl_minimum_version = ''1.0.0''\<rparr>"

definition sample_document :: Document where
  "sample_document = \<lparr>doc_claims = sample_claims, doc_signature = ''signer''\<rparr>"

definition keyed_env :: "(string, string, string, string) license_env" where
  "keyed_env =
     \<lparr>le_time = text_time, offset_is_utc = (\<lambda>_. True), format_millis = Some,
      semver_parse = Some, semver_less = bytes_less,
      decode_wire = (\<lambda>_. Inl TrailingJson),
      decode_document = (\<lambda>data. if data = ''license'' then Inr sample_document else Inl TrailingJson),
      decode_schema = (\<lambda>data. Inr (Some V2_SCHEMA)),
      v1_value = (\<lambda>_. Some VNull), v2_value = (\<lambda>_. Some VNull), json_literal = sample_literal,
      decode_signature = Some, key_verify = (\<lambda>key payload signature. key = signature),
      decode_spki = Some, encode_spki = Some\<rparr>"

definition sample_policy :: IssuerPolicy where
  "sample_policy =
     \<lparr>ip_sources = [FreeDistributionKind], ip_bindings = [UnboundKind], ip_expiries = [NoneKind],
      entitlement_ceiling = sample_entitlements 20\<rparr>"

definition sample_keys :: "string TrustedLicenseKeys" where
  "sample_keys = \<lparr>legacy_keys = [], scoped_keys = [(''key-01'', \<lparr>sk_key = ''signer'', sk_policy = sample_policy\<rparr>)]\<rparr>"

lemma sample_policy_valid: "IssuerPolicy_validate sample_policy = Inr ()"
  by (simp add: IssuerPolicy_validate_def sample_policy_def nonempty_unique_def sample_entitlements_valid)
    (simp add: sample_entitlements_def)

lemmas sample_defs = sample_claims_def keyed_env_def text_time_def

lemma sample_claims_valid: "Claims_validate keyed_env sample_claims = Inr ()"
proof -
  have ids: "check_all (\<lambda>(name, value). map_err LicenseErr (validate_identifier name value (Suc 0) 128))
      (v2_identifiers sample_claims) = Inr ()"
    by (simp add: v2_identifiers_def sample_claims_def validate_identifier_def identifier_byte_def byte_defs)
  have src: "Source_validate (cl_source sample_claims) = Inr ()"
    by (simp add: Source_validate_def sample_claims_def validate_identifier_def identifier_byte_def byte_defs)
  have range: "validity_range keyed_env sample_claims = Inr ()"
    by (simp add: validity_range_def exact_time_def validate_exact_time_def sample_defs)
  show ?thesis
    by (simp add: Claims_validate_def ids src range)
      (simp add: sample_defs QUOTA_POLICY_VERSION_def sample_entitlements_valid, simp add: sample_entitlements_def)
qed

lemma sample_within: "ensure_within (sample_entitlements 5) (sample_entitlements 20) = Inr ()"
  unfolding ensure_within_iff
  by (simp add: sample_entitlements_valid) (simp add: sample_entitlements_def Entitlements_quota_def
    effective_features_def CAPABILITIES_def)

lemma sample_verified:
  "verify_product_license keyed_env ''license'' sample_keys
     = Inr (ProductV2 \<lparr>ver_document = sample_document, ver_source = ''license''\<rparr>)"
proof -
  have auth: "IssuerPolicy_authorize keyed_env sample_policy sample_claims = Inr ()"
    unfolding authorize_ok using sample_policy_valid sample_claims_valid
    by (simp add: sample_within) (simp add: sample_claims_def sample_policy_def sample_within)
  have "verify_v2 keyed_env ''license'' sample_keys = Inr \<lparr>ver_document = sample_document, ver_source = ''license''\<rparr>"
    unfolding verify_v2_ok using auth
    by (simp add: sample_keys_def sample_document_def canonical_claims_v2_def canonicalize_def)
      (simp add: keyed_env_def sample_claims_def sample_document_def canonicalize_def)
  then show ?thesis unfolding verify_product_ok by (simp add: keyed_env_def)
qed

text \<open>A valid request carries the two machine factors, each once.\<close>

lemma check_factors_seen:
  "check_factors d m fs = Inr (d', m') \<Longrightarrow>
     (d' \<longleftrightarrow> d \<or> DmiProductUuid \<in> mf_kind ` set fs) \<and> (m' \<longleftrightarrow> m \<or> MachineId \<in> mf_kind ` set fs)"
proof (induction fs arbitrary: d m)
  case (Cons f fs)
  from Cons.prems Cons.IH [of True m] Cons.IH [of d True] show ?case
    by (cases "mf_kind f") (simp_all add: result_simps split: if_splits)
qed simp

lemma valid_request_factors:
  assumes "validate_request E r = Inr ()"
  shows "mset (map mf_kind (lr_machine_factors r)) = {#DmiProductUuid, MachineId#}"
proof -
  from assms have len: "length (lr_machine_factors r) = 2"
    and f: "check_factors False False (lr_machine_factors r) = Inr (True, True)"
    by (auto simp: validate_request_def result_simps split: if_splits)
  from len obtain a b where ab: "lr_machine_factors r = [a, b]"
    by (auto simp: numeral_2_eq_2 length_Suc_conv)
  with check_factors_seen [OF f] show ?thesis by (cases "mf_kind a"; cases "mf_kind b") auto
qed

text \<open>
  A document issued within its key's policy verifies: signing, writing and reading it back gives
  the claims that were signed.
\<close>

lemma signed_document_verifies:
  assumes "sign_v2 E signer encode claims = Inr document"
    and "\<And>payload. decode_signature E (encode (signer payload)) = Some (signer payload)"
    and "\<And>payload. key_verify E (sk_key scoped) payload (signer payload)"
    and "decode_document E data = Inr document" and "length data \<le> 2 ^ 20"
    and "map_of (scoped_keys ks) (cl_key_id claims) = Some scoped"
    and "IssuerPolicy_authorize E (sk_policy scoped) claims = Inr ()"
  shows "verify_v2 E data ks = Inr \<lparr>ver_document = document, ver_source = data\<rparr>"
  using assms unfolding verify_v2_ok by (auto simp: sign_v2_def result_simps)

section \<open>Properties\<close>

text \<open>
  C32: A license the product accepts is exactly the bytes it was given, decoded as a version 2
  document whose claims are valid, whose signature over the canonical claims verifies under the
  scoped key its own key identifier names, and which stays within that key's policy: source,
  binding and expiry are of permitted kinds, every feature it grants is in the issuer's ceiling,
  and every occupancy a quota permits, the ceiling permits. Reading any of its quotas never
  panics.
\<close>

theorem accepted_license_is_authorized:
  assumes "verify_product_license E data ks = Inr l"
  shows "\<exists>document scoped signature payload.
      l = ProductV2 \<lparr>ver_document = document, ver_source = data\<rparr> \<and> decode_document E data = Inr document
    \<and> map_of (scoped_keys ks) (cl_key_id (doc_claims document)) = Some scoped
    \<and> decode_signature E (doc_signature document) = Some signature
    \<and> canonical_claims_v2 E (doc_claims document) = Inr payload \<and> key_verify E (sk_key scoped) payload signature
    \<and> Claims_validate E (doc_claims document) = Inr ()
    \<and> Source_kind (cl_source (doc_claims document)) \<in> set (ip_sources (sk_policy scoped))
    \<and> Binding_kind (cl_binding (doc_claims document)) \<in> set (ip_bindings (sk_policy scoped))
    \<and> Expiry_kind (val_expiry (cl_validity (doc_claims document))) \<in> set (ip_expiries (sk_policy scoped))
    \<and> set (ref_features l) \<subseteq> CapabilityId_as_str ` set (effective_features (entitlement_ceiling (sk_policy scoped)))
    \<and> (\<forall>q. \<exists>a b. ref_quota l q = Some a \<and> Entitlements_quota (entitlement_ceiling (sk_policy scoped)) q = Some b
          \<and> (\<forall>n. QuotaLimit_permits a n \<longrightarrow> QuotaLimit_permits b n))"
proof -
  obtain v where l: "l = ProductV2 v" and v: "verify_v2 E data ks = Inr v"
    using assms unfolding verify_product_ok by blast
  let ?doc = "ver_document v" and ?claims = "doc_claims (ver_document v)"
  obtain scoped signature payload where
    k: "decode_document E data = Inr ?doc" "ver_source v = data"
      "map_of (scoped_keys ks) (cl_key_id ?claims) = Some scoped"
      "decode_signature E (doc_signature ?doc) = Some signature"
      "canonical_claims_v2 E ?claims = Inr payload" "key_verify E (sk_key scoped) payload signature"
    and auth: "IssuerPolicy_authorize E (sk_policy scoped) ?claims = Inr ()"
    using v unfolding verify_v2_ok by blast
  let ?ceiling = "entitlement_ceiling (sk_policy scoped)"
  note a = auth [unfolded authorize_ok]
  then have within: "ensure_within (cl_entitlements ?claims) ?ceiling = Inr ()" by blast
  have v': "v = \<lparr>ver_document = ?doc, ver_source = data\<rparr>" using k(2) by simp
  have feats: "set (ref_features l) \<subseteq> CapabilityId_as_str ` set (effective_features ?ceiling)"
    using within effective_mono unfolding ensure_within_lookup l by auto
  have "\<exists>a b. ref_quota l q = Some a \<and> Entitlements_quota ?ceiling q = Some b
          \<and> (\<forall>n. QuotaLimit_permits a n \<longrightarrow> QuotaLimit_permits b n)" for q
    using within_quota [OF within] l by simp
  with l v' k a feats show ?thesis by metis
qed

theorem accepted_license_is_authorized_witness:
  "\<exists>a. ref_quota (ProductV2 \<lparr>ver_document = sample_document, ver_source = ''license''\<rparr>) MemberSeats = Some a
     \<and> (\<forall>n. QuotaLimit_permits a n \<longrightarrow> n \<le> 20)"
proof -
  have ceiling: "Entitlements_quota (sample_entitlements 20) MemberSeats = Some (Limited 20)"
    by (simp add: sample_entitlements_def Entitlements_quota_def)
  from accepted_license_is_authorized [OF sample_verified] obtain scoped where
    k: "map_of (scoped_keys sample_keys) (cl_key_id sample_claims) = Some scoped"
    and q: "\<exists>a b. ref_quota (ProductV2 \<lparr>ver_document = sample_document, ver_source = ''license''\<rparr>) MemberSeats = Some a
        \<and> Entitlements_quota (entitlement_ceiling (sk_policy scoped)) MemberSeats = Some b
        \<and> (\<forall>n. QuotaLimit_permits a n \<longrightarrow> QuotaLimit_permits b n)"
    by (force simp: sample_document_def)
  from k have "sk_policy scoped = sample_policy" by (auto simp: sample_keys_def sample_claims_def split: if_splits)
  with q ceiling show ?thesis by (auto simp: sample_policy_def)
qed

text \<open>
  C33: However a keyring is built, by any sequence of legacy and scoped registrations in which
  refused ones change nothing or from the profiles of a release, an identifier names one key,
  the material of a scoped key is registered nowhere else, so no scope can be escaped under
  another identifier or protocol, and every scope is a valid policy. A keyring from profiles
  holds scoped keys only, between one and eight.
\<close>

theorem keyring_is_unambiguous:
  "keyring_ok (fold (run_key_op E) cs TrustedLicenseKeys_new)
   \<and> (\<forall>decode data ks. keys_from_json E decode data = Inr ks \<longrightarrow>
        keyring_ok (fold (run_key_op E) cs ks) \<and> legacy_keys ks = [] \<and> 1 \<le> length (scoped_keys ks)
        \<and> length (scoped_keys ks) \<le> 8)"
proof (intro conjI allI impI)
  show "keyring_ok (fold (run_key_op E) cs TrustedLicenseKeys_new)"
    by (rule run_key_ops_ok [OF keyring_ok_new])
  fix decode data ks
  assume "keys_from_json E decode data = Inr ks"
  then obtain entries where ne: "entries \<noteq> []" "length entries \<le> 8"
    and load: "load_profiles E entries [] TrustedLicenseKeys_new = Inr ks"
    by (auto simp: keys_from_json_def result_simps MAX_KEYS_def not_less split: if_splits)
  note ok = load_profiles_ok [OF keyring_ok_new load]
  then show "keyring_ok (fold (run_key_op E) cs ks)" by (blast intro: run_key_ops_ok)
  show "legacy_keys ks = []" "1 \<le> length (scoped_keys ks)" "length (scoped_keys ks) \<le> 8"
    using ok ne by (simp_all add: TrustedLicenseKeys_new_def Suc_le_eq)
qed

theorem keyring_is_unambiguous_witness:
  "keyring_ok (fold (run_key_op keyed_env) [InsertScoped ''key-01'' ''signer'' sample_policy, InsertKey ''key-02'' ''signer'']
      TrustedLicenseKeys_new)
   \<and> keyring_ok (fold (run_key_op keyed_env) [InsertKey ''key-03'' ''other''] sample_keys)"
proof -
  have "validate_identifier ''key_id'' ''key-01'' 1 128 = Inr ()"
    by (simp add: validate_identifier_def identifier_byte_def byte_defs)
  then have "keys_from_json keyed_env
      (\<lambda>_. Inr [\<lparr>kp_key_id = ''key-01'', kp_public_key_spki = ''signer'', kp_policy = sample_policy\<rparr>]) [] = Inr sample_keys"
    by (simp add: keys_from_json_def MAX_KEYRING_BYTES_def MAX_KEYS_def keyed_env_def sample_keys_def
        insert_scoped_def sample_policy_valid TrustedLicenseKeys_new_def)
  with keyring_is_unambiguous [of keyed_env "[InsertScoped ''key-01'' ''signer'' sample_policy, InsertKey ''key-02'' ''signer'']"]
    keyring_is_unambiguous [of keyed_env "[InsertKey ''key-03'' ''other'']"]
  show ?thesis by blast
qed

end
