(* ===== verification/Policy.thy ===== *)
theory Policy
  imports License
begin

text \<open>
  License policy at run time (\<open>policy-core/src/lib.rs\<close>): whether a license is current, whether a
  feature may be used, whether a member may take a new seat, and how long seats beyond the quota
  are tolerated. The license is a verified document (theory \<open>License\<close>); dates and semantic
  versions come from its environment. An outcome \<open>None\<close> is a panic: a quota a document does not
  declare, or a date out of range.
\<close>

section \<open>Seats\<close>

record IdentityAccess =
  identity_active :: bool
  can_consume_model :: bool

definition occupies_seat :: "IdentityAccess \<Rightarrow> bool" where
  "occupies_seat a \<longleftrightarrow> identity_active a \<and> can_consume_model a"

record 't SeatSnapshot =
  occupied :: u32
  over_limit_first_observed_at :: "'t option"

datatype 't SeatStatus = WithinLimit | Grace 't | Blocked

datatype PolicyError =
    SeatLimitReached | SeatOverageExpired | FeatureNotLicensed | NotBefore | Expired | VersionTooOld
  | InvalidMinimumVersion | InvalidLicenseTime

definition authorize_new_seat ::
    "VerifiedProductLicense \<Rightarrow> IdentityAccess \<Rightarrow> IdentityAccess \<Rightarrow> u32 \<Rightarrow> (PolicyError, unit) result option" where
  "authorize_new_seat license before after currently_occupied =
     (let adds_seat = (\<not> occupies_seat before \<and> occupies_seat after);
          occupied_after = checked_add currently_occupied (if adds_seat then 1 else 0)
      in if \<not> adds_seat then Some (Inr ())
         else case occupied_after of
                None \<Rightarrow> Some (Inl SeatLimitReached)
              | Some n \<Rightarrow>
                  map_option (\<lambda>limit. if \<not> QuotaLimit_permits limit n then Inl SeatLimitReached else Inr ())
                    (ref_quota license MemberSeats))"

definition evaluate_existing_seats ::
    "('t, 'v, 'k, 's) license_env \<Rightarrow> VerifiedProductLicense \<Rightarrow> 't SeatSnapshot \<Rightarrow> 't \<Rightarrow> 't SeatStatus option" where
  "evaluate_existing_seats E license snapshot now =
     (case ref_quota license MemberSeats of
        None \<Rightarrow> None
      | Some limit \<Rightarrow>
          if QuotaLimit_permits limit (occupied snapshot) then Some WithinLimit
          else
            let grace = days (int (unat (ref_grace_days license))) in
            (case over_limit_first_observed_at snapshot of
              None \<Rightarrow> map_option Grace (time_plus (le_time E) now grace)
            | Some first_observed \<Rightarrow>
                map_option (\<lambda>expires. if time_less (le_time E) now expires then Grace expires else Blocked)
                  (time_plus (le_time E) first_observed grace)))"

section \<open>Currency of a license\<close>

definition parse_license_time :: "('t, 'v, 'k, 's) license_env \<Rightarrow> string \<Rightarrow> (PolicyError, 't) result" where
  "parse_license_time E value = ok_or (parse_rfc3339 (le_time E) value) InvalidLicenseTime"

definition check_license_retained ::
    "('t, 'v, 'k, 's) license_env \<Rightarrow> VerifiedProductLicense \<Rightarrow> string \<Rightarrow> 't \<Rightarrow> (PolicyError, unit) result" where
  "check_license_retained E license current_version now =
     and_then (parse_license_time E (ref_not_before license)) (\<lambda>not_before.
     if time_less (le_time E) now not_before then Inl NotBefore
     else
       and_then (ok_or (semver_parse E (ref_minimum_version license)) InvalidMinimumVersion) (\<lambda>minimum.
       and_then (ok_or (semver_parse E current_version) VersionTooOld) (\<lambda>current.
       if semver_less E current minimum then Inl VersionTooOld else Inr ())))"

definition check_license_current ::
    "('t, 'v, 'k, 's) license_env \<Rightarrow> VerifiedProductLicense \<Rightarrow> string \<Rightarrow> 't \<Rightarrow> (PolicyError, unit) result" where
  "check_license_current E license current_version now =
     and_then (check_license_retained E license current_version now) (\<lambda>_.
     case ref_expires_at license of
       None \<Rightarrow> Inr ()
     | Some expires \<Rightarrow>
         and_then (parse_license_time E expires) (\<lambda>t.
         if \<not> time_less (le_time E) now t then Inl Expired else Inr ()))"

definition authorize_feature ::
    "('t, 'v, 'k, 's) license_env \<Rightarrow> VerifiedProductLicense \<Rightarrow> string \<Rightarrow> string \<Rightarrow> 't \<Rightarrow> (PolicyError, unit) result" where
  "authorize_feature E license required_feature current_version now =
     and_then (check_license_current E license current_version now) (\<lambda>_.
     if \<not> ref_has_feature license required_feature then Inl FeatureNotLicensed else Inr ())"

definition authorize_retained_feature ::
    "('t, 'v, 'k, 's) license_env \<Rightarrow> VerifiedProductLicense \<Rightarrow> string \<Rightarrow> string \<Rightarrow> 't \<Rightarrow> (PolicyError, unit) result" where
  "authorize_retained_feature E license required_feature current_version now =
     and_then (check_license_retained E license current_version now) (\<lambda>_.
     if \<not> ref_has_feature license required_feature then Inl FeatureNotLicensed else Inr ())"

definition authorize_request ::
    "('t, 'v, 'k, 's) license_env \<Rightarrow> VerifiedProductLicense \<Rightarrow> string \<Rightarrow> string \<Rightarrow> 't \<Rightarrow> 't SeatSnapshot
      \<Rightarrow> (PolicyError, unit) result option" where
  "authorize_request E license required_feature current_version now seats =
     (case authorize_feature E license required_feature current_version now of
        Inl e \<Rightarrow> Some (Inl e)
      | Inr _ \<Rightarrow>
          map_option (\<lambda>status. if status = Blocked then Inl SeatOverageExpired else Inr ())
            (evaluate_existing_seats E license seats now))"

section \<open>Laws\<close>

lemma current_implies_retained:
  "check_license_current E l ver now = Inr () \<Longrightarrow> check_license_retained E l ver now = Inr ()"
  by (simp add: check_license_current_def result_simps)

lemma retained_ok:
  "check_license_retained E l ver now = Inr () \<longleftrightarrow>
     (\<exists>begins minimum current. parse_rfc3339 (le_time E) (ref_not_before l) = Some begins
        \<and> \<not> time_less (le_time E) now begins
        \<and> semver_parse E (ref_minimum_version l) = Some minimum \<and> semver_parse E ver = Some current
        \<and> \<not> semver_less E current minimum)"
  by (auto simp: check_license_retained_def parse_license_time_def result_simps)

lemma current_ok:
  "check_license_current E l ver now = Inr () \<longleftrightarrow> check_license_retained E l ver now = Inr ()
     \<and> (\<forall>expires. ref_expires_at l = Some expires \<longrightarrow>
          (\<exists>ends. parse_rfc3339 (le_time E) expires = Some ends \<and> time_less (le_time E) now ends))"
  by (auto simp: check_license_current_def parse_license_time_def result_simps split: option.splits)

lemma seats_not_blocked:
  assumes "ref_quota l MemberSeats = Some limit"
  shows "(\<exists>status. evaluate_existing_seats E l seats now = Some status \<and> status \<noteq> Blocked) \<longleftrightarrow>
     QuotaLimit_permits limit (occupied seats)
     \<or> (case over_limit_first_observed_at seats of
          None \<Rightarrow> time_plus (le_time E) now (days (int (unat (ref_grace_days l)))) \<noteq> None
        | Some first \<Rightarrow> \<exists>ends. time_plus (le_time E) first (days (int (unat (ref_grace_days l)))) = Some ends
                              \<and> time_less (le_time E) now ends)"
  using assms by (auto simp: evaluate_existing_seats_def Let_def split: option.splits if_splits)

lemma authorize_request_ok:
  "authorize_request E l f ver now seats = Some (Inr ()) \<longleftrightarrow>
     check_license_current E l ver now = Inr () \<and> ref_has_feature l f
     \<and> (\<exists>status. evaluate_existing_seats E l seats now = Some status \<and> status \<noteq> Blocked)"
  by (auto simp: authorize_request_def authorize_feature_def result_simps split: sum.splits if_splits)

section \<open>Properties\<close>

text \<open>
  A request is authorized exactly when its feature is licensed, the license has begun and not
  ended, the running version reaches the licensed minimum, and the seats are within the quota or
  the overage is tolerated: either it is being observed for the first time, or less than the
  licensed days have passed since it was.
\<close>

lemma request_authorization_exact:
  assumes "time_laws (le_time E)" and "ref_quota l MemberSeats = Some limit"
  defines "clk \<equiv> unix_timestamp_nanos (le_time E)"
    and "grace \<equiv> int (unat (ref_grace_days l)) * 86400000000000"
  shows "authorize_request E l f ver now seats = Some (Inr ()) \<longleftrightarrow>
      f \<in> set (ref_features l)
    \<and> (\<exists>begins. parse_rfc3339 (le_time E) (ref_not_before l) = Some begins \<and> clk begins \<le> clk now)
    \<and> (\<forall>text. ref_expires_at l = Some text \<longrightarrow>
          (\<exists>ends. parse_rfc3339 (le_time E) text = Some ends \<and> clk now < clk ends))
    \<and> (\<exists>minimum current. semver_parse E (ref_minimum_version l) = Some minimum
          \<and> semver_parse E ver = Some current \<and> \<not> semver_less E current minimum)
    \<and> (QuotaLimit_permits limit (occupied seats)
       \<or> (case over_limit_first_observed_at seats of
            None \<Rightarrow> time_plus (le_time E) now grace \<noteq> None
          | Some first \<Rightarrow> time_plus (le_time E) first grace \<noteq> None \<and> clk now < clk first + grace))"
proof -
  have g: "days (int (unat (ref_grace_days l))) = grace" by (simp add: days_def seconds_def grace_def)
  note t = time_lawsD [OF assms(1)]
  have ends: "(\<exists>ends. time_plus (le_time E) first grace = Some ends \<and> time_less (le_time E) now ends)
      \<longleftrightarrow> time_plus (le_time E) first grace \<noteq> None \<and> clk now < clk first + grace" for first
    using t(3) by (auto simp: t(1) clk_def)
  show ?thesis
    unfolding authorize_request_ok seats_not_blocked [OF assms(2)] current_ok retained_ok has_feature_iff g ends
    by (simp add: t(1) clk_def not_less) blast
qed

lemma sample_ref:
  defines "l \<equiv> ProductV2 \<lparr>ver_document = sample_document, ver_source = ''license''\<rparr>"
  shows "ref_quota l MemberSeats = Some (Limited 5)" "ref_features l = [''gateway'', ''member'']"
    "ref_not_before l = ''2026-08-26T00:00:00.000Z''" "ref_expires_at l = None"
    "ref_minimum_version l = ''1.0.0''" "ref_grace_days l = 0"
  by (simp_all add: l_def sample_document_def sample_claims_def sample_entitlements_def Entitlements_quota_def
      effective_features_def CAPABILITIES_def)

text \<open>The seats of a team, and a change of one member that takes effect when it is authorized.\<close>

definition seats_occupied :: "IdentityAccess list \<Rightarrow> nat" where
  "seats_occupied ms = length (filter occupies_seat ms)"

definition change_member ::
    "VerifiedProductLicense \<Rightarrow> nat \<times> IdentityAccess \<Rightarrow> IdentityAccess list \<Rightarrow> IdentityAccess list" where
  "change_member license c ms =
     (if fst c < length ms
         \<and> authorize_new_seat license (ms ! fst c) (snd c) (of_nat (seats_occupied ms)) = Some (Inr ())
      then ms[fst c := snd c] else ms)"

lemma change_member_seats:
  assumes "ref_quota l MemberSeats = Some (Limited n)" "length ms < 2 ^ 32"
  shows "seats_occupied (change_member l c ms) \<le> max (seats_occupied ms) (unat n)"
proof (cases "change_member l c ms = ms")
  case False
  then have i: "fst c < length ms" and new: "change_member l c ms = ms[fst c := snd c]"
    and ok: "authorize_new_seat l (ms ! fst c) (snd c) (of_nat (seats_occupied ms)) = Some (Inr ())"
    by (auto simp: change_member_def split: if_splits)
  have fits: "unat (of_nat (seats_occupied ms) :: u32) = seats_occupied ms"
  proof -
    have "seats_occupied ms < 2 ^ 32"
      unfolding seats_occupied_def using assms(2) by (rule le_less_trans [OF length_filter_le])
    then show ?thesis by (simp add: unat_of_nat)
  qed
  note upd = filter_update [OF i, of occupies_seat "snd c"]
  show ?thesis
  proof (cases "\<not> occupies_seat (ms ! fst c) \<and> occupies_seat (snd c)")
    case True
    with ok assms(1) obtain k where "checked_add (of_nat (seats_occupied ms) :: u32) 1 = Some k" "k \<le> n"
      by (auto simp: authorize_new_seat_def split: option.splits if_splits)
    then have "seats_occupied ms + 1 \<le> unat n" using fits by (simp add: checked_simps word_le_nat_alt)
    with upd True new show ?thesis by (simp add: seats_occupied_def)
  next
    case False
    with upd new show ?thesis by (auto simp: seats_occupied_def split: if_splits)
  qed
qed simp

text \<open>
  C35: Under a license with a limited number of seats, authorized changes of members never raise
  the seats in use above the licensed number: after any sequence of changes they are at most the
  larger of that number and the seats in use before.
\<close>

theorem seats_never_exceed_quota:
  assumes "ref_quota l MemberSeats = Some (Limited n)" and "length ms < 2 ^ 32"
  shows "seats_occupied (fold (change_member l) cs ms) \<le> max (seats_occupied ms) (unat n)"
  using assms(2)
proof (induction cs arbitrary: ms)
  case (Cons c cs)
  have "length (change_member l c ms) = length ms" by (simp add: change_member_def)
  with Cons.IH [of "change_member l c ms"] change_member_seats [OF assms(1) Cons.prems, of c] Cons.prems
  show ?case by simp
qed simp

theorem seats_never_exceed_quota_witness:
  "seats_occupied (fold (change_member (ProductV2 \<lparr>ver_document = sample_document, ver_source = ''license''\<rparr>))
     (map (\<lambda>i. (i, \<lparr>identity_active = True, can_consume_model = True\<rparr>)) [0..<9])
     (replicate 9 \<lparr>identity_active = True, can_consume_model = False\<rparr>)) \<le> 5"
proof -
  have "seats_occupied (replicate 9 \<lparr>identity_active = True, can_consume_model = False\<rparr>) = 0"
    by (simp add: seats_occupied_def occupies_seat_def)
  with seats_never_exceed_quota [OF sample_ref(1), of "replicate 9 \<lparr>identity_active = True, can_consume_model = False\<rparr>"]
  show ?thesis by simp
qed

end
