(* ===== verification/SeatTracking.thy ===== *)
theory SeatTracking
  imports Policy
begin

text \<open>
  The observed license history and the tracking of seats beyond the quota
  (\<open>license-state/src/lib.rs\<close>), and the check of a consuming request in Control
  (\<open>authorize_model_consumption_license\<close>), which tracks the seats before it asks the policy of the
  theory \<open>Policy\<close>. The state is the claims of the authenticated state file. Locking, reading and
  replacing that file are the record \<open>file_access\<close>, which says for each access whether and how it
  failed; a failed replacement may have left either file. The digest of a license document and
  the printing of an instant belong to other crates and are the record \<open>state_ops\<close>. A panic (a
  quota the document does not declare, a date out of range) is the error \<open>StatePanicked\<close>. The
  encoding of the file with its message code, its recovery and the replacement of the license
  are not modelled.
\<close>

section \<open>Data\<close>





datatype LicenseStateError =
    InvalidInstallationKey | StateMissing | StateIo | StateInvalidJson | StateIntegrity | InvalidTime
  | ClockRollback | LicenseRollback | AlreadyInitialized | StateBusy | StateCrypto | RecoveryRequired
  | MutationConflict | StatePanicked



section \<open>Progress and observation\<close>













section \<open>The store\<close>







section \<open>A consuming request\<close>







section \<open>The recorded start of an overage\<close>
















section \<open>Properties\<close>


section \<open>A sample overage\<close>























end
