(* ===== verification/Database.thy ===== *)
theory Database
  imports Prelude
begin

text \<open>
  The embedded database of the customer backend as the storage crate uses it
  (\<open>storage/src/lib.rs\<close>, \<open>money_ledger.rs\<close>, \<open>runner_quota.rs\<close> on the tables of
  \<open>schema/init.sqlcipher.sql\<close>): the rows, statements with the constraints of the schema,
  transactions, and the audit log every mutation appends to.

  Any statement may fail for a reason outside the schema (a full disk, a locked file): the store
  carries a schedule of such failures, and nothing is assumed of it. A transaction takes effect
  with its commit; a rollback, an error return and a failed commit leave the tables as they were.
\<close>

section \<open>Calls and their outcome\<close>

named_theorems wp_simps \<open>weakest preconditions of calls on the store\<close>

definition wp :: "('w, 'e, 'a) act \<Rightarrow> (('e, 'a) result \<Rightarrow> 'w \<Rightarrow> bool) \<Rightarrow> 'w \<Rightarrow> bool" where
  "wp m Q w \<longleftrightarrow> (case m w of (r, w') \<Rightarrow> Q r w')"

lemma wpD: "wp m Q w \<Longrightarrow> m w = (r, w') \<Longrightarrow> Q r w'"
  by (simp add: wp_def)

lemma wpI: "(\<And>r w'. m w = (r, w') \<Longrightarrow> Q r w') \<Longrightarrow> wp m Q w"
  by (auto simp: wp_def)

lemma wp_mono: "wp m P w \<Longrightarrow> (\<And>r w'. P r w' \<Longrightarrow> Q r w') \<Longrightarrow> wp m Q w"
  by (auto simp: wp_def)

lemma wp_calls [wp_simps]:
  "wp (act_ret a) Q w = Q (Inr a) w" "wp (act_fail e) Q w = Q (Inl e) w" "wp (act_lift x) Q w = Q x w"
  "wp (if b then m else n) Q w = (if b then wp m Q w else wp n Q w)"
  by (simp_all add: wp_def act_defs)

lemma wp_guard [wp_simps]: "wp (act_guard b e) Q w = (if b then Q (Inr ()) w else Q (Inl e) w)"
  by (simp add: wp_def act_defs)

lemma wp_bind [wp_simps]:
  "wp (act_bind m f) Q w = wp m (\<lambda>r w'. case r of Inl e \<Rightarrow> Q (Inl e) w' | Inr a \<Rightarrow> wp (f a) Q w') w"
  by (auto simp: wp_def act_bind_def split: prod.splits sum.splits)

lemma wp_try [wp_simps]: "wp (act_try m) Q w = wp m (\<lambda>r. Q (Inr r)) w"
  by (auto simp: wp_def act_try_def split: prod.splits)

section \<open>Rows\<close>

record AuditEventRecord =
  ae_id :: string
  ae_sequence :: u64
  actor_identity_id :: "string option"
  actor_role :: string
  ae_action :: string
  target_type :: string
  target_id :: "string option"
  ae_outcome :: string
  previous_event_hmac :: string
  ae_hmac :: string
  ae_created_at :: string

record MoneyBalanceRecord =
  mb_identity :: string
  mb_currency :: string
  balance_nanos :: int
  credited_nanos :: int
  debited_nanos :: int
  mb_revision :: int
  last_ledger_hmac :: string
  mb_hmac :: string
  mb_updated_at :: string

record MoneyLedgerEntry =
  ml_id :: string
  ml_identity :: string
  ml_currency :: string
  ml_kind :: string
  amount_nanos :: int
  balance_revision :: int
  reference_id :: string
  billing_status :: string
  details_json :: string
  previous_entry_hmac :: string
  ml_hmac :: string
  ml_created_at :: string

record QuotaRequestRecord =
  qr_id :: string
  qr_identity :: string
  qr_amount_nanos :: int
  qr_reason :: string
  qr_status :: string
  review_note :: string
  reviewed_by :: "string option"
  reviewed_at :: "string option"
  qr_revision :: u32
  qr_hmac :: string
  qr_created_at :: string

record SecurityStateRecord =
  ss_key :: string
  ss_value :: string
  ss_revision :: u64
  ss_mac :: string
  ss_updated_at :: string

record RunnerEnrollmentRecord =
  en_id :: string
  token_hash :: string
  token_prefix :: string
  en_runner_name :: string
  en_status :: string
  en_expires_at :: string
  created_by :: string
  en_created_at :: string

record RunnerRegistrationRecord =
  reg_id :: string
  reg_credential_hash :: string
  reg_version :: string
  reg_protocol_version :: u32
  platform :: string
  architecture :: string
  max_inflight_of :: u32
  reg_created_at :: string

text \<open>A stored enrollment also names the runner that used it.\<close>

record enrollment_row =
  enrolled :: RunnerEnrollmentRecord
  row_status :: string
  used_at :: "string option"
  row_runner_id :: "string option"

record runner_row =
  registered :: RunnerRegistrationRecord
  row_enrollment_id :: string
  row_name :: string

record database =
  identity_ids :: "string list"
  money_balances :: "string \<rightharpoonup> MoneyBalanceRecord"
  money_ledger :: "MoneyLedgerEntry list"
  quota_requests :: "QuotaRequestRecord list"
  audit_events :: "AuditEventRecord list"
  transaction_gates :: "string \<rightharpoonup> int"
  security_state :: "string \<rightharpoonup> SecurityStateRecord"
  enrollments :: "enrollment_row list"
  runners :: "runner_row list"

text \<open>
  The tables of a new installation with the given identities. The schema script inserts the first
  two gates where it creates their table and the gate of the runner quota near its end.
\<close>

definition fresh_database :: "string list \<Rightarrow> database" where
  "fresh_database ids =
     \<lparr>identity_ids = ids, money_balances = Map.empty, money_ledger = [], quota_requests = [],
      audit_events = [], transaction_gates = [''member_seat'' \<mapsto> 0, ''audit_log'' \<mapsto> 0, ''entity_quota'' \<mapsto> 0],
      security_state = Map.empty, enrollments = [], runners = []\<rparr>"

section \<open>Statements and transactions\<close>

datatype db_error = ConstraintViolation | OtherFailure

text \<open>The errors the calls below return.\<close>

datatype StorageError = Database db_error | DatabaseNotEmpty | RunnerQuotaIntegrity

definition is_sqlite_unique_violation :: "StorageError \<Rightarrow> bool" where
  "is_sqlite_unique_violation e \<longleftrightarrow> e = Database ConstraintViolation"

record store =
  tables :: database
  faults :: "bool list"

type_synonym 'a statement = "database \<Rightarrow> (db_error, 'a \<times> database) result"

type_synonym 'a call = "(store, StorageError, 'a) act"

definition execute :: "'a statement \<Rightarrow> 'a call" where
  "execute s st =
     (let st' = st\<lparr>faults := tl (faults st)\<rparr> in
      if faults st \<noteq> [] \<and> hd (faults st) then (Inl (Database OtherFailure), st')
      else case s (tables st) of
             Inl e \<Rightarrow> (Inl (Database e), st')
           | Inr (a, db) \<Rightarrow> (Inr a, st'\<lparr>tables := db\<rparr>))"

definition query :: "(database \<Rightarrow> 'a) \<Rightarrow> 'a call" where
  "query f = execute (\<lambda>db. Inr (f db, db))"

datatype 'a tx_end = Commit 'a | Rollback 'a

definition transaction :: "'a tx_end call \<Rightarrow> 'a call" where
  "transaction body st =
     (case query (\<lambda>_. ()) st of
        (Inl e, st1) \<Rightarrow> (Inl e, st1)
      | (Inr _, st1) \<Rightarrow>
         (case body st1 of
            (Inl e, st2) \<Rightarrow> (Inl e, st2\<lparr>tables := tables st\<rparr>)
          | (Inr (Rollback v), st2) \<Rightarrow>
             (case query (\<lambda>_. ()) st2 of (r, st3) \<Rightarrow> (map_sum id (\<lambda>_. v) r, st3\<lparr>tables := tables st\<rparr>))
          | (Inr (Commit v), st2) \<Rightarrow>
             (case query (\<lambda>_. ()) st2 of
                (Inl e, st3) \<Rightarrow> (Inl e, st3\<lparr>tables := tables st\<rparr>)
              | (Inr _, st3) \<Rightarrow> (Inr v, st3))))"

lemma wp_execute [wp_simps]:
  "wp (execute s) Q st \<longleftrightarrow>
     (let st' = st\<lparr>faults := tl (faults st)\<rparr> in
      if faults st \<noteq> [] \<and> hd (faults st) then Q (Inl (Database OtherFailure)) st'
      else case s (tables st) of
             Inl e \<Rightarrow> Q (Inl (Database e)) st'
           | Inr (a, db) \<Rightarrow> Q (Inr a) (st'\<lparr>tables := db\<rparr>))"
  by (auto simp: wp_def execute_def Let_def split: sum.splits prod.splits)

text \<open>
  What a caller relies on: a statement either fails and changes nothing, or it is the pure
  statement; only the tables matter to it.
\<close>

lemma wp_executeI:
  assumes "\<And>e w. tables w = tables st \<Longrightarrow> Q (Inl (Database e)) w"
    and "\<And>a db w. s (tables st) = Inr (a, db) \<Longrightarrow> tables w = db \<Longrightarrow> Q (Inr a) w"
  shows "wp (execute s) Q st"
  unfolding wp_execute Let_def using assms by (auto split: sum.splits)

lemma query_result: "query f st = (r, st') \<Longrightarrow> tables st' = tables st \<and> (\<forall>a. r = Inr a \<longrightarrow> a = f (tables st))"
  by (auto simp: query_def execute_def Let_def split: if_splits)

lemma wp_queryI:
  assumes "\<And>e w. tables w = tables st \<Longrightarrow> Q (Inl (Database e)) w"
    and "\<And>w. tables w = tables st \<Longrightarrow> Q (Inr (f (tables st))) w"
  shows "wp (query f) Q st"
  unfolding query_def by (rule wp_executeI) (auto intro: assms)

text \<open>Reading a successful run backwards.\<close>

lemma bind_Inr: "act_bind m f st = (Inr b, st') \<longleftrightarrow> (\<exists>a st1. m st = (Inr a, st1) \<and> f a st1 = (Inr b, st'))"
  by (auto simp: act_bind_def split: prod.splits sum.splits)

lemma try_Inr: "act_try m st = (Inr r, st') \<longleftrightarrow> m st = (r, st')"
  by (auto simp: act_try_def split: prod.splits)

lemma execute_Inr: "execute s st = (Inr a, st') \<Longrightarrow> s (tables st) = Inr (a, tables st')"
  by (auto simp: execute_def Let_def split: if_splits sum.splits)

lemma execute_Inl: "execute s st = (Inl e, st') \<Longrightarrow> tables st' = tables st"
  by (auto simp: execute_def Let_def split: if_splits sum.splits)

lemma query_Inr: "query f st = (Inr a, st') \<Longrightarrow> a = f (tables st) \<and> tables st' = tables st"
  using query_result by blast

lemma pure_Inr:
  "act_ret a st = (Inr b, st') \<longleftrightarrow> a = b \<and> st' = st"
  "act_fail e st \<noteq> (Inr b, st')"
  by (auto simp: act_ret_def act_fail_def)

lemma guard_Inr: "act_guard b e st = (Inr x, st') \<longleftrightarrow> b \<and> st' = st"
  by (auto simp: act_guard_def act_ret_def act_fail_def)

text \<open>Without a fault ahead a statement is its pure meaning.\<close>

lemma calm_execute:
  "execute s \<lparr>tables = db, faults = []\<rparr> =
     (case s db of Inl e \<Rightarrow> (Inl (Database e), \<lparr>tables = db, faults = []\<rparr>) | Inr (a, db') \<Rightarrow> (Inr a, \<lparr>tables = db', faults = []\<rparr>))"
  by (auto simp: execute_def Let_def split: sum.splits)

lemma calm_query: "query f \<lparr>tables = db, faults = []\<rparr> = (Inr (f db), \<lparr>tables = db, faults = []\<rparr>)"
  by (simp add: query_def calm_execute)

text \<open>A transaction is atomic: the tables change only when its body ran through to a commit.\<close>

lemma transaction_cases:
  assumes "transaction body st = (r, st')"
  obtains (kept) "tables st' = tables st" "\<And>v. r = Inr v \<Longrightarrow> \<exists>st1 st2. tables st1 = tables st \<and> body st1 = (Inr (Rollback v), st2)"
    | (committed) v st1 st2 where "r = Inr v" "tables st1 = tables st" "body st1 = (Inr (Commit v), st2)" "tables st' = tables st2"
proof -
  obtain r1 st1 where q1: "query (\<lambda>_. ()) st = (r1, st1)" by (cases "query (\<lambda>_. ()) st")
  obtain r2 st2 where b: "body st1 = (r2, st2)" by (cases "body st1")
  obtain r3 st3 where q3: "query (\<lambda>_. ()) st2 = (r3, st3)" by (cases "query (\<lambda>_. ()) st2")
  note same = query_result [OF q1] query_result [OF q3]
  show thesis
  proof (cases "\<exists>v. r1 = Inr () \<and> r2 = Inr (Commit v) \<and> r3 = Inr ()")
    case True
    then obtain v where "r1 = Inr ()" "r2 = Inr (Commit v)" "r3 = Inr ()" by blast
    then show thesis using assms q1 b q3 same by (intro committed [of v st1 st2]) (auto simp: transaction_def)
  next
    case False
    then show thesis using assms q1 b q3 same
      by (intro kept; cases r1; cases r2; cases r3) (auto simp: transaction_def split: tx_end.splits)
  qed
qed

text \<open>A statement whose constraint violation is an outcome of its own; other errors are returned.\<close>

definition unless_violation :: "'a statement \<Rightarrow> 'b call \<Rightarrow> 'b call \<Rightarrow> 'b call" where
  "unless_violation s refused k =
     act_bind (act_try (execute s)) (\<lambda>r.
       case r of
         Inr _ \<Rightarrow> k
       | Inl err \<Rightarrow> if is_sqlite_unique_violation err then refused else act_fail err)"

lemma unless_violation_cases:
  assumes "unless_violation s refused k st = (r, st')"
  obtains (inserted) a st1 where "s (tables st) = Inr (a, tables st1)" "k st1 = (r, st')"
    | (refused) st1 where "tables st1 = tables st" "refused st1 = (r, st')"
    | (failed) e where "tables st' = tables st" "r = Inl e"
proof -
  obtain x st1 where x: "execute s st = (x, st1)" by (cases "execute s st")
  show thesis
  proof (cases x)
    case (Inl e)
    with x have t: "tables st1 = tables st" by (simp add: execute_Inl)
    show thesis
    proof (cases "is_sqlite_unique_violation e")
      case True
      with t x Inl assms show thesis by (intro refused [of st1]) (simp_all add: unless_violation_def act_defs)
    next
      case False
      with t x Inl assms show thesis by (intro failed [of e]) (auto simp: unless_violation_def act_defs)
    qed
  next
    case (Inr a)
    with x assms execute_Inr [of s st a st1] show thesis
      by (intro inserted [of a st1]) (simp_all add: unless_violation_def act_defs)
  qed
qed

section \<open>The audit log\<close>

text \<open>
  \<open>length\<close> of SQL counts the characters of a text before its first zero byte: the bytes that do
  not continue a UTF-8 sequence.
\<close>

definition text_length :: "string \<Rightarrow> nat" where
  "text_length s = char_count (takeWhile (\<lambda>c. byte_of c \<noteq> 0) s)"

definition audit_constraints :: "AuditEventRecord list \<Rightarrow> AuditEventRecord \<Rightarrow> bool" where
  "audit_constraints rows e \<longleftrightarrow> ae_id e \<notin> ae_id ` set rows
     \<and> ae_sequence e \<notin> ae_sequence ` set rows \<and> 0 < ae_sequence e
     \<and> actor_role e \<in> {''owner'', ''admin'', ''member'', ''system'', ''runner''}
     \<and> ae_outcome e \<in> {''succeeded'', ''failed''}
     \<and> (previous_event_hmac e = [] \<or> text_length (previous_event_hmac e) = 43)
     \<and> text_length (ae_hmac e) = 43"

definition insert_audit_event :: "AuditEventRecord \<Rightarrow> unit statement" where
  "insert_audit_event e db =
     (if audit_constraints (audit_events db) e
      then Inr ((), db\<lparr>audit_events := audit_events db @ [e]\<rparr>) else Inl ConstraintViolation)"

text \<open>A revision that leaves the integer range violates the type of the column.\<close>

definition bump_gate :: "string \<Rightarrow> int \<Rightarrow> nat statement" where
  "bump_gate key delta db =
     (case transaction_gates db key of
        None \<Rightarrow> Inr (0, db)
      | Some r \<Rightarrow>
          if in_i64 (r + delta) \<and> 0 \<le> r + delta
          then Inr (1, db\<lparr>transaction_gates := (transaction_gates db)(key \<mapsto> r + delta)\<rparr>)
          else Inl ConstraintViolation)"

text \<open>\<open>ORDER BY event_sequence DESC LIMIT 1\<close>\<close>

fun audit_tail :: "AuditEventRecord list \<Rightarrow> AuditEventRecord option" where
  "audit_tail [] = None"
| "audit_tail (e # es) =
     (case audit_tail es of
        None \<Rightarrow> Some e
      | Some f \<Rightarrow> if ae_sequence f < ae_sequence e then Some e else Some f)"

definition tail_position :: "AuditEventRecord list \<Rightarrow> u64 \<times> string" where
  "tail_position es = (case audit_tail es of None \<Rightarrow> (0, []) | Some e \<Rightarrow> (ae_sequence e, ae_hmac e))"

fun audit_chain :: "u64 \<Rightarrow> string \<Rightarrow> AuditEventRecord list \<Rightarrow> bool" where
  "audit_chain s h [] = True"
| "audit_chain s h (e # es) =
     (case checked_add s 1 of
        None \<Rightarrow> False
      | Some n \<Rightarrow> ae_sequence e = n \<and> previous_event_hmac e = h \<and> length (ae_hmac e) = 43
                 \<and> audit_chain (ae_sequence e) (ae_hmac e) es)"

definition valid_audit_event_batch :: "u64 \<Rightarrow> string \<Rightarrow> AuditEventRecord list \<Rightarrow> bool" where
  "valid_audit_event_batch s h events \<longleftrightarrow> events \<noteq> [] \<and> audit_chain s h events"

fun insert_events :: "AuditEventRecord list \<Rightarrow> bool call" where
  "insert_events [] = act_ret True"
| "insert_events (e # es) =
     act_bind (act_guard (unat (ae_sequence e) < 2 ^ 63) DatabaseNotEmpty) (\<lambda>_.
     unless_violation (insert_audit_event e) (act_ret False) (insert_events es))"

definition append_audit_events :: "u64 \<Rightarrow> string \<Rightarrow> AuditEventRecord list \<Rightarrow> bool call" where
  "append_audit_events s h events =
     (if \<not> valid_audit_event_batch s h events then act_ret False
      else act_bind (act_guard (length events < 2 ^ 63) DatabaseNotEmpty) (\<lambda>_.
           act_bind (execute (bump_gate ''audit_log'' (int (length events)))) (\<lambda>n.
           if n \<noteq> 1 then act_ret False
           else act_bind (query (\<lambda>db. tail_position (audit_events db))) (\<lambda>current.
                if current \<noteq> (s, h) then act_ret False
                else insert_events events))))"

text \<open>The log as a whole is one chain from the start.\<close>

definition audit_ok :: "database \<Rightarrow> bool" where
  "audit_ok db \<longleftrightarrow> audit_chain 0 [] (audit_events db)"

text \<open>The end of a chain that starts after position \<open>(s, h)\<close>.\<close>

definition chain_end :: "u64 \<Rightarrow> string \<Rightarrow> AuditEventRecord list \<Rightarrow> u64 \<times> string" where
  "chain_end s h es = (if es = [] then (s, h) else (ae_sequence (last es), ae_hmac (last es)))"

lemma audit_chain_append:
  "audit_chain s h (xs @ ys) \<longleftrightarrow> audit_chain s h xs \<and> (case chain_end s h xs of (s', h') \<Rightarrow> audit_chain s' h' ys)"
  by (induction s h xs rule: audit_chain.induct) (auto simp: chain_end_def split: option.splits)

lemma audit_chain_above:
  "audit_chain s h es \<Longrightarrow> e \<in> set es \<Longrightarrow> s < ae_sequence e"
  by (induction s h es rule: audit_chain.induct)
     (auto split: option.splits dest: checked_add_one_lt intro: less_trans)

text \<open>In a chain the last row is the one with the greatest sequence number.\<close>

lemma audit_tail_chain:
  "audit_chain s h es \<Longrightarrow> es \<noteq> [] \<Longrightarrow> audit_tail es = Some (last es)"
proof (induction s h es rule: audit_chain.induct)
  case (2 s h e es)
  then have chain: "audit_chain (ae_sequence e) (ae_hmac e) es" by (auto split: option.splits)
  show ?case
  proof (cases "es = []")
    case False
    with 2 chain have "audit_tail es = Some (last es)" by (auto split: option.splits)
    moreover have "ae_sequence e < ae_sequence (last es)"
      using audit_chain_above [OF chain] False by simp
    ultimately show ?thesis using False by simp
  qed simp
qed simp

lemma tail_position_chain: "audit_chain 0 [] es \<Longrightarrow> tail_position es = chain_end 0 [] es"
  by (cases "es = []") (simp_all add: tail_position_def chain_end_def audit_tail_chain)

lemma audit_ok_fresh: "audit_ok (fresh_database ids)"
  by (simp add: audit_ok_def fresh_database_def)

lemma insert_events_wp:
  "wp (insert_events es) (\<lambda>r st'. r = Inr True \<longrightarrow>
      tables st' = (tables st)\<lparr>audit_events := audit_events (tables st) @ es\<rparr>) st"
proof (induction es arbitrary: st)
  case (Cons e es)
  let ?Q = "\<lambda>r st'. r = Inr True \<longrightarrow> tables st' = (tables st)\<lparr>audit_events := audit_events (tables st) @ e # es\<rparr>"
  let ?k = "\<lambda>r. case r of Inr _ \<Rightarrow> insert_events es
      | Inl err \<Rightarrow> if is_sqlite_unique_violation err then act_ret False else act_fail err"
  have "wp (execute (insert_audit_event e)) (\<lambda>r. wp (?k r) ?Q) st"
  proof (rule wp_executeI)
    fix a db and w :: store
    assume "insert_audit_event e (tables st) = Inr (a, db)" "tables w = db"
    then have "tables w = (tables st)\<lparr>audit_events := audit_events (tables st) @ [e]\<rparr>"
      by (auto simp: insert_audit_event_def split: if_splits)
    then show "wp (?k (Inr a)) ?Q w" using Cons.IH [of w] by simp
  qed (simp add: wp_simps)
  then show ?case by (simp add: wp_simps unless_violation_def)
qed (simp add: wp_simps)

text \<open>
  A successful append extends the log by the batch, keeps the chain and bumps the gate; no other
  table changes.
\<close>

lemma append_audit_wp:
  "wp (append_audit_events s h events) (\<lambda>r st'. r = Inr True \<longrightarrow>
      (\<exists>gates. tables st' = (tables st)\<lparr>transaction_gates := gates, audit_events := audit_events (tables st) @ events\<rparr>)
      \<and> audit_chain s h events \<and> tail_position (audit_events (tables st)) = (s, h)) st"
proof -
  have "wp (query (\<lambda>db. tail_position (audit_events db))) (\<lambda>r st1. case r of Inl e \<Rightarrow> True | Inr current \<Rightarrow>
      wp (if current \<noteq> (s, h) then act_ret False else insert_events events) (\<lambda>r st'. r = Inr True \<longrightarrow>
        tail_position (audit_events (tables st0)) = (s, h)
        \<and> tables st' = (tables st0)\<lparr>audit_events := audit_events (tables st0) @ events\<rparr>) st1) st0" for st0
    by (rule wp_queryI) (auto simp: wp_simps intro!: wp_mono [OF insert_events_wp])
  note read = this
  show ?thesis
    unfolding append_audit_events_def wp_simps
    by (auto simp: wp_simps valid_audit_event_batch_def bump_gate_def Let_def
        split: option.splits if_splits intro!: wp_mono [OF read] split: sum.splits elim!: wp_mono)
qed

lemma append_audit_ok:
  assumes "append_audit_events s h events st = (Inr True, st')" "audit_ok (tables st)"
  shows "audit_ok (tables st')" "\<exists>gates. tables st' = (tables st)\<lparr>transaction_gates := gates,
     audit_events := audit_events (tables st) @ events\<rparr>"
proof -
  note post = wpD [OF append_audit_wp assms(1)]
  then show "\<exists>gates. tables st' = (tables st)\<lparr>transaction_gates := gates,
     audit_events := audit_events (tables st) @ events\<rparr>" by simp
  from post assms(2) show "audit_ok (tables st')"
    by (auto simp: audit_ok_def audit_chain_append tail_position_chain)
qed

end
