(* ===== verification/MoneyLedger.thy ===== *)
theory MoneyLedger
  imports Database
begin

text \<open>
  Member balances and their ledger (\<open>storage/src/money_ledger.rs\<close>, and the quota requests of
  \<open>storage/src/lib.rs\<close> whose approval grants money): validation of a transition, the statements
  on the tables with the constraints of the schema, and the transactions that write an entry
  together with its balance, its request and its audit event. Whether a text is a JSON object is
  the argument \<open>json_object\<close>.
\<close>

section \<open>Transitions\<close>

definition valid_currency :: "string \<Rightarrow> bool" where
  "valid_currency c \<longleftrightarrow> c \<in> {''CNY'', ''USD''}"

definition valid_initial_money_balance :: "MoneyBalanceRecord \<Rightarrow> bool" where
  "valid_initial_money_balance b \<longleftrightarrow> mb_identity b \<noteq> [] \<and> valid_currency (mb_currency b)
     \<and> balance_nanos b = 0 \<and> credited_nanos b = 0 \<and> debited_nanos b = 0 \<and> mb_revision b = 0
     \<and> last_ledger_hmac b = [] \<and> mb_hmac b \<noteq> [] \<and> mb_updated_at b \<noteq> []"

definition entry_kind_valid :: "MoneyLedgerEntry \<Rightarrow> bool" where
  "entry_kind_valid e \<longleftrightarrow>
     (if ml_kind e \<in> {''grant'', ''refund''} then 0 < amount_nanos e \<and> billing_status e = ''not_applicable''
      else if ml_kind e = ''charge'' then amount_nanos e \<le> 0 \<and> billing_status e = ''charged''
      else if ml_kind e = ''anomaly'' then amount_nanos e = 0 \<and> billing_status e = ''billing_error''
      else if ml_kind e = ''request_failed'' then amount_nanos e = 0 \<and> billing_status e = ''not_applicable''
      else ml_kind e = ''adjustment'' \<and> amount_nanos e \<noteq> 0 \<and> billing_status e = ''not_applicable'')"

definition valid_money_transition ::
    "(string \<Rightarrow> bool) \<Rightarrow> MoneyBalanceRecord \<Rightarrow> MoneyBalanceRecord \<Rightarrow> MoneyLedgerEntry \<Rightarrow> bool" where
  "valid_money_transition json_object expected next_balance entry \<longleftrightarrow>
     valid_currency (mb_currency expected) \<and> mb_identity expected \<noteq> []
     \<and> mb_currency expected = mb_currency next_balance \<and> mb_currency expected = ml_currency entry
     \<and> mb_identity expected = mb_identity next_balance \<and> mb_identity expected = ml_identity entry
     \<and> 0 \<le> mb_revision expected \<and> 0 \<le> credited_nanos expected \<and> 0 \<le> debited_nanos expected
     \<and> fit_i64 (credited_nanos expected - debited_nanos expected) = Some (balance_nanos expected)
     \<and> mb_hmac expected \<noteq> [] \<and> mb_hmac next_balance \<noteq> [] \<and> ml_hmac entry \<noteq> []
     \<and> ml_id entry \<noteq> [] \<and> reference_id entry \<noteq> [] \<and> ml_created_at entry \<noteq> []
     \<and> previous_entry_hmac entry = last_ledger_hmac expected
     \<and> last_ledger_hmac next_balance = ml_hmac entry \<and> mb_updated_at next_balance \<noteq> []
     \<and> entry_kind_valid entry \<and> length (details_json entry) \<le> 32768 \<and> json_object (details_json entry)
     \<and> (case fit_i64 (- amount_nanos entry) of
          None \<Rightarrow> False
        | Some neg \<Rightarrow>
            fit_i64 (mb_revision expected + 1) = Some (mb_revision next_balance)
            \<and> balance_revision entry = mb_revision next_balance
            \<and> fit_i64 (balance_nanos expected + amount_nanos entry) = Some (balance_nanos next_balance)
            \<and> fit_i64 (credited_nanos expected + max (amount_nanos entry) 0) = Some (credited_nanos next_balance)
            \<and> fit_i64 (debited_nanos expected + max neg 0) = Some (debited_nanos next_balance))"

section \<open>Statements\<close>

definition insert_balance :: "MoneyBalanceRecord \<Rightarrow> unit statement" where
  "insert_balance b db =
     (if money_balances db (mb_identity b) = None \<and> mb_identity b \<in> set (identity_ids db)
         \<and> valid_currency (mb_currency b) \<and> 0 \<le> credited_nanos b \<and> 0 \<le> debited_nanos b \<and> 0 \<le> mb_revision b
      then Inr ((), db\<lparr>money_balances := (money_balances db)(mb_identity b \<mapsto> b)\<rparr>)
      else Inl ConstraintViolation)"

definition ledger_constraints :: "database \<Rightarrow> MoneyLedgerEntry \<Rightarrow> bool" where
  "ledger_constraints db e \<longleftrightarrow> ml_id e \<notin> ml_id ` set (money_ledger db)
     \<and> (ml_identity e, reference_id e) \<notin> (\<lambda>x. (ml_identity x, reference_id x)) ` set (money_ledger db)
     \<and> (ml_identity e, balance_revision e) \<notin> (\<lambda>x. (ml_identity x, balance_revision x)) ` set (money_ledger db)
     \<and> ml_identity e \<in> set (identity_ids db) \<and> valid_currency (ml_currency e)
     \<and> ml_kind e \<in> {''grant'', ''charge'', ''anomaly'', ''request_failed'', ''adjustment'', ''refund''}
     \<and> 0 < balance_revision e \<and> billing_status e \<in> {''not_applicable'', ''charged'', ''billing_error''}"

definition insert_ledger_entry :: "MoneyLedgerEntry \<Rightarrow> unit statement" where
  "insert_ledger_entry e db =
     (if ledger_constraints db e then Inr ((), db\<lparr>money_ledger := money_ledger db @ [e]\<rparr>)
      else Inl ConstraintViolation)"

definition balance_after :: "MoneyBalanceRecord \<Rightarrow> MoneyBalanceRecord \<Rightarrow> MoneyBalanceRecord" where
  "balance_after b n =
     b\<lparr>balance_nanos := balance_nanos n, credited_nanos := credited_nanos n,
       debited_nanos := debited_nanos n, mb_revision := mb_revision n,
       last_ledger_hmac := last_ledger_hmac n, mb_hmac := mb_hmac n, mb_updated_at := mb_updated_at n\<rparr>"

definition update_balance :: "MoneyBalanceRecord \<Rightarrow> MoneyBalanceRecord \<Rightarrow> nat statement" where
  "update_balance expected n db =
     (case money_balances db (mb_identity expected) of
        None \<Rightarrow> Inr (0, db)
      | Some b \<Rightarrow>
          if mb_revision b = mb_revision expected \<and> mb_hmac b = mb_hmac expected
          then if 0 \<le> credited_nanos n \<and> 0 \<le> debited_nanos n \<and> 0 \<le> mb_revision n
               then Inr (1, db\<lparr>money_balances := (money_balances db)(mb_identity expected \<mapsto> balance_after b n)\<rparr>)
               else Inl ConstraintViolation
          else Inr (0, db))"

definition request_constraints :: "database \<Rightarrow> QuotaRequestRecord \<Rightarrow> bool" where
  "request_constraints db q \<longleftrightarrow> qr_identity q \<in> set (identity_ids db) \<and> 0 < qr_amount_nanos q
     \<and> qr_status q \<in> {''pending'', ''approved'', ''rejected''}
     \<and> is_none_or (reviewed_by q) (\<lambda>r. r \<in> set (identity_ids db))"

text \<open>At most one request of a member is pending.\<close>

definition pending_free :: "database \<Rightarrow> QuotaRequestRecord \<Rightarrow> bool" where
  "pending_free db q \<longleftrightarrow> \<not> (qr_status q = ''pending''
     \<and> list_ex (\<lambda>p. qr_identity p = qr_identity q \<and> qr_status p = ''pending'') (quota_requests db))"

definition request_row :: "string \<Rightarrow> database \<Rightarrow> QuotaRequestRecord option" where
  "request_row request_id db = find (\<lambda>p. qr_id p = request_id) (quota_requests db)"

definition insert_request :: "QuotaRequestRecord \<Rightarrow> unit statement" where
  "insert_request q db =
     (if request_row (qr_id q) db = None \<and> request_constraints db q \<and> pending_free db q
      then Inr ((), db\<lparr>quota_requests := quota_requests db @ [q]\<rparr>)
      else Inl ConstraintViolation)"

definition reviewed_request ::
    "QuotaRequestRecord \<Rightarrow> QuotaRequestRecord \<Rightarrow> string \<Rightarrow> string \<Rightarrow> string \<Rightarrow> string \<Rightarrow> string \<Rightarrow> QuotaRequestRecord" where
  "reviewed_request row q status remark reviewer at_time hmac =
     row\<lparr>qr_status := status, review_note := remark, reviewed_by := Some reviewer, reviewed_at := Some at_time,
         qr_revision := saturating_add (qr_revision q) 1, qr_hmac := hmac\<rparr>"

definition update_request ::
    "QuotaRequestRecord \<Rightarrow> string \<Rightarrow> string \<Rightarrow> string \<Rightarrow> string \<Rightarrow> string \<Rightarrow> nat statement" where
  "update_request q status remark reviewer at_time hmac db =
     (case request_row (qr_id q) db of
        None \<Rightarrow> Inr (0, db)
      | Some row \<Rightarrow>
          if qr_status row = ''pending'' \<and> qr_revision row = qr_revision q \<and> qr_hmac row = qr_hmac q
          then (let row' = reviewed_request row q status remark reviewer at_time hmac in
                if request_constraints db row'
                then Inr (1, db\<lparr>quota_requests := map (\<lambda>p. if qr_id p = qr_id q then row' else p) (quota_requests db)\<rparr>)
                else Inl ConstraintViolation)
          else Inr (0, db))"

section \<open>Operations\<close>

datatype MoneyMutationOutcome = Applied | Conflict | DuplicateReference

datatype 'a MutationWithAuditOutcome = Mutation 'a | AuditConflict

datatype QuotaRequestInsertOutcome = Inserted | PendingExists

datatype QuotaRequestReviewOutcome = ReviewApplied | ReviewConflict

record MoneyStateSnapshot =
  snap_balance :: MoneyBalanceRecord
  ledger_entries :: "MoneyLedgerEntry list"

definition initialize_money_balance :: "MoneyBalanceRecord \<Rightarrow> bool call" where
  "initialize_money_balance b =
     (if \<not> valid_initial_money_balance b then act_ret False
      else unless_violation (insert_balance b) (act_ret False) (act_ret True))"

definition entries_of :: "string \<Rightarrow> database \<Rightarrow> MoneyLedgerEntry list" where
  "entries_of identity db = filter (\<lambda>e. ml_identity e = identity) (money_ledger db)"

definition money_state_snapshot :: "string \<Rightarrow> MoneyStateSnapshot option call" where
  "money_state_snapshot identity =
     act_bind (query (\<lambda>_. ())) (\<lambda>_.
     act_bind (query (\<lambda>db. money_balances db identity)) (\<lambda>balance.
       case balance of
         None \<Rightarrow> act_ret None
       | Some b \<Rightarrow> act_bind (query (\<lambda>db. sort_key balance_revision (entries_of identity db))) (\<lambda>es.
           act_ret (Some \<lparr>snap_balance = b, ledger_entries = es\<rparr>))))"

text \<open>The two statements every posting of an entry consists of, and what follows them.\<close>

definition post_entry ::
    "'a \<Rightarrow> 'a \<Rightarrow> MoneyBalanceRecord \<Rightarrow> MoneyBalanceRecord \<Rightarrow> MoneyLedgerEntry \<Rightarrow> 'a tx_end call \<Rightarrow> 'a tx_end call" where
  "post_entry duplicate conflict expected next_balance entry k =
     unless_violation (insert_ledger_entry entry) (act_ret (Rollback duplicate))
       (act_bind (execute (update_balance expected next_balance)) (\<lambda>updated.
          if updated \<noteq> 1 then act_ret (Rollback conflict) else k))"

definition finish_with_audit ::
    "u64 \<Rightarrow> string \<Rightarrow> AuditEventRecord list \<Rightarrow> 'a \<Rightarrow> 'a MutationWithAuditOutcome tx_end call" where
  "finish_with_audit s h events v =
     act_bind (append_audit_events s h events) (\<lambda>appended.
       act_ret (if appended then Commit (Mutation v) else Rollback AuditConflict))"

definition write_money_entry_with_audit ::
    "(string \<Rightarrow> bool) \<Rightarrow> MoneyBalanceRecord \<Rightarrow> MoneyBalanceRecord \<Rightarrow> MoneyLedgerEntry \<Rightarrow> u64 \<Rightarrow> string \<Rightarrow> AuditEventRecord
      \<Rightarrow> MoneyMutationOutcome MutationWithAuditOutcome call" where
  "write_money_entry_with_audit json_object expected next_balance entry s h event =
     (if \<not> valid_money_transition json_object expected next_balance entry then act_ret (Mutation Conflict)
      else transaction (
        act_bind (query (\<lambda>db. money_balances db (mb_identity expected))) (\<lambda>current.
          if current \<noteq> Some expected then act_ret (Rollback (Mutation Conflict))
          else post_entry (Mutation DuplicateReference) (Mutation Conflict) expected next_balance entry
                 (finish_with_audit s h [event] Applied))))"

definition insert_quota_request :: "QuotaRequestRecord \<Rightarrow> QuotaRequestInsertOutcome call" where
  "insert_quota_request q =
     unless_violation (insert_request q) (act_ret PendingExists) (act_ret Inserted)"

definition insert_quota_request_and_audit ::
    "QuotaRequestRecord \<Rightarrow> u64 \<Rightarrow> string \<Rightarrow> AuditEventRecord
      \<Rightarrow> QuotaRequestInsertOutcome MutationWithAuditOutcome call" where
  "insert_quota_request_and_audit q s h event =
     transaction (
       unless_violation (insert_request q) (act_ret (Rollback (Mutation PendingExists)))
         (finish_with_audit s h [event] Inserted))"

type_synonym grant = "MoneyBalanceRecord \<times> MoneyBalanceRecord \<times> MoneyLedgerEntry"

definition review_body ::
    "QuotaRequestRecord \<Rightarrow> string \<Rightarrow> string \<Rightarrow> string \<Rightarrow> string \<Rightarrow> string \<Rightarrow> (u64 \<times> string \<times> AuditEventRecord list) option
      \<Rightarrow> QuotaRequestReviewOutcome MutationWithAuditOutcome tx_end call" where
  "review_body q status remark reviewer at_time hmac audit =
     act_bind (execute (update_request q status remark reviewer at_time hmac)) (\<lambda>n.
       if n \<noteq> 1 then act_ret (Rollback (Mutation ReviewConflict))
       else case audit of
              None \<Rightarrow> act_ret (Commit (Mutation ReviewApplied))
            | Some (s, h, events) \<Rightarrow> finish_with_audit s h events ReviewApplied)"

definition review_quota_request_inner ::
    "(string \<Rightarrow> bool) \<Rightarrow> QuotaRequestRecord \<Rightarrow> string \<Rightarrow> string \<Rightarrow> string \<Rightarrow> string \<Rightarrow> string \<Rightarrow> grant option
      \<Rightarrow> (u64 \<times> string \<times> AuditEventRecord list) option \<Rightarrow> QuotaRequestReviewOutcome MutationWithAuditOutcome call" where
  "review_quota_request_inner json_object q status remark reviewer at_time hmac grant audit =
     (if qr_status q \<noteq> ''pending'' \<or> status \<notin> {''approved'', ''rejected''}
         \<or> (status = ''approved'') \<noteq> (grant \<noteq> None) \<or> hmac = []
      then act_ret (Mutation ReviewConflict)
      else if is_some_and grant (\<lambda>(expected, next_balance, entry).
             \<not> valid_money_transition json_object expected next_balance entry
             \<or> ml_identity entry \<noteq> qr_identity q \<or> amount_nanos entry \<noteq> qr_amount_nanos q)
      then act_ret (Mutation ReviewConflict)
      else transaction (
        act_bind (query (request_row (qr_id q))) (\<lambda>current.
          if current \<noteq> Some q then act_ret (Rollback (Mutation ReviewConflict))
          else case grant of
                 None \<Rightarrow> review_body q status remark reviewer at_time hmac audit
               | Some (expected, next_balance, entry) \<Rightarrow>
                   post_entry (Mutation ReviewConflict) (Mutation ReviewConflict) expected next_balance entry
                     (review_body q status remark reviewer at_time hmac audit))))"

definition review_quota_request ::
    "(string \<Rightarrow> bool) \<Rightarrow> QuotaRequestRecord \<Rightarrow> string \<Rightarrow> string \<Rightarrow> string \<Rightarrow> string \<Rightarrow> string \<Rightarrow> grant option
      \<Rightarrow> QuotaRequestReviewOutcome call" where
  "review_quota_request json_object q status remark reviewer at_time hmac grant =
     act_bind (review_quota_request_inner json_object q status remark reviewer at_time hmac grant None) (\<lambda>r.
       case r of Mutation v \<Rightarrow> act_ret v | AuditConflict \<Rightarrow> act_fail DatabaseNotEmpty)"

definition review_quota_request_and_audit ::
    "(string \<Rightarrow> bool) \<Rightarrow> QuotaRequestRecord \<Rightarrow> string \<Rightarrow> string \<Rightarrow> string \<Rightarrow> string \<Rightarrow> string \<Rightarrow> grant option
      \<Rightarrow> u64 \<Rightarrow> string \<Rightarrow> AuditEventRecord \<Rightarrow> QuotaRequestReviewOutcome MutationWithAuditOutcome call" where
  "review_quota_request_and_audit json_object q status remark reviewer at_time hmac grant s h event =
     review_quota_request_inner json_object q status remark reviewer at_time hmac grant (Some (s, h, [event]))"

section \<open>Reconciliation\<close>

fun entry_chain :: "string \<Rightarrow> MoneyLedgerEntry list \<Rightarrow> string \<Rightarrow> bool" where
  "entry_chain h [] final \<longleftrightarrow> final = h"
| "entry_chain h (e # es) final \<longleftrightarrow> previous_entry_hmac e = h \<and> entry_chain (ml_hmac e) es final"

text \<open>
  A balance agrees with the entries of its member: totals, number, order, chain, currency, and
  every entry is of a kind that allows its amount.
\<close>

definition reconciles :: "MoneyBalanceRecord \<Rightarrow> MoneyLedgerEntry list \<Rightarrow> bool" where
  "reconciles b es \<longleftrightarrow> balance_nanos b = sum_list (map amount_nanos es)
     \<and> credited_nanos b = sum_list (map (\<lambda>e. max 0 (amount_nanos e)) es)
     \<and> debited_nanos b = sum_list (map (\<lambda>e. max 0 (- amount_nanos e)) es)
     \<and> mb_revision b = int (length es)
     \<and> map balance_revision es = map int [1..<Suc (length es)]
     \<and> entry_chain [] es (last_ledger_hmac b)
     \<and> list_all (\<lambda>e. ml_currency e = mb_currency b \<and> entry_kind_valid e) es"

text \<open>A relation of balances to entries that holds of every member.\<close>

type_synonym agreement = "MoneyBalanceRecord \<Rightarrow> MoneyLedgerEntry list \<Rightarrow> bool"

fun member_ok :: "agreement \<Rightarrow> string \<Rightarrow> MoneyBalanceRecord option \<Rightarrow> MoneyLedgerEntry list \<Rightarrow> bool" where
  "member_ok agrees i None es = (es = [])"
| "member_ok agrees i (Some b) es = (mb_identity b = i \<and> agrees b es)"

definition ledger_ok :: "agreement \<Rightarrow> database \<Rightarrow> bool" where
  "ledger_ok agrees db \<longleftrightarrow> (\<forall>i. member_ok agrees i (money_balances db i) (entries_of i db))
     \<and> distinct (map ml_id (money_ledger db))
     \<and> distinct (map (\<lambda>e. (ml_identity e, reference_id e)) (money_ledger db))"

lemma entry_chain_snoc:
  "entry_chain h (es @ [e]) final \<longleftrightarrow> entry_chain h es (previous_entry_hmac e) \<and> final = ml_hmac e"
  by (induction h es final rule: entry_chain.induct) auto

lemma transition_reconciles:
  assumes "valid_money_transition json_object b n e" "reconciles b es"
  shows "reconciles n (es @ [e])"
  using assms
  by (auto simp: valid_money_transition_def reconciles_def checked_simps entry_chain_snoc max.commute
      split: option.splits)

lemma update_is_next:
  assumes "valid_money_transition json_object b n e"
  shows "balance_after b n = n"
  using assms by (simp add: valid_money_transition_def balance_after_def)

lemma update_balance_1:
  "update_balance expected n db = Inr (1, db') \<Longrightarrow>
     \<exists>b. money_balances db (mb_identity expected) = Some b \<and> mb_revision b = mb_revision expected
       \<and> mb_hmac b = mb_hmac expected
       \<and> db' = db\<lparr>money_balances := (money_balances db)(mb_identity expected \<mapsto> balance_after b n)\<rparr>"
  by (auto simp: update_balance_def split: option.splits if_splits)

lemma ledger_ok_fresh: "ledger_ok agrees (fresh_database ids)"
  by (simp add: ledger_ok_def fresh_database_def entries_of_def)

text \<open>What a posting does when it commits.\<close>

lemma post_entry_commit:
  assumes "post_entry d c expected n e k st = (Inr (Commit v), st')"
  obtains b st1 where "money_balances (tables st) (mb_identity expected) = Some b"
    "mb_revision b = mb_revision expected" "mb_hmac b = mb_hmac expected" "ledger_constraints (tables st) e"
    "tables st1 = (tables st)\<lparr>money_ledger := money_ledger (tables st) @ [e],
       money_balances := (money_balances (tables st))(mb_identity expected \<mapsto> balance_after b n)\<rparr>"
    "k st1 = (Inr (Commit v), st')"
proof -
  from assms obtain st0 st1 where ins: "insert_ledger_entry e (tables st) = Inr ((), tables st0)"
    and upd: "execute (update_balance expected n) st0 = (Inr 1, st1)" and k: "k st1 = (Inr (Commit v), st')"
    unfolding post_entry_def
    by (auto elim!: unless_violation_cases simp: bind_Inr pure_Inr split: if_splits)
  from ins have "ledger_constraints (tables st) e"
    "tables st0 = (tables st)\<lparr>money_ledger := money_ledger (tables st) @ [e]\<rparr>"
    by (auto simp: insert_ledger_entry_def split: if_splits)
  moreover from update_balance_1 [OF execute_Inr [OF upd]] obtain b
    where "money_balances (tables st0) (mb_identity expected) = Some b" "mb_revision b = mb_revision expected"
      "mb_hmac b = mb_hmac expected"
      "tables st1 = (tables st0)\<lparr>money_balances := (money_balances (tables st0))(mb_identity expected \<mapsto> balance_after b n)\<rparr>"
    by blast
  ultimately show thesis using k by (intro that [of b st1]) simp_all
qed

section \<open>Histories\<close>

text \<open>
  One call of the storage interface on money and requests. The calls of several processes on
  the same database are serialised by its transactions, so a history is a sequence of calls.
\<close>

type_synonym audit_arg = "u64 \<times> string \<times> AuditEventRecord"

datatype money_op =
    InitBalance MoneyBalanceRecord
  | WriteEntry MoneyBalanceRecord MoneyBalanceRecord MoneyLedgerEntry audit_arg
  | InsertRequest QuotaRequestRecord "audit_arg option"
  | ReviewRequest QuotaRequestRecord string string string string string "grant option" "audit_arg option"

fun run_money_op :: "(string \<Rightarrow> bool) \<Rightarrow> money_op \<Rightarrow> store \<Rightarrow> store" where
  "run_money_op json_object (InitBalance b) st = snd (initialize_money_balance b st)"
| "run_money_op json_object (WriteEntry x n e (s, h, ev)) st = snd (write_money_entry_with_audit json_object x n e s h ev st)"
| "run_money_op json_object (InsertRequest q None) st = snd (insert_quota_request q st)"
| "run_money_op json_object (InsertRequest q (Some (s, h, ev))) st = snd (insert_quota_request_and_audit q s h ev st)"
| "run_money_op json_object (ReviewRequest q status remark reviewer at_time hmac g None) st =
     snd (review_quota_request json_object q status remark reviewer at_time hmac g st)"
| "run_money_op json_object (ReviewRequest q status remark reviewer at_time hmac g (Some (s, h, ev))) st =
     snd (review_quota_request_and_audit json_object q status remark reviewer at_time hmac g s h ev st)"

fun balances_in :: "money_op \<Rightarrow> MoneyBalanceRecord set" where
  "balances_in (InitBalance b) = {b}"
| "balances_in (WriteEntry x n e a) = {x, n}"
| "balances_in (InsertRequest q a) = {}"
| "balances_in (ReviewRequest q status remark reviewer at_time hmac g a) =
     (case g of None \<Rightarrow> {} | Some (x, n, e) \<Rightarrow> {x, n})"

fun entries_in :: "money_op \<Rightarrow> MoneyLedgerEntry set" where
  "entries_in (WriteEntry x n e a) = {e}"
| "entries_in (ReviewRequest q status remark reviewer at_time hmac g a) =
     (case g of None \<Rightarrow> {} | Some (x, n, e) \<Rightarrow> {e})"
| "entries_in _ = {}"

text \<open>Among the records presented to the store, the message code of a balance identifies it.\<close>

definition mac_binds :: "MoneyBalanceRecord set \<Rightarrow> bool" where
  "mac_binds B \<longleftrightarrow> inj_on mb_hmac B"

definition accounts_ok :: "agreement \<Rightarrow> MoneyBalanceRecord set \<Rightarrow> database \<Rightarrow> bool" where
  "accounts_ok agrees B db \<longleftrightarrow> ledger_ok agrees db \<and> audit_ok db \<and> ran (money_balances db) \<subseteq> B"

lemma finish_commit:
  "finish_with_audit s h events v st = (Inr (Commit x), st') \<longleftrightarrow>
     x = Mutation v \<and> append_audit_events s h events st = (Inr True, st')"
  by (auto simp: finish_with_audit_def bind_Inr pure_Inr)

lemma review_state:
  "snd (review_quota_request json_object q status remark reviewer at_time hmac g st)
     = snd (review_quota_request_inner json_object q status remark reviewer at_time hmac g None st)"
  by (auto simp: review_quota_request_def act_defs split: prod.splits sum.splits MutationWithAuditOutcome.splits)

text \<open>
  What the transactions promise of a relation between a balance and the member's entries: when
  it holds of a new balance and every valid posting of a genuine entry keeps it, it holds of every
  member after every history.
\<close>

locale ledger_invariant =
  fixes json_object :: "string \<Rightarrow> bool"
    and agrees :: "MoneyBalanceRecord \<Rightarrow> MoneyLedgerEntry list \<Rightarrow> bool"
    and genuine :: "MoneyLedgerEntry \<Rightarrow> bool"
  assumes initial: "valid_initial_money_balance b \<Longrightarrow> agrees b []"
    and posting: "valid_money_transition json_object b n e \<Longrightarrow> genuine e \<Longrightarrow> agrees b es \<Longrightarrow> agrees n (es @ [e])"
begin

text \<open>Posting a valid transition of the stored balance keeps the ledger reconciled.\<close>

lemma posted_ok:
  assumes ok: "ledger_ok agrees db" and b: "money_balances db (mb_identity b) = Some b"
    and valid: "valid_money_transition json_object b n e" and con: "ledger_constraints db e" and gen: "genuine e"
  shows "ledger_ok agrees (db\<lparr>money_ledger := money_ledger db @ [e], money_balances := (money_balances db)(mb_identity b \<mapsto> n)\<rparr>)"
proof -
  let ?db = "db\<lparr>money_ledger := money_ledger db @ [e], money_balances := (money_balances db)(mb_identity b \<mapsto> n)\<rparr>"
  have ids: "ml_identity e = mb_identity b" "mb_identity n = mb_identity b"
    using valid by (auto simp: valid_money_transition_def)
  have "agrees b (entries_of (mb_identity b) db)" using ok b by (metis ledger_ok_def member_ok.simps(2))
  then have new: "agrees n (entries_of (mb_identity b) ?db)"
    using posting [OF valid] gen ids by (simp add: entries_of_def)
  have other: "entries_of i ?db = entries_of i db" if "i \<noteq> mb_identity b" for i
    using that ids by (simp add: entries_of_def)
  have "member_ok agrees i (money_balances ?db i) (entries_of i ?db)" for i
    using ok other [of i] new ids by (cases "i = mb_identity b") (simp_all add: ledger_ok_def)
  with ok con show ?thesis by (auto simp: ledger_ok_def ledger_constraints_def)
qed

lemma accounts_ok_frame:
  assumes "accounts_ok agrees B db" "money_balances db' = money_balances db" "money_ledger db' = money_ledger db"
    "audit_events db' = audit_events db"
  shows "accounts_ok agrees B db'"
  using assms by (simp add: accounts_ok_def ledger_ok_def entries_of_def audit_ok_def)

lemma accounts_ok_audit:
  assumes "append_audit_events s h events st = (Inr True, st')" "accounts_ok agrees B (tables st)"
  shows "accounts_ok agrees B (tables st')"
proof -
  have "audit_ok (tables st)" using assms(2) by (simp add: accounts_ok_def)
  note app = append_audit_ok [OF assms(1) this]
  from app(2) obtain gates where "tables st' = (tables st)\<lparr>transaction_gates := gates,
     audit_events := audit_events (tables st) @ events\<rparr>" by blast
  with app(1) assms(2) show ?thesis by (simp add: accounts_ok_def ledger_ok_def entries_of_def)
qed

lemma accounts_ok_post:
  assumes "post_entry d c expected n e k st = (Inr (Commit v), st')" "accounts_ok agrees B (tables st)"
    and "valid_money_transition json_object expected n e" "n \<in> B" "genuine e"
    and "\<And>b. money_balances (tables st) (mb_identity expected) = Some b \<Longrightarrow> mb_hmac b = mb_hmac expected \<Longrightarrow> b = expected"
  obtains st1 where "accounts_ok agrees B (tables st1)" "k st1 = (Inr (Commit v), st')"
proof -
  from assms(1) obtain b st1 where p: "money_balances (tables st) (mb_identity expected) = Some b"
      "mb_hmac b = mb_hmac expected" "ledger_constraints (tables st) e"
      "tables st1 = (tables st)\<lparr>money_ledger := money_ledger (tables st) @ [e],
         money_balances := (money_balances (tables st))(mb_identity expected \<mapsto> balance_after b n)\<rparr>"
      "k st1 = (Inr (Commit v), st')"
    by (rule post_entry_commit)
  have b: "b = expected" using assms(6) p(1,2) by blast
  with p update_is_next [OF assms(3)] posted_ok [OF _ _ assms(3) p(3) assms(5)] assms(2,4)
  have "accounts_ok agrees B (tables st1)"
    by (auto simp: accounts_ok_def audit_ok_def ran_def split: if_splits)
  with p(5) show thesis by (rule that [rotated])
qed

lemma accounts_ok_request:
  assumes "accounts_ok agrees B db"
  shows "insert_request q db = Inr (a, db') \<Longrightarrow> accounts_ok agrees B db'"
    and "update_request q status remark reviewer at_time hmac db = Inr (n, db') \<Longrightarrow> accounts_ok agrees B db'"
  using assms
  by (auto simp: insert_request_def update_request_def Let_def intro: accounts_ok_frame
      split: if_splits option.splits)

lemma accounts_ok_finish:
  "finish_with_audit s h events v st = (Inr (Commit x), st') \<Longrightarrow> accounts_ok agrees B (tables st) \<Longrightarrow> accounts_ok agrees B (tables st')"
  by (auto simp: finish_commit intro: accounts_ok_audit)

lemma accounts_ok_review:
  assumes "review_body q status remark reviewer at_time hmac audit st = (Inr (Commit v), st')" "accounts_ok agrees B (tables st)"
  shows "accounts_ok agrees B (tables st')"
proof -
  from assms(1) obtain st1 where "execute (update_request q status remark reviewer at_time hmac) st = (Inr 1, st1)"
    and k: "(case audit of None \<Rightarrow> act_ret (Commit (Mutation ReviewApplied))
         | Some (s, h, events) \<Rightarrow> finish_with_audit s h events ReviewApplied) st1 = (Inr (Commit v), st')"
    by (auto simp: review_body_def bind_Inr pure_Inr split: if_splits)
  then have "accounts_ok agrees B (tables st1)" by (blast intro: accounts_ok_request(2) [OF assms(2)] dest: execute_Inr)
  with k show ?thesis by (auto simp: pure_Inr intro: accounts_ok_finish split: option.splits)
qed

text \<open>Each call keeps the invariant, committed or not.\<close>

lemma accounts_ok_init:
  assumes "accounts_ok agrees B (tables st)" "b \<in> B"
  shows "accounts_ok agrees B (tables (snd (initialize_money_balance b st)))"
proof (cases "valid_initial_money_balance b")
  case True
  obtain r st' where run: "unless_violation (insert_balance b) (act_ret False) (act_ret True) st = (r, st')"
    by (cases "unless_violation (insert_balance b) (act_ret False) (act_ret True) st")
  from this have "accounts_ok agrees B (tables st')"
  proof (cases rule: unless_violation_cases)
    case (inserted a st1)
    then have none: "money_balances (tables st) (mb_identity b) = None"
      and t: "tables st' = (tables st)\<lparr>money_balances := (money_balances (tables st))(mb_identity b \<mapsto> b)\<rparr>"
      by (auto simp: insert_balance_def act_ret_def split: if_splits)
    have "entries_of (mb_identity b) (tables st) = []"
      using assms(1) none by (metis accounts_ok_def ledger_ok_def member_ok.simps(1))
    with assms True initial show ?thesis
      unfolding accounts_ok_def ledger_ok_def t by (auto simp: entries_of_def audit_ok_def ran_def)
  qed (use assms(1) in \<open>auto simp: act_ret_def\<close>)
  with True run show ?thesis by (simp add: initialize_money_balance_def)
qed (simp add: assms(1) initialize_money_balance_def act_ret_def)

lemma accounts_ok_write:
  assumes ok: "accounts_ok agrees B (tables st)" and "n \<in> B" and "genuine e"
  shows "accounts_ok agrees B (tables (snd (write_money_entry_with_audit json_object x n e s h ev st)))"
proof (cases "valid_money_transition json_object x n e")
  case True
  let ?body = "act_bind (query (\<lambda>db. money_balances db (mb_identity x))) (\<lambda>current.
          if current \<noteq> Some x then act_ret (Rollback (Mutation Conflict))
          else post_entry (Mutation DuplicateReference) (Mutation Conflict) x n e (finish_with_audit s h [ev] Applied))"
  obtain r st' where run: "transaction ?body st = (r, st')" by (cases "transaction ?body st")
  from this have "accounts_ok agrees B (tables st')"
  proof (cases rule: transaction_cases)
    case kept
    with ok show ?thesis by simp
  next
    case (committed v st1 st2)
    then obtain st3 where "money_balances (tables st) (mb_identity x) = Some x" "tables st3 = tables st"
      and post: "post_entry (Mutation DuplicateReference) (Mutation Conflict) x n e (finish_with_audit s h [ev] Applied) st3
        = (Inr (Commit v), st2)"
      by (auto simp: bind_Inr pure_Inr dest!: query_Inr split: if_splits)
    with accounts_ok_post [OF post _ True \<open>n \<in> B\<close> \<open>genuine e\<close>] ok obtain st4 where "accounts_ok agrees B (tables st4)"
        "finish_with_audit s h [ev] Applied st4 = (Inr (Commit v), st2)" by auto
    with committed(4) accounts_ok_finish show ?thesis by metis
  qed
  with True run show ?thesis by (simp add: write_money_entry_with_audit_def)
qed (simp add: ok write_money_entry_with_audit_def act_ret_def)

lemma accounts_ok_insert_request:
  assumes ok: "accounts_ok agrees B (tables st)"
  shows "accounts_ok agrees B (tables (snd (insert_quota_request q st)))"
    and "accounts_ok agrees B (tables (snd (insert_quota_request_and_audit q s h ev st)))"
proof -
  obtain r st' where "insert_quota_request q st = (r, st')" by (cases "insert_quota_request q st")
  moreover from this have "accounts_ok agrees B (tables st')"
    unfolding insert_quota_request_def
    by (cases rule: unless_violation_cases)
       (auto simp: act_ret_def ok dest: accounts_ok_request(1) [OF ok])
  ultimately show "accounts_ok agrees B (tables (snd (insert_quota_request q st)))" by simp
next
  let ?body = "unless_violation (insert_request q) (act_ret (Rollback (Mutation PendingExists)))
         (finish_with_audit s h [ev] Inserted)"
  obtain r st' where run: "transaction ?body st = (r, st')" by (cases "transaction ?body st")
  from this have "accounts_ok agrees B (tables st')"
  proof (cases rule: transaction_cases)
    case (committed v st1 st2)
    from committed(3) show ?thesis
    proof (cases rule: unless_violation_cases)
      case (inserted a st3)
      then have "accounts_ok agrees B (tables st3)" using accounts_ok_request(1) [OF ok] committed(2) by metis
      with inserted(2) committed(4) accounts_ok_finish show ?thesis by metis
    qed (simp_all add: act_ret_def)
  qed (simp add: ok)
  with run show "accounts_ok agrees B (tables (snd (insert_quota_request_and_audit q s h ev st)))"
    by (simp add: insert_quota_request_and_audit_def)
qed

lemma accounts_ok_review_inner:
  assumes ok: "accounts_ok agrees B (tables st)" and mac: "mac_binds B"
    and g: "\<And>x n e. g = Some (x, n, e) \<Longrightarrow> x \<in> B \<and> n \<in> B \<and> genuine e"
  shows "accounts_ok agrees B (tables (snd (review_quota_request_inner json_object q status remark reviewer at_time hmac g audit st)))"
proof -
  let ?review = "review_body q status remark reviewer at_time hmac audit"
  let ?body = "act_bind (query (request_row (qr_id q))) (\<lambda>current.
          if current \<noteq> Some q then act_ret (Rollback (Mutation ReviewConflict))
          else case g of None \<Rightarrow> ?review
               | Some (x, n, e) \<Rightarrow> post_entry (Mutation ReviewConflict) (Mutation ReviewConflict) x n e ?review)"
  obtain r st' where run: "transaction ?body st = (r, st')" by (cases "transaction ?body st")
  have "accounts_ok agrees B (tables st')"
    if valid: "\<And>x n e. g = Some (x, n, e) \<Longrightarrow> valid_money_transition json_object x n e"
    using run
  proof (cases rule: transaction_cases)
    case (committed v st1 st2)
    then obtain st3 where t: "tables st3 = tables st" and k: "(case g of None \<Rightarrow> ?review
        | Some (x, n, e) \<Rightarrow> post_entry (Mutation ReviewConflict) (Mutation ReviewConflict) x n e ?review) st3
          = (Inr (Commit v), st2)"
      by (auto simp: bind_Inr pure_Inr dest!: query_Inr split: if_splits)
    have ok3: "accounts_ok agrees B (tables st3)" using ok t by simp
    have "\<exists>st4. accounts_ok agrees B (tables st4) \<and> ?review st4 = (Inr (Commit v), st2)"
    proof (cases g)
      case (Some xne)
      obtain x n e where xne: "xne = (x, n, e)" by (cases xne)
      have same: "b = x" if "money_balances (tables st3) (mb_identity x) = Some b" "mb_hmac b = mb_hmac x" for b
      proof -
        have "b \<in> B" using ok3 that(1) by (auto simp: accounts_ok_def ran_def)
        with g [of x n e] Some xne mac that(2) show ?thesis by (auto simp: mac_binds_def dest: inj_onD)
      qed
      show ?thesis
        by (rule accounts_ok_post [OF _ ok3 valid [of x n e] _ _ same]) (use Some xne k g in auto)
    qed (use ok3 k in auto)
    then show ?thesis using committed(4) accounts_ok_review by metis
  qed (simp add: ok)
  with run ok show ?thesis
    by (auto simp: review_quota_request_inner_def act_ret_def is_some_and_iff)
qed

lemma accounts_ok_step:
  assumes ok: "accounts_ok agrees B (tables st)" and "mac_binds B" and "balances_in c \<subseteq> B"
    and "Ball (entries_in c) genuine"
  shows "accounts_ok agrees B (tables (run_money_op json_object c st))"
proof (cases c)
  case (InsertRequest q a)
  then show ?thesis using accounts_ok_insert_request [OF ok] by (cases a) auto
next
  case (ReviewRequest q status remark reviewer at_time hmac g a)
  have inner: "accounts_ok agrees B (tables (snd (review_quota_request_inner json_object q status remark reviewer at_time hmac g audit st)))"
    for audit
    using assms ReviewRequest by (intro accounts_ok_review_inner) auto
  with ReviewRequest show ?thesis
    by (cases a) (auto simp: review_quota_request_and_audit_def review_state)
qed (use assms accounts_ok_init accounts_ok_write in auto)

lemma money_history_ok:
  assumes "accounts_ok agrees B (tables st)" "mac_binds B" "(\<Union>c\<in>set cs. balances_in c) \<subseteq> B"
    and "\<forall>c\<in>set cs. Ball (entries_in c) genuine"
  shows "accounts_ok agrees B (tables (fold (run_money_op json_object) cs st))"
  using assms by (induction cs arbitrary: st) (simp_all add: accounts_ok_step)

end

interpretation reconciled: ledger_invariant json_object reconciles "\<lambda>_. True" for json_object
  by unfold_locales (simp_all add: transition_reconciles, simp add: reconciles_def valid_initial_money_balance_def)

text \<open>The outcome of a write, committed or not.\<close>

lemma money_write_outcome:
  "case write_money_entry_with_audit json_object x n e s h ev st of
     (r, st') \<Rightarrow>
       if r = Inr (Mutation Applied)
       then valid_money_transition json_object x n e \<and> money_balances (tables st) (mb_identity x) = Some x
         \<and> ledger_constraints (tables st) e \<and> tail_position (audit_events (tables st)) = (s, h)
         \<and> (\<exists>gates. tables st' = (tables st)\<lparr>money_ledger := money_ledger (tables st) @ [e],
               money_balances := (money_balances (tables st))(mb_identity x \<mapsto> n),
               transaction_gates := gates, audit_events := audit_events (tables st) @ [ev]\<rparr>)
       else tables st' = tables st"
proof (cases "valid_money_transition json_object x n e")
  case True
  let ?body = "act_bind (query (\<lambda>db. money_balances db (mb_identity x))) (\<lambda>current.
          if current \<noteq> Some x then act_ret (Rollback (Mutation Conflict))
          else post_entry (Mutation DuplicateReference) (Mutation Conflict) x n e (finish_with_audit s h [ev] Applied))"
  obtain r st' where run: "transaction ?body st = (r, st')" by (cases "transaction ?body st")
  have w: "write_money_entry_with_audit json_object x n e s h ev st = (r, st')"
    using True run by (simp add: write_money_entry_with_audit_def)
  from run show ?thesis
  proof (cases rule: transaction_cases)
    case kept
    have "r \<noteq> Inr (Mutation Applied)"
    proof
      assume "r = Inr (Mutation Applied)"
      from kept(2) [OF this] show False
        by (auto simp: bind_Inr pure_Inr post_entry_def finish_with_audit_def split: if_splits
            elim!: unless_violation_cases)
    qed
    with kept(1) w show ?thesis by simp
  next
    case (committed v st1 st2)
    then obtain st3 where cur: "money_balances (tables st) (mb_identity x) = Some x" "tables st3 = tables st"
      and post: "post_entry (Mutation DuplicateReference) (Mutation Conflict) x n e (finish_with_audit s h [ev] Applied) st3
        = (Inr (Commit v), st2)"
      by (auto simp: bind_Inr pure_Inr dest!: query_Inr split: if_splits)
    from post obtain b st4 where p: "money_balances (tables st3) (mb_identity x) = Some b" "ledger_constraints (tables st3) e"
      "tables st4 = (tables st3)\<lparr>money_ledger := money_ledger (tables st3) @ [e],
         money_balances := (money_balances (tables st3))(mb_identity x \<mapsto> balance_after b n)\<rparr>"
      "finish_with_audit s h [ev] Applied st4 = (Inr (Commit v), st2)"
      by (rule post_entry_commit)
    then have "v = Mutation Applied" and app: "append_audit_events s h [ev] st4 = (Inr True, st2)"
      by (simp_all add: finish_commit)
    with wpD [OF append_audit_wp app] p cur committed(1,4) w True update_is_next [OF True]
    show ?thesis by auto
  qed
qed (simp add: write_money_entry_with_audit_def act_ret_def)

section \<open>Growth of the ledger\<close>

text \<open>Entries are never changed or removed, and a reference stays unique for its member.\<close>

definition refs_distinct :: "database \<Rightarrow> bool" where
  "refs_distinct db \<longleftrightarrow> distinct (map (\<lambda>e. (ml_identity e, reference_id e)) (money_ledger db))"

definition ledger_grows :: "database \<Rightarrow> database \<Rightarrow> bool" where
  "ledger_grows db db' \<longleftrightarrow> (\<exists>es. money_ledger db' = money_ledger db @ es) \<and> (refs_distinct db \<longrightarrow> refs_distinct db')"

lemma grows_same [simp]: "money_ledger db' = money_ledger db \<Longrightarrow> ledger_grows db db'"
  by (simp add: ledger_grows_def refs_distinct_def)

lemma grows_trans: "ledger_grows a b \<Longrightarrow> ledger_grows b c \<Longrightarrow> ledger_grows a c"
  by (auto simp: ledger_grows_def)

lemma grows_entry:
  "ledger_constraints db e \<Longrightarrow> money_ledger db' = money_ledger db @ [e] \<Longrightarrow> ledger_grows db db'"
  by (auto simp: ledger_grows_def refs_distinct_def ledger_constraints_def)

lemma append_audit_ledger:
  "append_audit_events s h events st = (Inr True, st') \<Longrightarrow> money_ledger (tables st') = money_ledger (tables st)"
  using wpD [OF append_audit_wp, of s h events st "Inr True" st'] by auto

lemma finish_ledger:
  "finish_with_audit s h events v st = (Inr (Commit x), st') \<Longrightarrow> money_ledger (tables st') = money_ledger (tables st)"
  by (auto simp: finish_commit dest: append_audit_ledger)

lemma request_ledger:
  "insert_balance b db = Inr (a, db') \<Longrightarrow> money_ledger db' = money_ledger db"
  "insert_request q db = Inr (a, db') \<Longrightarrow> money_ledger db' = money_ledger db"
  "update_request q status remark reviewer at_time hmac db = Inr (n, db') \<Longrightarrow> money_ledger db' = money_ledger db"
  by (auto simp: insert_balance_def insert_request_def update_request_def Let_def split: if_splits option.splits)

lemma review_ledger:
  assumes "review_body q status remark reviewer at_time hmac audit st = (Inr (Commit v), st')"
  shows "money_ledger (tables st') = money_ledger (tables st)"
proof -
  from assms obtain st1 where x: "execute (update_request q status remark reviewer at_time hmac) st = (Inr 1, st1)"
    and k: "(case audit of None \<Rightarrow> act_ret (Commit (Mutation ReviewApplied))
         | Some (s, h, events) \<Rightarrow> finish_with_audit s h events ReviewApplied) st1 = (Inr (Commit v), st')"
    by (auto simp: review_body_def bind_Inr pure_Inr split: if_splits)
  from k have "money_ledger (tables st') = money_ledger (tables st1)"
    by (auto simp: pure_Inr dest: finish_ledger split: option.splits)
  with request_ledger(3) [OF execute_Inr [OF x]] show ?thesis by simp
qed

lemma post_grows:
  assumes "post_entry d c x n e k st = (Inr (Commit v), st')"
    and "\<And>st1. k st1 = (Inr (Commit v), st') \<Longrightarrow> money_ledger (tables st') = money_ledger (tables st1)"
  shows "ledger_grows (tables st) (tables st')"
  using assms(1)
proof (rule post_entry_commit)
  fix b and st1 :: store
  assume "ledger_constraints (tables st) e" "k st1 = (Inr (Commit v), st')"
    and "tables st1 = (tables st)\<lparr>money_ledger := money_ledger (tables st) @ [e],
       money_balances := (money_balances (tables st))(mb_identity x \<mapsto> balance_after b n)\<rparr>"
  then show ?thesis using assms(2) [of st1] by (intro grows_entry) simp_all
qed

text \<open>A transaction makes the ledger grow when its committed body does.\<close>

lemma transaction_grows:
  assumes "\<And>st1 v st2. tables st1 = tables st \<Longrightarrow> body st1 = (Inr (Commit v), st2) \<Longrightarrow> ledger_grows (tables st) (tables st2)"
  shows "ledger_grows (tables st) (tables (snd (transaction body st)))"
proof (cases "transaction body st")
  case (Pair r st')
  then have "ledger_grows (tables st) (tables st')" by (cases rule: transaction_cases) (auto dest: assms)
  with Pair show ?thesis by simp
qed

lemma init_ledger: "money_ledger (tables (snd (initialize_money_balance b st))) = money_ledger (tables st)"
proof (cases "unless_violation (insert_balance b) (act_ret False) (act_ret True) st")
  case (Pair r st')
  then have "money_ledger (tables st') = money_ledger (tables st)"
    by (cases rule: unless_violation_cases) (auto simp: act_ret_def dest: request_ledger)
  with Pair show ?thesis by (simp add: initialize_money_balance_def act_ret_def)
qed

lemma insert_request_grows:
  "ledger_grows (tables st) (tables (snd (insert_quota_request q st)))"
  "ledger_grows (tables st) (tables (snd (insert_quota_request_and_audit q s h ev st)))"
proof -
  show "ledger_grows (tables st) (tables (snd (insert_quota_request q st)))"
  proof (cases "insert_quota_request q st")
    case (Pair r st')
    from this [unfolded insert_quota_request_def] have "money_ledger (tables st') = money_ledger (tables st)"
      by (cases rule: unless_violation_cases) (auto simp: act_ret_def dest: request_ledger)
    with Pair show ?thesis by simp
  qed
  show "ledger_grows (tables st) (tables (snd (insert_quota_request_and_audit q s h ev st)))"
    unfolding insert_quota_request_and_audit_def
    by (rule transaction_grows)
       (auto elim!: unless_violation_cases simp: pure_Inr act_ret_def dest!: finish_ledger request_ledger)
qed

lemma write_grows: "ledger_grows (tables st) (tables (snd (write_money_entry_with_audit json_object x n e s h ev st)))"
  using money_write_outcome [where json_object = json_object and x = x and n = n and e = e and s = s and h = h and ev = ev and st = st]
  by (auto simp: case_prod_beta split: if_splits intro: grows_entry)

lemma review_grows:
  "ledger_grows (tables st) (tables (snd (review_quota_request_inner json_object q status remark reviewer at_time hmac g audit st)))"
proof -
  let ?review = "review_body q status remark reviewer at_time hmac audit"
  have "ledger_grows (tables st1) (tables st2)"
    if "(case g of None \<Rightarrow> ?review
        | Some (x, n, e) \<Rightarrow> post_entry (Mutation ReviewConflict) (Mutation ReviewConflict) x n e ?review) st1
          = (Inr (Commit v), st2)" for st1 v st2
    using that by (auto dest: review_ledger intro: post_grows split: option.splits)
  then have "ledger_grows (tables st) (tables (snd (transaction (act_bind (query (request_row (qr_id q))) (\<lambda>current.
          if current \<noteq> Some q then act_ret (Rollback (Mutation ReviewConflict))
          else case g of None \<Rightarrow> ?review
               | Some (x, n, e) \<Rightarrow> post_entry (Mutation ReviewConflict) (Mutation ReviewConflict) x n e ?review)) st)))"
    by (intro transaction_grows) (fastforce simp: bind_Inr pure_Inr dest!: query_Inr split: if_splits)
  then show ?thesis by (auto simp: review_quota_request_inner_def act_ret_def)
qed

lemma run_money_op_grows: "ledger_grows (tables st) (tables (run_money_op json_object c st))"
proof (cases c)
  case (InsertRequest q a)
  then show ?thesis using insert_request_grows by (cases a) auto
next
  case (ReviewRequest q status remark reviewer at_time hmac g a)
  then show ?thesis
    using review_grows [of st json_object q status remark reviewer at_time hmac g] review_state
    by (cases a) (auto simp: review_quota_request_and_audit_def)
qed (auto simp: init_ledger write_grows)

lemma history_grows: "ledger_grows (tables st) (tables (fold (run_money_op json_object) cs st))"
  by (induction cs arbitrary: st) (auto intro: grows_trans run_money_op_grows)

section \<open>Properties\<close>

text \<open>A member with a grant of 2000 nanos and a charge of 3000.\<close>

definition sample_balance :: "int \<Rightarrow> int \<Rightarrow> int \<Rightarrow> string \<Rightarrow> string \<Rightarrow> MoneyBalanceRecord" where
  "sample_balance credit debit r ledger hmac =
     \<lparr>mb_identity = ''member'', mb_currency = ''USD'', balance_nanos = credit - debit, credited_nanos = credit,
      debited_nanos = debit, mb_revision = r, last_ledger_hmac = ledger, mb_hmac = hmac, mb_updated_at = ''now''\<rparr>"

definition sample_entry :: "string \<Rightarrow> string \<Rightarrow> int \<Rightarrow> int \<Rightarrow> string \<Rightarrow> string \<Rightarrow> MoneyLedgerEntry" where
  "sample_entry kind status amount r previous hmac =
     \<lparr>ml_id = hmac, ml_identity = ''member'', ml_currency = ''USD'', ml_kind = kind, amount_nanos = amount,
      balance_revision = r, reference_id = kind, billing_status = status, details_json = ''{}'',
      previous_entry_hmac = previous, ml_hmac = hmac, ml_created_at = ''now''\<rparr>"

definition sample_event :: "u64 \<Rightarrow> string \<Rightarrow> string \<Rightarrow> AuditEventRecord" where
  "sample_event n previous hmac =
     \<lparr>ae_id = hmac, ae_sequence = n, actor_identity_id = None, actor_role = ''system'', ae_action = ''money'',
      target_type = ''money_balance'', target_id = Some ''member'', ae_outcome = ''succeeded'',
      previous_event_hmac = previous, ae_hmac = hmac, ae_created_at = ''now''\<rparr>"

definition sample_money_history :: "money_op list" where
  "sample_money_history =
     [InitBalance (sample_balance 0 0 0 [] ''b0''),
      WriteEntry (sample_balance 0 0 0 [] ''b0'') (sample_balance 2000 0 1 ''e1'' ''b1'')
        (sample_entry ''grant'' ''not_applicable'' 2000 1 [] ''e1'') (0, [], sample_event 1 [] (replicate 43 (CHR ''A''))),
      WriteEntry (sample_balance 2000 0 1 ''e1'' ''b1'') (sample_balance 2000 3000 2 ''e2'' ''b2'')
        (sample_entry ''charge'' ''charged'' (- 3000) 2 ''e1'' ''e2'')
        (1, replicate 43 (CHR ''A''), sample_event 2 (replicate 43 (CHR ''A'')) (replicate 43 (CHR ''B'')))]"

lemma sample_money_mac: "mac_binds (\<Union>c\<in>set sample_money_history. balances_in c)"
  by (simp add: mac_binds_def sample_money_history_def sample_balance_def inj_on_def)

text \<open>
  C5: After any history of calls on a new installation, with any pattern of failing statements,
  every member's balance is the sum of the amounts of the member's ledger entries, the credited
  and debited totals are the sums of their positive and negative parts, the entries are numbered
  from one to the balance's revision and linked by their message codes up to the one the balance
  names, a member without a balance has no entry, no reference is posted twice for a member, and
  the audit log is one chain from its first event. It is assumed only that the message code of a
  balance identifies it among the records presented.
\<close>

theorem ledger_reconciles:
  assumes "mac_binds (\<Union>c\<in>set cs. balances_in c)"
    and "db = tables (fold (run_money_op json_object) cs \<lparr>tables = fresh_database ids, faults = fs\<rparr>)"
  shows "(\<forall>i. case money_balances db i of
            None \<Rightarrow> entries_of i db = []
          | Some b \<Rightarrow> mb_identity b = i \<and> reconciles b (entries_of i db))
    \<and> distinct (map (\<lambda>e. (ml_identity e, reference_id e)) (money_ledger db))
    \<and> audit_chain 0 [] (audit_events db)"
proof -
  let ?B = "\<Union>c\<in>set cs. balances_in c"
  have "accounts_ok reconciles ?B (fresh_database ids)"
    by (simp add: accounts_ok_def ledger_ok_fresh audit_ok_fresh) (simp add: fresh_database_def)
  then have ok: "accounts_ok reconciles ?B db" using reconciled.money_history_ok [OF _ assms(1)] assms(2) by simp
  have "case money_balances db i of None \<Rightarrow> entries_of i db = []
      | Some b \<Rightarrow> mb_identity b = i \<and> reconciles b (entries_of i db)" for i
  proof -
    have "member_ok reconciles i (money_balances db i) (entries_of i db)" using ok by (simp add: accounts_ok_def ledger_ok_def)
    then show ?thesis by (cases "money_balances db i") simp_all
  qed
  with ok show ?thesis by (simp add: accounts_ok_def ledger_ok_def audit_ok_def)
qed

theorem ledger_reconciles_witness:
  "let db = tables (fold (run_money_op (\<lambda>d. d = ''{}'')) sample_money_history
      \<lparr>tables = fresh_database [''member''], faults = []\<rparr>) in
   case money_balances db ''member'' of
     None \<Rightarrow> entries_of ''member'' db = []
   | Some b \<Rightarrow> mb_identity b = ''member'' \<and> reconciles b (entries_of ''member'' db)"
  using ledger_reconciles [OF sample_money_mac refl] unfolding Let_def by blast

text \<open>
  C36: Writing an entry is all or nothing, whatever statement fails. The reply \<open>Applied\<close> means
  that the stored balance was exactly the expected one, the transition was valid, and the entry,
  the new balance and one audit event were added and nothing else changed; after every other
  reply, and after every error, all tables are as before.
\<close>

theorem money_write_is_atomic:
  "case write_money_entry_with_audit json_object x n e s h ev st of
     (r, st') \<Rightarrow>
       if r = Inr (Mutation Applied)
       then valid_money_transition json_object x n e \<and> money_balances (tables st) (mb_identity x) = Some x
         \<and> ledger_constraints (tables st) e \<and> tail_position (audit_events (tables st)) = (s, h)
         \<and> (\<exists>gates. tables st' = (tables st)\<lparr>money_ledger := money_ledger (tables st) @ [e],
               money_balances := (money_balances (tables st))(mb_identity x \<mapsto> n),
               transaction_gates := gates, audit_events := audit_events (tables st) @ [ev]\<rparr>)
       else tables st' = tables st"
  by (rule money_write_outcome)

end
