(* ===== verification/Schedule.thy ===== *)
theory Schedule
  imports Prelude
begin

unbundle bit_operations_syntax

text \<open>
  Local-calendar price selection (\<open>policy-core/src/billing/schedule.rs\<close>): windows by date
  range, weekday mask and minute range that may continue past midnight, their pairwise overlap
  test over one week, schedule validation and the price at a local date and minute.

  \<open>Date\<close> belongs to the \<open>time\<close> crate. What the code calls of it is the record \<open>date_ops\<close>, an
  argument of the definitions; \<open>date_laws\<close> states the documented behaviour the results rely on.
  Julian days of representable dates stay within six decimal millions, so the code's \<open>i32\<close>
  arithmetic on them is arithmetic on integers.
\<close>

section \<open>Data\<close>

record 'd date_ops =
  date_less :: "'d \<Rightarrow> 'd \<Rightarrow> bool"
  previous_day :: "'d \<Rightarrow> 'd option"
  number_days_from_monday :: "'d \<Rightarrow> nat"
  to_julian_day :: "'d \<Rightarrow> int"
  date_2024_01_01 :: 'd

record ('d, 't) PriceWindow =
  start_date :: "'d option"
  end_date :: "'d option"
  weekdays :: u8
  start_minute :: u16
  end_minute :: u16
  window_price :: 't

record ('d, 't) PriceSchedule =
  base_price :: 't
  windows :: "('d, 't) PriceWindow list"

datatype ScheduleError = InvalidWindow | OverlappingWindows | InvalidMinute

record Segment =
  day_offset :: int
  seg_start :: u16
  seg_end :: u16

section \<open>Windows\<close>

definition PriceWindow_validate ::
    "'d date_ops \<Rightarrow> ('d, 't) PriceWindow \<Rightarrow> (ScheduleError, unit) result" where
  "PriceWindow_validate D w =
     (if weekdays w = 0
        \<or> weekdays w AND NOT 0x7f \<noteq> 0
        \<or> 1440 \<le> start_minute w
        \<or> 1440 < end_minute w
        \<or> start_minute w = end_minute w
        \<or> is_some_and (opt_zip (start_date w) (end_date w)) (\<lambda>(start, finish). \<not> date_less D start finish)
      then Inl InvalidWindow else Inr ())"

definition weekday_in :: "u8 \<Rightarrow> nat \<Rightarrow> bool" where
  "weekday_in days n \<longleftrightarrow> days AND push_bit n 1 \<noteq> 0"

definition PriceWindow_matches ::
    "'d date_ops \<Rightarrow> ('d, 't) PriceWindow \<Rightarrow> 'd \<Rightarrow> u16 \<Rightarrow> bool" where
  "PriceWindow_matches D w date minute =
     (let crosses_midnight = end_minute w < start_minute w;
          origin = (if crosses_midnight \<and> minute < end_minute w then previous_day D date
                    else if start_minute w \<le> minute \<and> (crosses_midnight \<or> minute < end_minute w)
                    then Some date else None)
      in case origin of
           None \<Rightarrow> False
         | Some d \<Rightarrow> is_none_or (start_date w) (\<lambda>start. \<not> date_less D d start)
             \<and> is_none_or (end_date w) (\<lambda>finish. date_less D d finish)
             \<and> weekday_in (weekdays w) (number_days_from_monday D d))"

definition PriceWindow_segments :: "('d, 't) PriceWindow \<Rightarrow> Segment option list" where
  "PriceWindow_segments w =
     (if start_minute w < end_minute w
      then [Some \<lparr>day_offset = 0, seg_start = start_minute w, seg_end = end_minute w\<rparr>, None]
      else [Some \<lparr>day_offset = 0, seg_start = start_minute w, seg_end = 1440\<rparr>,
            then_some (0 < end_minute w) \<lparr>day_offset = 1, seg_start = 0, seg_end = end_minute w\<rparr>])"

definition flatten_segments :: "Segment option list \<Rightarrow> Segment list" where
  "flatten_segments xs = List.map_filter id xs"

definition weekday_for_julian :: "'d date_ops \<Rightarrow> int \<Rightarrow> nat" where
  "weekday_for_julian D day = nat ((day - to_julian_day D (date_2024_01_01 D)) mod 7)"

fun max_bound :: "int option \<Rightarrow> int option \<Rightarrow> int option" where
  "max_bound (Some a) (Some b) = Some (max a b)"
| "max_bound None b = b"
| "max_bound a None = a"

fun min_bound :: "int option \<Rightarrow> int option \<Rightarrow> int option" where
  "min_bound (Some a) (Some b) = Some (min a b)"
| "min_bound None b = b"
| "min_bound a None = a"

text \<open>The loop over the days of the anchor week: it breaks at the upper bound and returns on a hit.\<close>

fun scan_days :: "int option \<Rightarrow> (int \<Rightarrow> bool) \<Rightarrow> int list \<Rightarrow> bool" where
  "scan_days upper hit [] = False"
| "scan_days upper hit (day # days) =
     (if is_some_and upper (\<lambda>u. u \<le> day) then False
      else if hit day then True else scan_days upper hit days)"

definition shifted_bound :: "'d date_ops \<Rightarrow> 'd option \<Rightarrow> int \<Rightarrow> int option" where
  "shifted_bound D d off = map_option (\<lambda>date. to_julian_day D date + off) d"

definition segments_overlap ::
    "'d date_ops \<Rightarrow> ('d, 't) PriceWindow \<Rightarrow> ('d, 't) PriceWindow \<Rightarrow> Segment \<Rightarrow> Segment \<Rightarrow> bool" where
  "segments_overlap D first second a b =
     (if min (seg_end a) (seg_end b) \<le> max (seg_start a) (seg_start b) then False
      else
        let lower = max_bound (shifted_bound D (start_date first) (day_offset a))
                              (shifted_bound D (start_date second) (day_offset b));
            upper = min_bound (shifted_bound D (end_date first) (day_offset a))
                              (shifted_bound D (end_date second) (day_offset b))
        in if is_some_and (opt_zip lower upper) (\<lambda>(start, finish). finish \<le> start) then False
           else
             let anchor = (case lower of Some l \<Rightarrow> l
                           | None \<Rightarrow> (case upper of None \<Rightarrow> to_julian_day D (date_2024_01_01 D)
                                      | Some finish \<Rightarrow> finish - 7))
             in scan_days upper
                  (\<lambda>day. weekday_in (weekdays first) (weekday_for_julian D (day - day_offset a))
                       \<and> weekday_in (weekdays second) (weekday_for_julian D (day - day_offset b)))
                  [anchor..anchor + 7 - 1])"

definition windows_overlap ::
    "'d date_ops \<Rightarrow> ('d, 't) PriceWindow \<Rightarrow> ('d, 't) PriceWindow \<Rightarrow> bool" where
  "windows_overlap D first second =
     list_ex (\<lambda>a. list_ex (\<lambda>b. segments_overlap D first second a b)
                (flatten_segments (PriceWindow_segments second)))
       (flatten_segments (PriceWindow_segments first))"

section \<open>Schedules\<close>

fun check_pairs :: "'d date_ops \<Rightarrow> ('d, 't) PriceWindow list \<Rightarrow> (ScheduleError, unit) result" where
  "check_pairs D [] = Inr ()"
| "check_pairs D (first # rest) =
     (if list_ex (windows_overlap D first) rest then Inl OverlappingWindows else check_pairs D rest)"

definition PriceSchedule_validate ::
    "'d date_ops \<Rightarrow> ('d, 't) PriceSchedule \<Rightarrow> (ScheduleError, unit) result" where
  "PriceSchedule_validate D s =
     and_then (check_all (PriceWindow_validate D) (windows s)) (\<lambda>_. check_pairs D (windows s))"

fun select_window ::
    "'d date_ops \<Rightarrow> 'd \<Rightarrow> u16 \<Rightarrow> 't option \<Rightarrow> ('d, 't) PriceWindow list
      \<Rightarrow> (ScheduleError, 't option) result" where
  "select_window D date minute selected [] = Inr selected"
| "select_window D date minute selected (w # ws) =
     (if PriceWindow_matches D w date minute
      then (if selected \<noteq> None then Inl OverlappingWindows
            else select_window D date minute (Some (window_price w)) ws)
      else select_window D date minute selected ws)"

definition PriceSchedule_price_at ::
    "'d date_ops \<Rightarrow> ('d, 't) PriceSchedule \<Rightarrow> 'd \<Rightarrow> u16 \<Rightarrow> (ScheduleError, 't) result" where
  "PriceSchedule_price_at D s local_date local_minute =
     (if 1440 \<le> local_minute then Inl InvalidMinute
      else and_then (select_window D local_date local_minute None (windows s))
             (\<lambda>selected. Inr (case selected of None \<Rightarrow> base_price s | Some p \<Rightarrow> p)))"

section \<open>What the calendar promises\<close>

text \<open>
  Dates are ordered like their Julian days, the previous day is one Julian day earlier, and
  2024-01-01 is a Monday.
\<close>

definition date_laws :: "'d date_ops \<Rightarrow> bool" where
  "date_laws D \<longleftrightarrow>
     (\<forall>a b. date_less D a b \<longleftrightarrow> to_julian_day D a < to_julian_day D b)
   \<and> (\<forall>a b. previous_day D a = Some b \<longrightarrow> to_julian_day D b = to_julian_day D a - 1)
   \<and> (\<forall>a. int (number_days_from_monday D a) =
          (to_julian_day D a - to_julian_day D (date_2024_01_01 D)) mod 7)"

text \<open>
  The meaning of a window on an unbounded calendar of Julian days: it covers a minute of a day
  when one of its segments does, counted from the day the window started.
\<close>

definition seg_covers ::
    "'d date_ops \<Rightarrow> ('d, 't) PriceWindow \<Rightarrow> Segment \<Rightarrow> int \<Rightarrow> u16 \<Rightarrow> bool" where
  "seg_covers D w g day minute \<longleftrightarrow> seg_start g \<le> minute \<and> minute < seg_end g
     \<and> is_none_or (start_date w) (\<lambda>s. to_julian_day D s \<le> day - day_offset g)
     \<and> is_none_or (end_date w) (\<lambda>e. day - day_offset g < to_julian_day D e)
     \<and> weekday_in (weekdays w) (weekday_for_julian D (day - day_offset g))"

definition window_covers :: "'d date_ops \<Rightarrow> ('d, 't) PriceWindow \<Rightarrow> int \<Rightarrow> u16 \<Rightarrow> bool" where
  "window_covers D w day minute \<longleftrightarrow>
     (\<exists>g\<in>set (flatten_segments (PriceWindow_segments w)). seg_covers D w g day minute)"

section \<open>The overlap test is exact\<close>

lemma scan_days_iff:
  assumes "sorted days"
  shows "scan_days upper hit days \<longleftrightarrow>
    (\<exists>d\<in>set days. hit d \<and> is_none_or upper (\<lambda>u. d < u))"
  using assms
proof (induction days)
  case (Cons d ds)
  then have later: "\<forall>x\<in>set ds. d \<le> x" and
      ih: "scan_days upper hit ds \<longleftrightarrow> (\<exists>d\<in>set ds. hit d \<and> is_none_or upper (\<lambda>u. d < u))"
    by simp_all
  show ?case
  proof (cases "is_some_and upper (\<lambda>u. u \<le> d)")
    case True
    then obtain u where "upper = Some u" "u \<le> d" by (auto simp: is_some_and_iff)
    with later show ?thesis by fastforce
  next
    case False
    then have "is_none_or upper (\<lambda>u. d < u)" by (cases upper) auto
    with False ih show ?thesis by auto
  qed
qed simp

lemma weekday_for_julian_cong:
  "x mod 7 = y mod 7 \<Longrightarrow> weekday_for_julian D x = weekday_for_julian D y"
  unfolding weekday_for_julian_def by (metis mod_diff_left_eq)

lemma max_bound_le: "is_none_or (max_bound a b) (\<lambda>l. l \<le> x)
    \<longleftrightarrow> is_none_or a (\<lambda>l. l \<le> x) \<and> is_none_or b (\<lambda>l. l \<le> x)"
  by (cases a; cases b) auto

lemma min_bound_gt: "is_none_or (min_bound a b) (\<lambda>u. x < u)
    \<longleftrightarrow> is_none_or a (\<lambda>u. x < u) \<and> is_none_or b (\<lambda>u. x < u)"
  by (cases a; cases b) auto

lemma shifted_le: "is_none_or (shifted_bound D d off) (\<lambda>l. l \<le> x)
    \<longleftrightarrow> is_none_or d (\<lambda>s. to_julian_day D s \<le> x - off)"
  by (cases d) (auto simp: shifted_bound_def)

lemma shifted_gt: "is_none_or (shifted_bound D d off) (\<lambda>u. x < u)
    \<longleftrightarrow> is_none_or d (\<lambda>e. x - off < to_julian_day D e)"
  by (cases d) (auto simp: shifted_bound_def)

text \<open>One week after the anchor holds a representative of every admissible day.\<close>

lemma week_representative:
  fixes lower upper :: "int option" and monday x :: int
  assumes "is_none_or lower (\<lambda>l. l \<le> x)" and "is_none_or upper (\<lambda>u. x < u)"
  defines "anchor \<equiv> (case lower of Some l \<Rightarrow> l
     | None \<Rightarrow> (case upper of None \<Rightarrow> monday | Some finish \<Rightarrow> finish - 7))"
  obtains y where "y \<in> {anchor..anchor + 7 - 1}" and "y mod 7 = x mod 7"
    and "is_none_or lower (\<lambda>l. l \<le> y)" and "is_none_or upper (\<lambda>u. y < u)"
proof
  let ?r = "(x - anchor) mod 7"
  have r: "0 \<le> ?r" "?r < 7" by simp_all
  show "anchor + ?r \<in> {anchor..anchor + 7 - 1}" using r by auto
  show "(anchor + ?r) mod 7 = x mod 7" by (simp add: mod_add_right_eq)
  show "is_none_or lower (\<lambda>l. l \<le> anchor + ?r)" using r by (cases lower) (auto simp: anchor_def)
  show "is_none_or upper (\<lambda>u. anchor + ?r < u)"
  proof (cases lower)
    case (Some l)
    then have "?r \<le> x - anchor" using assms(1) zmod_le_nonneg_dividend [of "x - anchor" 7]
      by (simp add: anchor_def)
    with assms(2) show ?thesis by (cases upper) auto
  next
    case None
    then show ?thesis using r by (cases upper) (auto simp: anchor_def)
  qed
qed

lemma segments_overlap_iff:
  "segments_overlap D w v a b \<longleftrightarrow>
     (\<exists>day minute. seg_covers D w a day minute \<and> seg_covers D v b day minute)"
proof -
  let ?lower = "max_bound (shifted_bound D (start_date w) (day_offset a))
                          (shifted_bound D (start_date v) (day_offset b))"
  let ?upper = "min_bound (shifted_bound D (end_date w) (day_offset a))
                          (shifted_bound D (end_date v) (day_offset b))"
  let ?hit = "\<lambda>day. weekday_in (weekdays w) (weekday_for_julian D (day - day_offset a))
                 \<and> weekday_in (weekdays v) (weekday_for_julian D (day - day_offset b))"
  let ?anchor = "case ?lower of Some l \<Rightarrow> l
     | None \<Rightarrow> (case ?upper of None \<Rightarrow> to_julian_day D (date_2024_01_01 D) | Some finish \<Rightarrow> finish - 7)"
  define inside where "inside x \<longleftrightarrow> is_none_or ?lower (\<lambda>l. l \<le> x) \<and> is_none_or ?upper (\<lambda>u. x < u)"
    for x
  have covers: "seg_covers D w a day m \<and> seg_covers D v b day m \<longleftrightarrow>
      max (seg_start a) (seg_start b) \<le> m \<and> m < min (seg_end a) (seg_end b) \<and> inside day \<and> ?hit day"
    for day m
    by (auto simp: seg_covers_def inside_def max_bound_le min_bound_gt shifted_le shifted_gt)
  have minutes: "(\<exists>m. max (seg_start a) (seg_start b) \<le> m \<and> m < min (seg_end a) (seg_end b)) \<longleftrightarrow>
      \<not> min (seg_end a) (seg_end b) \<le> max (seg_start a) (seg_start b)"
    using le_less_trans not_le by blast
  have hit: "?hit y = ?hit x" if "y mod 7 = x mod 7" for x y
    using that by (metis (no_types, lifting) mod_diff_left_eq weekday_for_julian_cong)
  have days: "(\<exists>x. inside x \<and> ?hit x) \<longleftrightarrow> (\<exists>y\<in>{?anchor..?anchor + 7 - 1}. ?hit y \<and> is_none_or ?upper (\<lambda>u. y < u))"
  proof
    assume "\<exists>x. inside x \<and> ?hit x"
    then obtain x where x: "inside x" "?hit x" by blast
    then obtain y where "y \<in> {?anchor..?anchor + 7 - 1}" "y mod 7 = x mod 7" "is_none_or ?upper (\<lambda>u. y < u)"
      using week_representative [of ?lower x ?upper] unfolding inside_def by blast
    with x(2) hit show "\<exists>y\<in>{?anchor..?anchor + 7 - 1}. ?hit y \<and> is_none_or ?upper (\<lambda>u. y < u)" by blast
  next
    assume "\<exists>y\<in>{?anchor..?anchor + 7 - 1}. ?hit y \<and> is_none_or ?upper (\<lambda>u. y < u)"
    then obtain y where y: "y \<in> {?anchor..?anchor + 7 - 1}" "?hit y" "is_none_or ?upper (\<lambda>u. y < u)" by blast
    then have "inside y" by (cases ?lower) (auto simp: inside_def)
    with y(2) show "\<exists>x. inside x \<and> ?hit x" by blast
  qed
  have empty: "\<not> inside x" if "is_some_and (opt_zip ?lower ?upper) (\<lambda>(start, finish). finish \<le> start)" for x
    using that by (cases ?lower; cases ?upper) (auto simp: inside_def)
  show ?thesis
    unfolding covers segments_overlap_def Let_def
    using minutes days empty by (auto simp: scan_days_iff)
qed

lemma overlap_iff_covers:
  "windows_overlap D w v \<longleftrightarrow> (\<exists>day minute. window_covers D w day minute \<and> window_covers D v day minute)"
  unfolding windows_overlap_def window_covers_def list_ex_iff segments_overlap_iff by blast

lemma windows_overlap_sym: "windows_overlap D w v \<longleftrightarrow> windows_overlap D v w"
  by (auto simp: overlap_iff_covers)

section \<open>Matching a date is covering its Julian day\<close>

lemma set_segments:
  "set (flatten_segments (PriceWindow_segments w)) =
     (if start_minute w < end_minute w
      then {\<lparr>day_offset = 0, seg_start = start_minute w, seg_end = end_minute w\<rparr>}
      else {\<lparr>day_offset = 0, seg_start = start_minute w, seg_end = 1440\<rparr>} \<union>
           (if 0 < end_minute w then {\<lparr>day_offset = 1, seg_start = 0, seg_end = end_minute w\<rparr>} else {}))"
  by (auto simp: flatten_segments_def PriceWindow_segments_def then_some_def List.map_filter_def
      image_def)

lemma date_lawsD:
  assumes "date_laws D"
  shows "date_less D a b \<longleftrightarrow> to_julian_day D a < to_julian_day D b"
    and "previous_day D a = Some b \<Longrightarrow> to_julian_day D b = to_julian_day D a - 1"
    and "number_days_from_monday D a = weekday_for_julian D (to_julian_day D a)"
proof -
  show "date_less D a b \<longleftrightarrow> to_julian_day D a < to_julian_day D b"
    and "previous_day D a = Some b \<Longrightarrow> to_julian_day D b = to_julian_day D a - 1"
    using assms by (simp_all add: date_laws_def)
  have "int (number_days_from_monday D a) =
      (to_julian_day D a - to_julian_day D (date_2024_01_01 D)) mod 7"
    using assms by (simp add: date_laws_def)
  then show "number_days_from_monday D a = weekday_for_julian D (to_julian_day D a)"
    unfolding weekday_for_julian_def by (metis nat_int)
qed

text \<open>The date and weekday part of a match, on the day the window started.\<close>

definition starts_on :: "'d date_ops \<Rightarrow> ('d, 't) PriceWindow \<Rightarrow> int \<Rightarrow> bool" where
  "starts_on D w day \<longleftrightarrow> is_none_or (start_date w) (\<lambda>s. to_julian_day D s \<le> day)
     \<and> is_none_or (end_date w) (\<lambda>e. day < to_julian_day D e)
     \<and> weekday_in (weekdays w) (weekday_for_julian D day)"

lemma matches_eq:
  assumes "date_laws D"
  shows "PriceWindow_matches D w d m \<longleftrightarrow>
     (if end_minute w < start_minute w \<and> m < end_minute w
      then previous_day D d \<noteq> None \<and> starts_on D w (to_julian_day D d - 1)
      else start_minute w \<le> m \<and> (end_minute w < start_minute w \<or> m < end_minute w)
        \<and> starts_on D w (to_julian_day D d))"
proof -
  have less: "date_less D = (\<lambda>a b. to_julian_day D a < to_julian_day D b)"
    by (intro ext) (rule date_lawsD(1) [OF assms])
  show ?thesis
    using date_lawsD(2) [OF assms, of d]
    by (cases "previous_day D d")
       (auto simp: PriceWindow_matches_def Let_def starts_on_def less date_lawsD(3) [OF assms] not_less)
qed

lemma covers_eq:
  "window_covers D w day m \<longleftrightarrow>
     (if start_minute w < end_minute w
      then start_minute w \<le> m \<and> m < end_minute w \<and> starts_on D w day
      else (start_minute w \<le> m \<and> m < 1440 \<and> starts_on D w day)
         \<or> (m < end_minute w \<and> starts_on D w (day - 1)))"
proof -
  have "m < end_minute w \<Longrightarrow> 0 < end_minute w" by (rule le_less_trans [OF word_zero_le])
  then show ?thesis
    by (auto simp: window_covers_def set_segments seg_covers_def starts_on_def)
qed

lemma matches_covers:
  assumes "date_laws D" and "m < 1440" and "PriceWindow_matches D w d m"
  shows "window_covers D w (to_julian_day D d) m"
  using assms(2,3) unfolding matches_eq [OF assms(1)] covers_eq by (auto split: if_splits)

lemma validate_windowD:
  "PriceWindow_validate D w = Inr () \<Longrightarrow> start_minute w \<noteq> end_minute w"
  by (auto simp: PriceWindow_validate_def split: if_splits)

section \<open>A valid schedule has one price at every minute\<close>

lemma check_pairs_ok_iff:
  "check_pairs D ws = Inr () \<longleftrightarrow> sorted_wrt (\<lambda>w v. \<not> windows_overlap D w v) ws"
  by (induction ws) (auto simp: list_ex_iff)

lemma select_window_filter:
  "select_window D d m sel ws =
     (case (sel, filter (\<lambda>w. PriceWindow_matches D w d m) ws) of
        (_, []) \<Rightarrow> Inr sel
      | (None, [w]) \<Rightarrow> Inr (Some (window_price w))
      | _ \<Rightarrow> Inl OverlappingWindows)"
  by (induction ws arbitrary: sel) (auto split: option.splits list.splits)

lemma at_most_one_match:
  assumes "date_laws D" and "m < 1440" and "check_pairs D ws = Inr ()"
  shows "length (filter (\<lambda>w. PriceWindow_matches D w d m) ws) \<le> 1"
  using assms(3)
proof (induction ws)
  case (Cons w ws)
  then have none: "\<not> windows_overlap D w v" if "v \<in> set ws" for v
    using that by (auto simp: list_ex_iff split: if_splits)
  have rest: "check_pairs D ws = Inr ()" using Cons.prems by (auto split: if_splits)
  show ?case
  proof (cases "PriceWindow_matches D w d m")
    case True
    have "\<not> PriceWindow_matches D v d m" if "v \<in> set ws" for v
      using none [OF that] True matches_covers [OF assms(1,2)] by (auto simp: overlap_iff_covers)
    then show ?thesis by (simp add: filter_empty_conv [THEN iffD2])
  next
    case False
    with Cons.IH [OF rest] show ?thesis by simp
  qed
qed simp

lemma valid_hits:
  assumes "date_laws D" and "PriceSchedule_validate D s = Inr ()" and "m < 1440"
  shows "length (filter (\<lambda>w. PriceWindow_matches D w d m) (windows s)) \<le> 1"
proof (rule at_most_one_match [OF assms(1,3)])
  show "check_pairs D (windows s) = Inr ()"
    using assms(2) by (auto simp: PriceSchedule_validate_def result_simps)
qed

lemma valid_price_at:
  assumes "date_laws D" and "PriceSchedule_validate D s = Inr ()"
  shows "PriceSchedule_price_at D s date minute = Inr p \<longleftrightarrow> minute < 1440 \<and>
    p = (case filter (\<lambda>w. PriceWindow_matches D w date minute) (windows s) of
           [] \<Rightarrow> base_price s | w # _ \<Rightarrow> window_price w)"
proof (cases "minute < 1440")
  case True
  let ?hits = "filter (\<lambda>w. PriceWindow_matches D w date minute) (windows s)"
  have "length ?hits \<le> 1" by (rule valid_hits [OF assms True])
  then consider "?hits = []" | w where "?hits = [w]" by (cases ?hits) auto
  then show ?thesis
    using True by cases (auto simp: PriceSchedule_price_at_def select_window_filter)
qed (simp add: PriceSchedule_price_at_def not_less)

text \<open>
  Calendars that satisfy the laws exist: dates as their Julian days, from -9999-01-01 on, with
  2024-01-01 as day 2460311.
\<close>

definition julian_dates :: "int date_ops" where
  "julian_dates = \<lparr>date_less = (<),
     previous_day = (\<lambda>d. if d \<le> - 1930999 then None else Some (d - 1)),
     number_days_from_monday = (\<lambda>d. nat ((d - 2460311) mod 7)),
     to_julian_day = id, date_2024_01_01 = 2460311\<rparr>"

lemma julian_dates_laws: "date_laws julian_dates"
  by (auto simp: date_laws_def julian_dates_def split: if_splits)

text \<open>A night tariff on weekdays from 22:00 to 06:00 and a weekend tariff at daytime.\<close>

definition night_and_weekend :: "(int, nat) PriceSchedule" where
  "night_and_weekend = \<lparr>base_price = 10, windows =
     [\<lparr>start_date = None, end_date = None, weekdays = 0x1f, start_minute = 1320, end_minute = 360,
       window_price = 4\<rparr>,
      \<lparr>start_date = Some 2460311, end_date = None, weekdays = 0x60, start_minute = 360, end_minute = 1320,
       window_price = 7\<rparr>]\<rparr>"

lemma night_and_weekend_valid: "PriceSchedule_validate julian_dates night_and_weekend = Inr ()"
  by code_simp

text \<open>
  C9: on a schedule that passes validation, every local minute of every date has a price: the
  price of the one window that matches, or the base price when none does; the selection never
  reports overlapping windows.
\<close>

theorem validated_schedule_prices_every_minute:
  assumes "date_laws D" and "PriceSchedule_validate D s = Inr ()" and "minute < 1440"
  shows "PriceSchedule_price_at D s date minute = Inr (base_price s)
      \<and> filter (\<lambda>w. PriceWindow_matches D w date minute) (windows s) = []
    \<or> (\<exists>w. PriceSchedule_price_at D s date minute = Inr (window_price w)
      \<and> filter (\<lambda>w. PriceWindow_matches D w date minute) (windows s) = [w])"
proof -
  let ?hits = "filter (\<lambda>w. PriceWindow_matches D w date minute) (windows s)"
  from valid_hits [OF assms, of date] consider "?hits = []" | w where "?hits = [w]"
    by (cases ?hits) auto
  then show ?thesis
    using assms(3) valid_price_at [OF assms(1,2), of date minute] by cases auto
qed

theorem validated_schedule_prices_every_minute_witness:
  "PriceSchedule_price_at julian_dates night_and_weekend 2460312 60 = Inr 4"
proof -
  have "filter (\<lambda>w. PriceWindow_matches julian_dates w 2460312 60) (windows night_and_weekend)
      = [hd (windows night_and_weekend)]"
    by code_simp
  then show ?thesis
    using validated_schedule_prices_every_minute
      [OF julian_dates_laws night_and_weekend_valid, of 60 2460312]
    by (auto simp: night_and_weekend_def)
qed

text \<open>
  C19: the overlap test, which looks at one week only, is exact: it reports two windows exactly
  when some minute of some day of an unbounded calendar is covered by both.
\<close>

theorem windows_overlap_exact:
  "windows_overlap D w v \<longleftrightarrow> (\<exists>day minute. window_covers D w day minute \<and> window_covers D v day minute)"
  by (rule overlap_iff_covers)

text \<open>
  a valid window matches a date and minute exactly when it covers that Julian day, so a
  window past midnight counts for the weekday and the date range of the day it started on.
\<close>

theorem window_match_exact:
  assumes "date_laws D" and "PriceWindow_validate D w = Inr ()" and "previous_day D d \<noteq> None"
    and "m < 1440"
  shows "PriceWindow_matches D w d m \<longleftrightarrow> window_covers D w (to_julian_day D d) m"
  using assms(3,4) validate_windowD [OF assms(2)] unfolding matches_eq [OF assms(1)] covers_eq
  by (auto split: if_splits)

theorem window_match_exact_witness:
  "PriceWindow_matches julian_dates (hd (windows night_and_weekend)) 2460316 60
    \<longleftrightarrow> window_covers julian_dates (hd (windows night_and_weekend)) 2460316 60"
proof -
  have "PriceWindow_validate julian_dates (hd (windows night_and_weekend)) = Inr ()" by code_simp
  from window_match_exact [OF julian_dates_laws this, of 2460316 60] show ?thesis
    by (simp add: julian_dates_def)
qed

end
