(* ===== verification/Pricing.thy ===== *)
theory Pricing
  imports Billing Schedule
begin

text \<open>
  Versioned public-model prices (\<open>policy-core/src/billing/plan.rs\<close>): rate cards by tokens, by
  tokens with a context threshold and by images, their validation, charges and reference
  amounts, and the selection of a price by model, service tier and local time.
\<close>

section \<open>Data\<close>

record ImageSpec =
  img_size :: string
  img_quality :: string

record ImageUnitPrice =
  spec_of :: ImageSpec
  unit_price_of :: Money

datatype RateCard =
    Tokens TokenPrices
  | ContextTokens (input_threshold: u64) (short_prices: TokenPrices) (long_prices: TokenPrices)
  | Images "ImageUnitPrice list"

datatype VerifiedUsage =
    UsageTokens TokenUsage
  | UsageImages (confirmed_count: u32) (usage_spec: ImageSpec)

datatype ReferenceRequest =
    TokenOneMillion
  | RequestImages (requested_count: u32) (request_spec: ImageSpec)

record 'd PriceTier =
  tier_id :: string
  tier_schedule :: "('d, RateCard) PriceSchedule"

record 'd ModelPriceVersion =
  public_model :: string
  version :: string
  v_currency :: Currency
  tiers :: "'d PriceTier list"

record SelectedPrice =
  sel_public_model :: string
  sel_version :: string
  sel_tier :: string
  sel_currency :: Currency
  sel_rate :: RateCard

datatype PlanError =
    InvalidIdentity
  | InvalidTier
  | ModelMismatch
  | UnknownTier
  | PlanSchedule ScheduleError
  | PlanBilling BillingError

section \<open>Rate cards\<close>

definition token_dimensions :: "TokenPrices \<Rightarrow> bool list" where
  "token_dimensions p = map (\<lambda>price. price \<noteq> None)
     [tp_input p, tp_cached_read p, tp_cached_write p, tp_output p, tp_image_input p, tp_image_output p]"

fun RateCard_same_dimensions :: "RateCard \<Rightarrow> RateCard \<Rightarrow> bool" where
  "RateCard_same_dimensions (Tokens a) (Tokens b) = (token_dimensions a = token_dimensions b)"
| "RateCard_same_dimensions (ContextTokens at as al) (ContextTokens bt bs bl) =
     (at = bt \<and> token_dimensions as = token_dimensions bs \<and> token_dimensions al = token_dimensions bl)"
| "RateCard_same_dimensions (Images a) (Images b) = (set (map spec_of a) = set (map spec_of b))"
| "RateCard_same_dimensions _ _ = False"

fun validate_images ::
    "Currency \<Rightarrow> ImageSpec list \<Rightarrow> ImageUnitPrice list \<Rightarrow> (BillingError, unit) result" where
  "validate_images c seen [] = Inr ()"
| "validate_images c seen (item # items) =
     (if is_blank (img_size (spec_of item)) \<or> is_blank (img_quality (spec_of item))
         \<or> spec_of item \<in> set seen
      then Inl UnsupportedImageSpec
      else if m_currency (unit_price_of item) \<noteq> c then Inl CurrencyMismatch
      else and_then (image_charge (unit_price_of item) 1)
             (\<lambda>_. validate_images c (spec_of item # seen) items))"

fun RateCard_validate :: "RateCard \<Rightarrow> Currency \<Rightarrow> (BillingError, unit) result" where
  "RateCard_validate (Tokens prices) c =
     and_then (TokenPrices_validate prices) (\<lambda>_.
     and_then (TokenPrices_reference prices c) (\<lambda>_. Inr ()))"
| "RateCard_validate (ContextTokens threshold short long) c =
     (if threshold = 0 \<or> token_dimensions short \<noteq> token_dimensions long
      then Inl InconsistentRateCard
      else and_then (TokenPrices_reference short c) (\<lambda>_.
           and_then (TokenPrices_reference long c) (\<lambda>_. Inr ())))"
| "RateCard_validate (Images unit_prices) c =
     (if unit_prices = [] then Inl UnsupportedImageSpec else validate_images c [] unit_prices)"

fun RateCard_image_price :: "RateCard \<Rightarrow> ImageSpec \<Rightarrow> Currency \<Rightarrow> (BillingError, Money) result" where
  "RateCard_image_price (Images unit_prices) spec c =
     and_then (ok_or (find (\<lambda>item. spec_of item = spec) unit_prices) UnsupportedImageSpec) (\<lambda>item.
     if m_currency (unit_price_of item) \<noteq> c then Inl CurrencyMismatch
     else Inr (unit_price_of item))"
| "RateCard_image_price _ spec c = Inl UnsupportedUsage"

fun sum_input :: "u64 \<Rightarrow> u64 list \<Rightarrow> (BillingError, u64) result" where
  "sum_input acc [] = Inr acc"
| "sum_input acc (v # vs) =
     and_then (ok_or (checked_add acc v) Overflow) (\<lambda>t. sum_input t vs)"

definition RateCard_charge ::
    "RateCard \<Rightarrow> VerifiedUsage \<Rightarrow> Currency \<Rightarrow> (BillingError, Money) result" where
  "RateCard_charge rates usage c =
     and_then (RateCard_validate rates c) (\<lambda>_.
     case (rates, usage) of
       (Tokens prices, UsageTokens u) \<Rightarrow> TokenPrices_charge prices c u
     | (ContextTokens threshold short long, UsageTokens u) \<Rightarrow>
         and_then (sum_input 0 [tu_input u, tu_cached_read u, tu_cached_write u, tu_image_input u])
           (\<lambda>total_input. if threshold < total_input then TokenPrices_charge long c u
                          else TokenPrices_charge short c u)
     | (Images _, UsageImages count spec) \<Rightarrow>
         and_then (RateCard_image_price rates spec c) (\<lambda>unit_price. image_charge unit_price count)
     | _ \<Rightarrow> Inl UnsupportedUsage)"

definition RateCard_reference ::
    "RateCard \<Rightarrow> Currency \<Rightarrow> ReferenceRequest \<Rightarrow> (BillingError, Money) result" where
  "RateCard_reference rates c request =
     and_then (RateCard_validate rates c) (\<lambda>_.
     case rates of
       Tokens prices \<Rightarrow> TokenPrices_reference prices c
     | ContextTokens _ short long \<Rightarrow>
         and_then (TokenPrices_reference short c) (\<lambda>s.
         and_then (TokenPrices_reference long c) (\<lambda>l.
         Inr (if nanos l < nanos s then s else l)))
     | Images _ \<Rightarrow>
         (case request of
            RequestImages count spec \<Rightarrow>
              if count = 0 then Inl InvalidImageCount
              else and_then (RateCard_image_price rates spec c) (\<lambda>unit_price. image_charge unit_price count)
          | TokenOneMillion \<Rightarrow> Inl UnsupportedUsage))"

section \<open>Versions\<close>

fun validate_window_rates ::
    "Currency \<Rightarrow> RateCard \<Rightarrow> ('d, RateCard) PriceWindow list \<Rightarrow> (PlanError, unit) result" where
  "validate_window_rates c base [] = Inr ()"
| "validate_window_rates c base (w # ws) =
     and_then (map_err PlanBilling (RateCard_validate (window_price w) c)) (\<lambda>_.
     if \<not> RateCard_same_dimensions (window_price w) base
     then Inl (PlanBilling InconsistentRateCard)
     else validate_window_rates c base ws)"

fun validate_tiers ::
    "'d date_ops \<Rightarrow> Currency \<Rightarrow> RateCard \<Rightarrow> string list \<Rightarrow> 'd PriceTier list \<Rightarrow> (PlanError, unit) result" where
  "validate_tiers D c dims seen [] = Inr ()"
| "validate_tiers D c dims seen (tier # rest) =
     (if is_blank (tier_id tier) \<or> tier_id tier \<in> set seen then Inl InvalidTier
      else
        and_then (map_err PlanSchedule (PriceSchedule_validate D (tier_schedule tier))) (\<lambda>_.
        and_then (map_err PlanBilling (RateCard_validate (base_price (tier_schedule tier)) c)) (\<lambda>_.
        if \<not> RateCard_same_dimensions (base_price (tier_schedule tier)) dims
        then Inl (PlanBilling InconsistentRateCard)
        else and_then (validate_window_rates c (base_price (tier_schedule tier))
                         (windows (tier_schedule tier)))
               (\<lambda>_. validate_tiers D c dims (tier_id tier # seen) rest))))"

definition ModelPriceVersion_validate ::
    "'d date_ops \<Rightarrow> 'd ModelPriceVersion \<Rightarrow> (PlanError, unit) result" where
  "ModelPriceVersion_validate D v =
     (if is_blank (public_model v) \<or> is_blank (version v) then Inl InvalidIdentity
      else case tiers v of
             [] \<Rightarrow> Inl InvalidIdentity
           | first # _ \<Rightarrow> validate_tiers D (v_currency v) (base_price (tier_schedule first)) [] (tiers v))"

definition ModelPriceVersion_select ::
    "'d date_ops \<Rightarrow> 'd ModelPriceVersion \<Rightarrow> string \<Rightarrow> string \<Rightarrow> 'd \<Rightarrow> u16
      \<Rightarrow> (PlanError, SelectedPrice) result" where
  "ModelPriceVersion_select D v model tier local_date local_minute =
     and_then (ModelPriceVersion_validate D v) (\<lambda>_.
     if public_model v \<noteq> model then Inl ModelMismatch
     else
       and_then (ok_or (find (\<lambda>candidate. tier_id candidate = tier) (tiers v)) UnknownTier) (\<lambda>selected_tier.
       and_then (map_err PlanSchedule
                   (PriceSchedule_price_at D (tier_schedule selected_tier) local_date local_minute)) (\<lambda>rate.
       Inr \<lparr>sel_public_model = public_model v, sel_version = version v,
            sel_tier = tier_id selected_tier, sel_currency = v_currency v, sel_rate = rate\<rparr>)))"

definition SelectedPrice_charge :: "SelectedPrice \<Rightarrow> VerifiedUsage \<Rightarrow> (BillingError, Money) result" where
  "SelectedPrice_charge p usage = RateCard_charge (sel_rate p) usage (sel_currency p)"

definition SelectedPrice_reference ::
    "SelectedPrice \<Rightarrow> ReferenceRequest \<Rightarrow> (BillingError, Money) result" where
  "SelectedPrice_reference p request = RateCard_reference (sel_rate p) (sel_currency p) request"

section \<open>Validated versions\<close>

text \<open>Every rate a tier can select.\<close>

definition tier_rates :: "'d PriceTier \<Rightarrow> RateCard set" where
  "tier_rates t = insert (base_price (tier_schedule t)) (window_price ` set (windows (tier_schedule t)))"

definition version_rates :: "'d ModelPriceVersion \<Rightarrow> RateCard set" where
  "version_rates v = \<Union> (tier_rates ` set (tiers v))"

lemma same_dimensions_sym: "RateCard_same_dimensions a b = RateCard_same_dimensions b a"
  by (cases a; cases b) auto

lemma same_dimensions_trans:
  "RateCard_same_dimensions a b \<Longrightarrow> RateCard_same_dimensions b c \<Longrightarrow> RateCard_same_dimensions a c"
  by (cases a; cases b; cases c) auto

lemma validate_window_rates_ok_iff:
  "validate_window_rates c base ws = Inr () \<longleftrightarrow>
     (\<forall>w\<in>set ws. RateCard_validate (window_price w) c = Inr () \<and> RateCard_same_dimensions (window_price w) base)"
  by (induction ws) (auto simp: result_simps split: if_splits)

lemma validate_tiers_ok_iff:
  "validate_tiers D c dims seen ts = Inr () \<longleftrightarrow>
     distinct (map tier_id ts) \<and> set seen \<inter> tier_id ` set ts = {}
     \<and> (\<forall>t\<in>set ts. \<not> is_blank (tier_id t) \<and> PriceSchedule_validate D (tier_schedule t) = Inr ()
          \<and> (\<forall>r\<in>tier_rates t. RateCard_validate r c = Inr ())
          \<and> RateCard_same_dimensions (base_price (tier_schedule t)) dims
          \<and> (\<forall>w\<in>set (windows (tier_schedule t)).
               RateCard_same_dimensions (window_price w) (base_price (tier_schedule t))))"
proof (induction ts arbitrary: seen)
  case (Cons t ts)
  show ?case
    by (auto simp: result_simps validate_window_rates_ok_iff tier_rates_def Cons.IH split: if_splits)
qed simp

lemma version_validD:
  assumes "ModelPriceVersion_validate D v = Inr ()"
  shows "distinct (map tier_id (tiers v))"
    and "t \<in> set (tiers v) \<Longrightarrow> PriceSchedule_validate D (tier_schedule t) = Inr ()"
    and "r \<in> version_rates v \<Longrightarrow> RateCard_validate r (v_currency v) = Inr ()"
    and "r \<in> version_rates v \<Longrightarrow> q \<in> version_rates v \<Longrightarrow> RateCard_same_dimensions r q"
proof -
  obtain t0 ts where t0: "tiers v = t0 # ts"
    using assms by (auto simp: ModelPriceVersion_validate_def split: if_splits list.splits)
  let ?dims = "base_price (tier_schedule t0)"
  have ok: "validate_tiers D (v_currency v) ?dims [] (tiers v) = Inr ()"
    using assms t0 by (auto simp: ModelPriceVersion_validate_def split: if_splits)
  show "distinct (map tier_id (tiers v))"
    and "t \<in> set (tiers v) \<Longrightarrow> PriceSchedule_validate D (tier_schedule t) = Inr ()"
    using ok by (auto simp: validate_tiers_ok_iff)
  show "r \<in> version_rates v \<Longrightarrow> RateCard_validate r (v_currency v) = Inr ()"
    using ok by (auto simp: validate_tiers_ok_iff version_rates_def)
  have dims: "RateCard_same_dimensions r ?dims" if r: "r \<in> version_rates v" for r
  proof -
    obtain t where t: "t \<in> set (tiers v)" "r \<in> tier_rates t"
      using r by (auto simp: version_rates_def)
    with ok have base: "RateCard_same_dimensions (base_price (tier_schedule t)) ?dims"
      by (auto simp: validate_tiers_ok_iff)
    have "r = base_price (tier_schedule t) \<or> RateCard_same_dimensions r (base_price (tier_schedule t))"
      using ok t by (auto simp: validate_tiers_ok_iff tier_rates_def)
    with base show ?thesis using same_dimensions_trans by blast
  qed
  show "r \<in> version_rates v \<Longrightarrow> q \<in> version_rates v \<Longrightarrow> RateCard_same_dimensions r q"
    using dims same_dimensions_sym same_dimensions_trans by blast
qed

lemma find_by_key:
  assumes "distinct (map f xs)"
  shows "find (\<lambda>x. f x = k) xs = Some x \<longleftrightarrow> x \<in> set xs \<and> f x = k"
  using assms by (induction xs) (auto simp: image_iff)

section \<open>Selection, charges and references\<close>

text \<open>
  C15: selection of a price succeeds exactly for a valid version of the requested model, a tier
  the version lists and a minute of the day, and it returns the rate of the one window of that
  tier that matches the local time, or the tier's base rate, in the version's currency.
\<close>

theorem select_spec:
  assumes "date_laws D"
  shows "ModelPriceVersion_select D v model tier date minute = Inr p \<longleftrightarrow>
    ModelPriceVersion_validate D v = Inr () \<and> public_model v = model \<and> minute < 1440 \<and>
    (\<exists>t\<in>set (tiers v). tier_id t = tier \<and>
       p = \<lparr>sel_public_model = model, sel_version = version v, sel_tier = tier, sel_currency = v_currency v,
            sel_rate = (case filter (\<lambda>w. PriceWindow_matches D w date minute) (windows (tier_schedule t)) of
                          [] \<Rightarrow> base_price (tier_schedule t) | w # _ \<Rightarrow> window_price w)\<rparr>)"
proof (cases "ModelPriceVersion_validate D v = Inr () \<and> public_model v = model")
  case True
  then have valid: "ModelPriceVersion_validate D v = Inr ()" by simp
  note found = find_by_key [OF version_validD(1) [OF valid], of tier]
  note priced = valid_price_at [OF assms version_validD(2) [OF valid], of _ date minute]
  have "ModelPriceVersion_select D v model tier date minute = Inr p \<longleftrightarrow>
    (\<exists>t r. t \<in> set (tiers v) \<and> tier_id t = tier
       \<and> PriceSchedule_price_at D (tier_schedule t) date minute = Inr r
       \<and> \<lparr>sel_public_model = model, sel_version = version v, sel_tier = tier, sel_currency = v_currency v,
            sel_rate = r\<rparr> = p)"
    using True by (auto simp: ModelPriceVersion_select_def result_simps found)
  also have "\<dots> \<longleftrightarrow> minute < 1440 \<and> (\<exists>t\<in>set (tiers v). tier_id t = tier \<and>
       p = \<lparr>sel_public_model = model, sel_version = version v, sel_tier = tier, sel_currency = v_currency v,
            sel_rate = (case filter (\<lambda>w. PriceWindow_matches D w date minute) (windows (tier_schedule t)) of
                          [] \<Rightarrow> base_price (tier_schedule t) | w # _ \<Rightarrow> window_price w)\<rparr>)"
    using priced by blast
  finally show ?thesis using True by simp
qed (auto simp: ModelPriceVersion_select_def result_simps split: if_splits)

definition sample_version :: "int ModelPriceVersion" where
  "sample_version =
     (let rate = (\<lambda>n. Tokens \<lparr>tp_input = Some n, tp_cached_read = None, tp_cached_write = None,
           tp_output = Some (4 * n), tp_image_input = None, tp_image_output = None\<rparr>)
      in \<lparr>public_model = ''fast'', version = ''v1'', v_currency = Usd,
          tiers = [\<lparr>tier_id = ''standard'', tier_schedule = \<lparr>base_price = rate 1000,
             windows = [\<lparr>start_date = None, end_date = None, weekdays = 0x1f, start_minute = 1320,
                         end_minute = 360, window_price = rate 400\<rparr>]\<rparr>\<rparr>]\<rparr>)"

lemma sample_version_valid: "ModelPriceVersion_validate julian_dates sample_version = Inr ()"
  by code_simp

theorem select_spec_witness:
  "\<exists>p. ModelPriceVersion_select julian_dates sample_version ''fast'' ''standard'' 2460312 60 = Inr p"
proof -
  have "\<exists>t\<in>set (tiers sample_version). tier_id t = ''standard''" by code_simp
  moreover have "public_model sample_version = ''fast''" by code_simp
  ultimately show ?thesis
    using select_spec [OF julian_dates_laws, of sample_version "''fast''" "''standard''" 2460312 60]
      sample_version_valid
    by auto
qed

lemma image_charge_mono:
  assumes "image_charge p a = Inr m" and "image_charge p b = Inr r" and "a \<le> b"
  shows "nanos m \<le> nanos r"
proof -
  have "uint a \<le> uint b" using assms(3) by (simp add: word_le_def)
  then show ?thesis
    using assms(1,2)
    by (auto simp: image_charge_def result_simps checked_simps mult_left_mono split: if_splits)
qed

lemma charge_rate_cases:
  assumes "RateCard_charge rates usage c = Inr m"
  obtains (tokens) p u where "rates = Tokens p" "usage = UsageTokens u" "TokenPrices_charge p c u = Inr m"
  | (context_tokens) t s l p u where "rates = ContextTokens t s l" "usage = UsageTokens u" "p \<in> {s, l}"
      "TokenPrices_charge p c u = Inr m"
  | (images) ps n spec p where "rates = Images ps" "usage = UsageImages n spec"
      "RateCard_image_price rates spec c = Inr p" "image_charge p n = Inr m"
  using assms
  by (cases rates; cases usage) (auto simp: RateCard_charge_def result_simps split: if_splits)

lemma image_charge_linear:
  assumes "image_charge p a = Inr m" and "image_charge p b = Inr r"
  shows "uint b * nanos m = uint a * nanos r"
  using assms by (auto simp: image_charge_def result_simps checked_simps split: if_splits)

lemma token_charge_cases:
  assumes "SelectedPrice_charge p (UsageTokens u) = Inr m" and "SelectedPrice_reference p request = Inr r"
  obtains q s where "TokenPrices_charge q (sel_currency p) u = Inr m" "TokenPrices_reference q (sel_currency p) = Inr s"
    "nanos s \<le> nanos r"
  using assms(1) unfolding SelectedPrice_charge_def
proof (cases rule: charge_rate_cases)
  case (tokens q v)
  then show ?thesis
    using that [of q r] assms(2) by (auto simp: SelectedPrice_reference_def RateCard_reference_def result_simps)
next
  case (context_tokens t s l q v)
  then obtain rs rl where ref: "TokenPrices_reference s (sel_currency p) = Inr rs"
      "TokenPrices_reference l (sel_currency p) = Inr rl" "r = (if nanos rl < nanos rs then rs else rl)"
    using assms(2) by (auto simp: SelectedPrice_reference_def RateCard_reference_def result_simps)
  from context_tokens consider "q = s" | "q = l" by blast
  then show ?thesis
    using that [of s rs] that [of l rl] ref context_tokens by cases auto
qed simp

lemma image_charge_cases:
  assumes "SelectedPrice_charge p (UsageImages n spec) = Inr m"
    and "SelectedPrice_reference p (RequestImages k spec) = Inr r"
  obtains q where "image_charge q n = Inr m" "image_charge q k = Inr r" "k \<noteq> 0"
  using assms(1) unfolding SelectedPrice_charge_def
proof (cases rule: charge_rate_cases)
  case (images ps n' spec' q)
  then show ?thesis
    using that [of q] assms(2)
    by (auto simp: SelectedPrice_reference_def RateCard_reference_def result_simps split: if_splits)
qed simp_all

text \<open>
  C21: how the charge of a request relates to the reference amount its admission took. The
  reference is guidance and not a cap: for tokens it stands for one million, so the charge is at
  most that many references as the usage has started millions, on either side of a context
  threshold; for images the charge is the reference in the proportion of the confirmed to the
  requested images. In particular the charge stays within the reference for at most a million
  tokens and for at most the requested images, and it exceeds a positive reference as soon as
  more images are confirmed than were requested.
\<close>

theorem charge_in_proportion_to_reference:
  assumes "SelectedPrice_charge p usage = Inr m" and "SelectedPrice_reference p request = Inr r"
  shows "(\<forall>u k. usage = UsageTokens u \<and> 0 \<le> k \<and> total_tokens u \<le> k * TOKENS_PER_MILLION \<longrightarrow> nanos m \<le> k * nanos r)
    \<and> (\<forall>n k spec. usage = UsageImages n spec \<and> request = RequestImages k spec \<longrightarrow>
         0 < uint k \<and> uint k * nanos m = uint n * nanos r
         \<and> (n \<le> k \<longrightarrow> nanos m \<le> nanos r) \<and> (k < n \<and> 0 < nanos r \<longrightarrow> nanos r < nanos m))"
proof (intro conjI allI impI; (elim conjE)?)
  fix u k assume "usage = UsageTokens u" and k: "0 \<le> k" "total_tokens u \<le> k * TOKENS_PER_MILLION"
  with assms obtain q s where q: "TokenPrices_charge q (sel_currency p) u = Inr m"
      "TokenPrices_reference q (sel_currency p) = Inr s" "nanos s \<le> nanos r"
    using token_charge_cases by blast
  have "nanos m \<le> k * nanos s" by (rule charge_scaled_by_reference(2) [OF q(1,2) k(2)])
  also have "\<dots> \<le> k * nanos r" using q(3) k(1) by (rule mult_left_mono)
  finally show "nanos m \<le> k * nanos r" .
next
  fix n k spec assume eqs: "usage = UsageImages n spec" "request = RequestImages k spec"
  with assms obtain q where q: "image_charge q n = Inr m" "image_charge q k = Inr r" "k \<noteq> 0"
    using image_charge_cases by blast
  show k: "0 < uint k" using q(3) by (simp add: word_greater_zero_iff [symmetric] word_less_def)
  show "uint k * nanos m = uint n * nanos r" using image_charge_linear [OF q(1,2)] .
  show "nanos m \<le> nanos r" if "n \<le> k" using image_charge_mono [OF q(1,2) that] .
  show "nanos r < nanos m" if "k < n" "0 < nanos r"
  proof -
    have "uint k * nanos r < uint n * nanos r" using that by (simp add: word_less_def)
    then have "uint k * nanos r < uint k * nanos m" using image_charge_linear [OF q(1,2)] by simp
    with k show ?thesis by simp
  qed
qed

definition sample_selected :: SelectedPrice where
  "sample_selected = \<lparr>sel_public_model = ''draw'', sel_version = ''v1'', sel_tier = ''standard'',
     sel_currency = Cny, sel_rate = Images [\<lparr>spec_of = \<lparr>img_size = ''1024'', img_quality = ''high''\<rparr>,
        unit_price_of = \<lparr>m_currency = Cny, nanos = 200\<rparr>\<rparr>]\<rparr>"

text \<open>The night rate of the sample version, and what a million and two million output tokens cost on it.\<close>

definition sample_night :: SelectedPrice where
  "sample_night = \<lparr>sel_public_model = ''fast'', sel_version = ''v1'', sel_tier = ''standard'', sel_currency = Usd,
     sel_rate = window_price (hd (windows (tier_schedule (hd (tiers sample_version)))))\<rparr>"

definition output_usage :: "u64 \<Rightarrow> TokenUsage" where
  "output_usage n = \<lparr>tu_input = 0, tu_cached_read = 0, tu_cached_write = 0, tu_output = n,
     tu_image_input = 0, tu_image_output = 0\<rparr>"

lemma sample_night_selected:
  "ModelPriceVersion_select julian_dates sample_version ''fast'' ''standard'' 2460312 60 = Inr sample_night"
  by code_simp

lemma sample_night_amounts:
  "SelectedPrice_reference sample_night TokenOneMillion = Inr \<lparr>m_currency = Usd, nanos = 1600\<rparr>"
  "SelectedPrice_charge sample_night (UsageTokens (output_usage 900000)) = Inr \<lparr>m_currency = Usd, nanos = 1440\<rparr>"
  "SelectedPrice_charge sample_night (UsageTokens (output_usage 1900000)) = Inr \<lparr>m_currency = Usd, nanos = 3040\<rparr>"
  by code_simp+

lemma sample_image_amounts:
  defines "spec \<equiv> \<lparr>img_size = ''1024'', img_quality = ''high''\<rparr>"
  shows "SelectedPrice_reference sample_selected (RequestImages 3 spec) = Inr \<lparr>m_currency = Cny, nanos = 600\<rparr>"
    and "SelectedPrice_charge sample_selected (UsageImages 2 spec) = Inr \<lparr>m_currency = Cny, nanos = 400\<rparr>"
    and "SelectedPrice_charge sample_selected (UsageImages 5 spec) = Inr \<lparr>m_currency = Cny, nanos = 1000\<rparr>"
  unfolding spec_def by code_simp+

theorem charge_in_proportion_to_reference_witness:
  "\<exists>night reference within beyond images drawn redrawn.
     ModelPriceVersion_select julian_dates sample_version ''fast'' ''standard'' 2460312 60 = Inr night
   \<and> SelectedPrice_reference night TokenOneMillion = Inr reference
   \<and> SelectedPrice_charge night (UsageTokens (output_usage 900000)) = Inr within \<and> nanos within \<le> 1 * nanos reference
   \<and> SelectedPrice_charge night (UsageTokens (output_usage 1900000)) = Inr beyond
   \<and> nanos reference < nanos beyond \<and> nanos beyond \<le> 2 * nanos reference
   \<and> SelectedPrice_reference sample_selected (RequestImages 3 \<lparr>img_size = ''1024'', img_quality = ''high''\<rparr>) = Inr images
   \<and> SelectedPrice_charge sample_selected (UsageImages 2 \<lparr>img_size = ''1024'', img_quality = ''high''\<rparr>) = Inr drawn
   \<and> SelectedPrice_charge sample_selected (UsageImages 5 \<lparr>img_size = ''1024'', img_quality = ''high''\<rparr>) = Inr redrawn
   \<and> nanos drawn \<le> nanos images \<and> nanos images < nanos redrawn"
proof -
  note night = sample_night_amounts and image = sample_image_amounts
  have total: "total_tokens (output_usage 900000) \<le> 1 * TOKENS_PER_MILLION"
      "total_tokens (output_usage 1900000) \<le> 2 * TOKENS_PER_MILLION"
    by (simp_all add: total_tokens_def usage_list_def output_usage_def TOKENS_PER_MILLION_def)
  have within: "nanos \<lparr>m_currency = Usd, nanos = 1440\<rparr> \<le> 1 * nanos \<lparr>m_currency = Usd, nanos = 1600\<rparr>"
    by (rule conjunct1 [OF charge_in_proportion_to_reference [OF night(2,1)], rule_format, of "output_usage 900000" 1])
       (use total(1) in simp)
  have beyond: "nanos \<lparr>m_currency = Usd, nanos = 3040\<rparr> \<le> 2 * nanos \<lparr>m_currency = Usd, nanos = 1600\<rparr>"
    by (rule conjunct1 [OF charge_in_proportion_to_reference [OF night(3,1)], rule_format, of "output_usage 1900000" 2])
       (use total(2) in simp)
  have drawn: "nanos \<lparr>m_currency = Cny, nanos = 400\<rparr> \<le> nanos \<lparr>m_currency = Cny, nanos = 600\<rparr>"
    by (rule conjunct2 [OF charge_in_proportion_to_reference [OF image(2,1)], rule_format, OF conjI [OF refl refl],
          THEN conjunct2, THEN conjunct2, THEN conjunct1, rule_format]) simp
  have redrawn: "nanos \<lparr>m_currency = Cny, nanos = 600\<rparr> < nanos \<lparr>m_currency = Cny, nanos = 1000\<rparr>"
    by (rule conjunct2 [OF charge_in_proportion_to_reference [OF image(3,1)], rule_format, OF conjI [OF refl refl],
          THEN conjunct2, THEN conjunct2, THEN conjunct2, rule_format]) (simp add: word_less_def)
  show ?thesis
    by (intro exI conjI) (rule sample_night_selected night image within beyond drawn redrawn | simp)+
qed

text \<open>A successful charge names what the usage needs of a rate; equal dimensions provide it.\<close>

lemma charge_lines_error:
  assumes "charge_lines acc ls = Inl e" and "\<forall>(t, p)\<in>set ls. t \<noteq> 0 \<longrightarrow> (\<exists>v\<ge>0. p = Some v)"
  shows "e = Overflow"
  using assms
proof (induction ls arbitrary: acc)
  case (Cons l ls)
  then show ?case by (cases l) (auto simp: result_simps split: if_splits)
qed simp

lemma charge_lines_nonneg:
  assumes "charge_lines 0 ls = Inr n"
  shows "0 \<le> n"
proof -
  have "0 \<le> line_cost l" if "l \<in> set ls" for l
    using charge_lines_Inr(2) [OF assms] that by (cases l; cases "fst l = 0") (auto simp: line_cost_def)
  then have "0 \<le> sum_list (map line_cost ls)" by (intro sum_list_nonneg) auto
  then show ?thesis using charge_lines_Inr(1) [OF assms] by simp
qed

lemma token_charge_error:
  assumes "TokenPrices_charge p c u = Inr m" and "token_dimensions q = token_dimensions p"
    and "TokenPrices_validate q = Inr ()" and "TokenPrices_charge q c u = Inl e"
  shows "e = Overflow"
proof -
  let ?lp = "zip (usage_list u) (price_list p)" and ?lq = "zip (usage_list u) (price_list q)"
  obtain k where "charge_lines 0 ?lp = Inr k" using assms(1) by (auto simp: charge_eq_Inr)
  then have "\<forall>(t, v)\<in>set ?lp. t \<noteq> 0 \<longrightarrow> v \<noteq> None" by (fastforce dest: charge_lines_Inr(2))
  then have some: "\<forall>(t, v)\<in>set ?lq. t \<noteq> 0 \<longrightarrow> v \<noteq> None"
    using assms(2) by (simp add: token_dimensions_def usage_list_def price_list_def)
  have "\<forall>(t, v)\<in>set ?lq. t \<noteq> 0 \<longrightarrow> (\<exists>x\<ge>0. v = Some x)"
    using some assms(3) by (fastforce simp: validate_prices_ok_iff dest: set_zip_rightD)
  then have "charge_lines 0 ?lq = Inl f \<Longrightarrow> f = Overflow" for f using charge_lines_error by blast
  then show ?thesis
    using assms(3,4) charge_lines_nonneg [of ?lq]
    by (auto simp: TokenPrices_charge_def round_div_def TOKENS_PER_MILLION_def result_simps
        split: if_splits)
qed

lemma validate_images_ok:
  assumes "validate_images c seen items = Inr ()" and "item \<in> set items"
  shows "m_currency (unit_price_of item) = c \<and> 0 \<le> nanos (unit_price_of item)"
  using assms
  by (induction c seen items rule: validate_images.induct)
     (auto simp: result_simps image_charge_def split: if_splits)

lemma image_charge_error:
  assumes "RateCard_validate (Images items) c = Inr ()" and "spec \<in> spec_of ` set items"
    and "RateCard_charge (Images items) (UsageImages n spec) c = Inl e"
  shows "e = Overflow"
proof -
  have "find (\<lambda>i. spec_of i = spec) items \<noteq> None" using assms(2) by (auto simp: find_None_iff)
  then obtain i where i: "find (\<lambda>i. spec_of i = spec) items = Some i" by blast
  then have "i \<in> set items" by (auto simp: find_Some_iff)
  moreover have "validate_images c [] items = Inr ()" using assms(1) by (simp split: if_splits)
  ultimately have "m_currency (unit_price_of i) = c \<and> 0 \<le> nanos (unit_price_of i)"
    by (metis validate_images_ok)
  with assms(1,3) i show ?thesis
    by (auto simp: RateCard_charge_def image_charge_def result_simps split: if_splits)
qed

lemma sum_input_error: "sum_input acc vs = Inl e \<Longrightarrow> e = Overflow"
  by (induction vs arbitrary: acc) (auto simp: result_simps)

lemma reference_validates: "TokenPrices_reference p c = Inr m \<Longrightarrow> TokenPrices_validate p = Inr ()"
  by (auto simp: reference_eq_Inr)

lemma context_charge_error:
  assumes "TokenPrices_charge p c u = Inr m"
    and "token_dimensions p = token_dimensions s" and "token_dimensions p = token_dimensions l"
    and valid: "RateCard_validate (ContextTokens t s l) c = Inr ()"
    and "RateCard_charge (ContextTokens t s l) (UsageTokens u) c = Inl e"
  shows "e = Overflow"
proof -
  have "TokenPrices_validate s = Inr ()" "TokenPrices_validate l = Inr ()"
    using valid by (auto simp: result_simps dest: reference_validates split: if_splits)
  then have "TokenPrices_charge s c u = Inl f \<Longrightarrow> f = Overflow"
      and "TokenPrices_charge l c u = Inl f \<Longrightarrow> f = Overflow" for f
    using token_charge_error [OF assms(1)] assms(2,3) by metis+
  with assms(5) valid show ?thesis
    by (auto simp: RateCard_charge_def result_simps dest: sum_input_error split: if_splits)
qed

text \<open>
  within one valid price version, usage that one rate can charge, every other rate of the
  version can charge too, whichever tier or time window selects it: the only failure left is an
  amount that does not fit.
\<close>

theorem version_rates_charge_alike:
  assumes "ModelPriceVersion_validate D v = Inr ()"
    and "r \<in> version_rates v" and "q \<in> version_rates v"
    and "RateCard_charge r usage (v_currency v) = Inr m"
    and "RateCard_charge q usage (v_currency v) = Inl e"
  shows "e = Overflow"
proof -
  have dims: "RateCard_same_dimensions r q" by (rule version_validD(4) [OF assms(1-3)])
  have valid: "RateCard_validate q (v_currency v) = Inr ()" by (rule version_validD(3) [OF assms(1,3)])
  have rvalid: "RateCard_validate r (v_currency v) = Inr ()" by (rule version_validD(3) [OF assms(1,2)])
  from assms(4) show ?thesis
  proof (cases rule: charge_rate_cases)
    case (tokens p u)
    then obtain q' where "q = Tokens q'" "token_dimensions q' = token_dimensions p"
      using dims by (cases q) auto
    with tokens valid assms(5) show ?thesis
      using token_charge_error [of p "v_currency v" u m q' e]
      by (auto simp: RateCard_charge_def result_simps)
  next
    case (context_tokens t s l p u)
    then obtain s' l' where q: "q = ContextTokens t s' l'"
        "token_dimensions s = token_dimensions s'" "token_dimensions l = token_dimensions l'"
      using dims by (cases q) auto
    have "token_dimensions s = token_dimensions l"
      using rvalid context_tokens(1) by (simp split: if_splits)
    then have eqs: "token_dimensions p = token_dimensions s'" "token_dimensions p = token_dimensions l'"
      using q context_tokens(3) by auto
    from context_charge_error [OF context_tokens(4) eqs, of t] valid assms(5) q(1) context_tokens(2)
    show ?thesis by blast
  next
    case (images ps n spec p)
    then obtain qs where q: "q = Images qs" "spec_of ` set ps = spec_of ` set qs"
      using dims by (cases q) auto
    have "spec \<in> spec_of ` set ps"
      using images by (auto simp: result_simps find_Some_iff)
    with q valid assms(5) images(2) show ?thesis using image_charge_error by metis
  qed
qed

definition sample_night_rate :: RateCard where
  "sample_night_rate = window_price (hd (windows (tier_schedule (hd (tiers sample_version)))))"

definition sample_base_rate :: RateCard where
  "sample_base_rate = base_price (tier_schedule (hd (tiers sample_version)))"

theorem version_rates_charge_alike_witness:
  "RateCard_charge sample_base_rate (UsageTokens \<lparr>tu_input = 0, tu_cached_read = 0,
      tu_cached_write = 0, tu_output = 7, tu_image_input = 0, tu_image_output = 0\<rparr>) Usd \<noteq> Inl UnsupportedUsage"
proof
  let ?u = "UsageTokens \<lparr>tu_input = 0, tu_cached_read = 0, tu_cached_write = 0, tu_output = 7,
      tu_image_input = 0, tu_image_output = 0\<rparr>"
  have cur: "v_currency sample_version = Usd" by code_simp
  have mem: "sample_night_rate \<in> version_rates sample_version" "sample_base_rate \<in> version_rates sample_version"
    by (simp_all add: version_rates_def tier_rates_def sample_night_rate_def sample_base_rate_def
        sample_version_def Let_def)
  have "RateCard_charge sample_night_rate ?u (v_currency sample_version) = Inr \<lparr>m_currency = Usd, nanos = 0\<rparr>"
    by code_simp
  moreover assume "RateCard_charge sample_base_rate ?u Usd = Inl UnsupportedUsage"
  ultimately have "UnsupportedUsage = Overflow"
    using version_rates_charge_alike [OF sample_version_valid mem] cur by metis
  then show False by simp
qed

end
