(* ===== verification/MoneyControl.thy ===== *)
theory MoneyControl
  imports MoneyLedger Pricing
begin

text \<open>
  The money operations of the Control process (\<open>control/src/lib.rs\<close>) over the storage
  interface: message codes of balances and entries, verification of a stored ledger, the audit
  event of a mutation, the posting of an entry with its retries, and the settlement of a request
  by its frozen price. Other processes share the database: before every storage call the world
  runs the next batch of their calls, and nothing is assumed of those.

  The record \<open>money_env\<close> holds what is not this code: JSON encoding, the keyed message codes of
  the authentication core, the clock's text, the random source and the configured settlement
  currency, the latter three indexed by the number of the reading. The configuration is code of
  this process too; only its result, a currency or an error, enters here, and any sequence of
  results is allowed. The process has its storage and its authentication core: the errors of
  \<open>credential_storage\<close> and \<open>auth_core\<close> for a process without them do not occur, so \<open>AuthFailure\<close>
  is an error of the core itself.
\<close>

section \<open>Environment\<close>

text \<open>The errors the money operations return.\<close>

datatype ControlError =
    DataIntegrityInvalid | UsageSettlementInvalid | DuplicateGatewayRequest | QuotaSettlementConflict
  | RandomnessUnavailable | AuthFailure | BillingPriceUnavailable | BillingCalculationInvalid
  | MoneyAdjustmentInvalid | StorageFailure StorageError

record money_env =
  json_object_of :: "string \<Rightarrow> bool"
  balance_payload :: "MoneyBalanceRecord \<Rightarrow> string option"
  entry_payload :: "MoneyLedgerEntry \<Rightarrow> string option"
  state_hmac :: "string \<Rightarrow> string \<Rightarrow> u64 \<Rightarrow> string option"
  event_hmac :: "AuditEventRecord \<Rightarrow> string option"
  now_text :: "nat \<Rightarrow> string option"
  random_hex :: "nat \<Rightarrow> string option"
  configured :: "nat \<Rightarrow> (ControlError, Currency) result"

record money_world =
  mw_store :: store
  others :: "money_op list list"
  ticks :: nat

type_synonym 'a control = "(money_world, ControlError, 'a) act"

text \<open>A storage call, after what others did meanwhile.\<close>

definition on_storage :: "money_env \<Rightarrow> 'a call \<Rightarrow> 'a control" where
  "on_storage E m w =
     (let st = fold (run_money_op (json_object_of E)) (concat (take 1 (others w))) (mw_store w) in
      case m st of (r, st') \<Rightarrow> (map_err StorageFailure r, w\<lparr>mw_store := st', others := tl (others w)\<rparr>))"

definition format_now :: "money_env \<Rightarrow> string control" where
  "format_now E w = (ok_or (now_text E (ticks w)) DataIntegrityInvalid, w\<lparr>ticks := ticks w + 1\<rparr>)"

definition random_identifier :: "money_env \<Rightarrow> string \<Rightarrow> string control" where
  "random_identifier E pre w =
     (and_then (ok_or (random_hex E (ticks w)) RandomnessUnavailable) (\<lambda>r. Inr (pre @ ''_'' @ r)),
      w\<lparr>ticks := ticks w + 1\<rparr>)"

text \<open>The settlement currency of the billing configuration, or why it cannot be read.\<close>

definition billing_configuration :: "money_env \<Rightarrow> Currency control" where
  "billing_configuration E w = (configured E (ticks w), w\<lparr>ticks := ticks w + 1\<rparr>)"

fun currency_code :: "Currency \<Rightarrow> string" where
  "currency_code Cny = ''CNY''"
| "currency_code Usd = ''USD''"

section \<open>Message codes and verification\<close>

definition MONEY_BALANCE_INTEGRITY_KEY :: string where
  "MONEY_BALANCE_INTEGRITY_KEY = ''money-balance-v1''"

definition MONEY_LEDGER_INTEGRITY_KEY :: string where
  "MONEY_LEDGER_INTEGRITY_KEY = ''money-ledger-entry-v1''"

definition u64_revision :: "int \<Rightarrow> (ControlError, u64) result" where
  "u64_revision r = (if 0 \<le> r \<and> r < 2 ^ 64 then Inr (of_int r) else Inl DataIntegrityInvalid)"

text \<open>The payload leaves the code itself out.\<close>

definition money_balance_integrity_hmac :: "money_env \<Rightarrow> MoneyBalanceRecord \<Rightarrow> (ControlError, string) result" where
  "money_balance_integrity_hmac E b =
     and_then (ok_or (balance_payload E (b\<lparr>mb_hmac := [], mb_revision := 0\<rparr>)) DataIntegrityInvalid) (\<lambda>value.
     and_then (u64_revision (mb_revision b)) (\<lambda>r.
     ok_or (state_hmac E MONEY_BALANCE_INTEGRITY_KEY value r) AuthFailure))"

definition money_ledger_integrity_hmac :: "money_env \<Rightarrow> MoneyLedgerEntry \<Rightarrow> (ControlError, string) result" where
  "money_ledger_integrity_hmac E e =
     and_then (ok_or (entry_payload E (e\<lparr>ml_hmac := []\<rparr>)) DataIntegrityInvalid) (\<lambda>value.
     and_then (u64_revision (balance_revision e)) (\<lambda>r.
     ok_or (state_hmac E MONEY_LEDGER_INTEGRITY_KEY value r) AuthFailure))"

fun xor_fold :: "8 word \<Rightarrow> string \<Rightarrow> string \<Rightarrow> 8 word" where
  "xor_fold d (a # as) (b # bs) = xor_fold (or d (xor (of_nat (byte_of a)) (of_nat (byte_of b)))) as bs"
| "xor_fold d _ _ = d"

definition constant_time_string_eq :: "string \<Rightarrow> string \<Rightarrow> bool" where
  "constant_time_string_eq l r \<longleftrightarrow> length l = length r \<and> xor_fold 0 l r = 0"

definition reconstructed_next :: "MoneyBalanceRecord \<Rightarrow> MoneyLedgerEntry \<Rightarrow> (ControlError, MoneyBalanceRecord) result" where
  "reconstructed_next b e =
     and_then (if amount_nanos e < 0 then ok_or (fit_i64 (- amount_nanos e)) DataIntegrityInvalid else Inr 0) (\<lambda>debit.
     and_then (ok_or (fit_i64 (balance_nanos b + amount_nanos e)) DataIntegrityInvalid) (\<lambda>balance.
     and_then (ok_or (fit_i64 (credited_nanos b + max (amount_nanos e) 0)) DataIntegrityInvalid) (\<lambda>credit.
     and_then (ok_or (fit_i64 (debited_nanos b + debit)) DataIntegrityInvalid) (\<lambda>debited.
     and_then (ok_or (fit_i64 (mb_revision b + 1)) DataIntegrityInvalid) (\<lambda>r.
     Inr \<lparr>mb_identity = mb_identity b, mb_currency = mb_currency b, balance_nanos = balance,
          credited_nanos = credit, debited_nanos = debited, mb_revision = r,
          last_ledger_hmac = ml_hmac e, mb_hmac = ''verified'', mb_updated_at = ml_created_at e\<rparr>)))))"

fun reconstruct :: "money_env \<Rightarrow> MoneyBalanceRecord \<Rightarrow> MoneyLedgerEntry list \<Rightarrow> (ControlError, MoneyBalanceRecord) result" where
  "reconstruct E b [] = Inr b"
| "reconstruct E b (e # es) =
     and_then (reconstructed_next b e) (\<lambda>n.
     and_then (money_ledger_integrity_hmac E e) (\<lambda>expected.
       if \<not> valid_money_transition (json_object_of E) b n e \<or> \<not> constant_time_string_eq expected (ml_hmac e)
       then Inl DataIntegrityInvalid
       else reconstruct E n es))"

definition reconstruction_start :: "MoneyBalanceRecord \<Rightarrow> MoneyBalanceRecord" where
  "reconstruction_start b =
     \<lparr>mb_identity = mb_identity b, mb_currency = mb_currency b, balance_nanos = 0, credited_nanos = 0,
      debited_nanos = 0, mb_revision = 0, last_ledger_hmac = [], mb_hmac = ''verified'',
      mb_updated_at = mb_updated_at b\<rparr>"

definition verify_money_state_snapshot :: "money_env \<Rightarrow> MoneyStateSnapshot \<Rightarrow> (ControlError, unit) result" where
  "verify_money_state_snapshot E s =
     (let b = snap_balance s in
      and_then (reconstruct E (reconstruction_start b) (ledger_entries s)) (\<lambda>c.
      and_then (money_balance_integrity_hmac E b) (\<lambda>expected.
        if mb_identity c \<noteq> mb_identity b \<or> mb_currency c \<noteq> mb_currency b \<or> balance_nanos c \<noteq> balance_nanos b
           \<or> credited_nanos c \<noteq> credited_nanos b \<or> debited_nanos c \<noteq> debited_nanos b
           \<or> mb_revision c \<noteq> mb_revision b \<or> last_ledger_hmac c \<noteq> last_ledger_hmac b
           \<or> \<not> constant_time_string_eq expected (mb_hmac b)
        then Inl DataIntegrityInvalid else Inr ())))"

section \<open>Posting an entry\<close>

definition member_money_balance :: "money_env \<Rightarrow> string \<Rightarrow> MoneyBalanceRecord control" where
  "member_money_balance E identity =
     act_bind (billing_configuration E) (\<lambda>settlement.
     let currency = currency_code settlement in
     act_bind (on_storage E (money_state_snapshot identity)) (\<lambda>found.
       case found of
         Some s \<Rightarrow>
           act_bind (act_lift (verify_money_state_snapshot E s)) (\<lambda>_.
           act_bind (act_guard (mb_currency (snap_balance s) = currency) DataIntegrityInvalid) (\<lambda>_.
           act_ret (snap_balance s)))
       | None \<Rightarrow>
           act_bind (format_now E) (\<lambda>updated.
           let unsigned = \<lparr>mb_identity = identity, mb_currency = currency, balance_nanos = 0, credited_nanos = 0,
                 debited_nanos = 0, mb_revision = 0, last_ledger_hmac = [], mb_hmac = [], mb_updated_at = updated\<rparr> in
           act_bind (act_lift (money_balance_integrity_hmac E unsigned)) (\<lambda>hmac.
           let initial = unsigned\<lparr>mb_hmac := hmac\<rparr> in
           act_bind (on_storage E (initialize_money_balance initial)) (\<lambda>created.
             if created then act_ret initial
             else
               act_bind (on_storage E (money_state_snapshot identity)) (\<lambda>again.
               act_bind (act_lift (ok_or again DataIntegrityInvalid)) (\<lambda>s.
               act_bind (act_lift (verify_money_state_snapshot E s)) (\<lambda>_.
               act_bind (act_guard (mb_currency (snap_balance s) = currency) DataIntegrityInvalid) (\<lambda>_.
               act_ret (snap_balance s))))))))))"

record actor_record =
  actor_id :: string
  actor_role_of :: string

definition prepare_audit_event ::
    "money_env \<Rightarrow> actor_record option \<Rightarrow> string \<Rightarrow> string \<Rightarrow> string option \<Rightarrow> string
      \<Rightarrow> (u64 \<times> string \<times> AuditEventRecord) control" where
  "prepare_audit_event E actor action kind target result_text =
     act_bind (format_now E) (\<lambda>created.
     act_bind (on_storage E (query (\<lambda>db. audit_tail (audit_events db)))) (\<lambda>tail.
     let position = (case tail of None \<Rightarrow> (0, []) | Some e \<Rightarrow> (ae_sequence e, ae_hmac e)) in
     act_bind (act_lift (ok_or (checked_add (fst position) 1) DataIntegrityInvalid)) (\<lambda>sequence.
     act_bind (random_identifier E ''audit'') (\<lambda>rid.
     let event = \<lparr>ae_id = rid, ae_sequence = sequence, actor_identity_id = map_option actor_id actor,
           actor_role = (case actor of None \<Rightarrow> ''system'' | Some a \<Rightarrow> actor_role_of a), ae_action = action,
           target_type = kind, target_id = target, ae_outcome = result_text,
           previous_event_hmac = snd position, ae_hmac = [], ae_created_at = created\<rparr> in
     act_bind (act_lift (ok_or (event_hmac E event) AuthFailure)) (\<lambda>hmac.
     act_ret (fst position, snd position, event\<lparr>ae_hmac := hmac\<rparr>))))))"

definition QUOTA_MUTATION_RETRIES :: nat where
  "QUOTA_MUTATION_RETRIES = 4"

definition entry_status :: "string \<Rightarrow> string" where
  "entry_status kind =
     (if kind = ''charge'' then ''charged'' else if kind = ''anomaly'' then ''billing_error'' else ''not_applicable'')"

definition entry_action :: "string \<Rightarrow> string" where
  "entry_action kind =
     (if kind = ''charge'' then ''billing.money.charge'' else if kind = ''anomaly'' then ''billing.money.anomaly''
      else if kind = ''request_failed'' then ''billing.money.request_failed'' else ''billing.money.grant'')"

text \<open>The entry and the balance of a new posting, with their message codes.\<close>

definition signed_entry ::
    "money_env \<Rightarrow> MoneyBalanceRecord \<Rightarrow> int \<Rightarrow> string \<Rightarrow> string \<Rightarrow> string \<Rightarrow> int \<Rightarrow> string \<Rightarrow> string \<Rightarrow> string
      \<Rightarrow> (ControlError, MoneyLedgerEntry) result" where
  "signed_entry E b r eid identity kind amount reference details created =
     (let e = \<lparr>ml_id = eid, ml_identity = identity, ml_currency = mb_currency b, ml_kind = kind,
          amount_nanos = amount, balance_revision = r, reference_id = reference,
          billing_status = entry_status kind, details_json = details,
          previous_entry_hmac = last_ledger_hmac b, ml_hmac = [], ml_created_at = created\<rparr> in
      and_then (money_ledger_integrity_hmac E e) (\<lambda>hmac. Inr (e\<lparr>ml_hmac := hmac\<rparr>)))"

definition signed_next ::
    "money_env \<Rightarrow> MoneyBalanceRecord \<Rightarrow> int \<Rightarrow> int \<Rightarrow> string \<Rightarrow> string \<Rightarrow> (ControlError, MoneyBalanceRecord) result" where
  "signed_next E b r amount ledger created =
     and_then (if amount < 0 then ok_or (fit_i64 (- amount)) DataIntegrityInvalid else Inr 0) (\<lambda>debit.
     and_then (ok_or (fit_i64 (balance_nanos b + amount)) DataIntegrityInvalid) (\<lambda>balance.
     and_then (ok_or (fit_i64 (credited_nanos b + max amount 0)) DataIntegrityInvalid) (\<lambda>credit.
     and_then (ok_or (fit_i64 (debited_nanos b + debit)) DataIntegrityInvalid) (\<lambda>debited.
     let n = b\<lparr>balance_nanos := balance, credited_nanos := credit, debited_nanos := debited, mb_revision := r,
           last_ledger_hmac := ledger, mb_hmac := [], mb_updated_at := created\<rparr> in
     and_then (money_balance_integrity_hmac E n) (\<lambda>hmac. Inr (n\<lparr>mb_hmac := hmac\<rparr>))))))"

text \<open>Posting an entry no earlier entry refers to: the new balance, or nothing when the store changed.\<close>

definition append_new ::
    "money_env \<Rightarrow> string \<Rightarrow> string \<Rightarrow> int \<Rightarrow> string \<Rightarrow> string \<Rightarrow> actor_record option \<Rightarrow> MoneyBalanceRecord
      \<Rightarrow> MoneyBalanceRecord option control" where
  "append_new E identity kind amount reference details actor b =
     act_bind (format_now E) (\<lambda>created.
     act_bind (act_lift (ok_or (fit_i64 (mb_revision b + 1)) DataIntegrityInvalid)) (\<lambda>r.
     act_bind (random_identifier E ''money'') (\<lambda>eid.
     act_bind (act_lift (signed_entry E b r eid identity kind amount reference details created)) (\<lambda>e.
     act_bind (act_lift (signed_next E b r amount (ml_hmac e) created)) (\<lambda>n.
     act_bind (prepare_audit_event E actor (entry_action kind) ''money_balance'' (Some identity) ''succeeded'') (\<lambda>audit.
     act_bind (on_storage E (write_money_entry_with_audit (json_object_of E) b n e
         (fst audit) (fst (snd audit)) (snd (snd audit)))) (\<lambda>outcome.
       act_ret (if outcome = Mutation Applied then Some n else None))))))))"

text \<open>One round of the retry loop: a balance to return, or nothing to try again.\<close>

definition append_attempt ::
    "money_env \<Rightarrow> string \<Rightarrow> string \<Rightarrow> int \<Rightarrow> string \<Rightarrow> string \<Rightarrow> actor_record option
      \<Rightarrow> MoneyBalanceRecord option control" where
  "append_attempt E identity kind amount reference details actor =
     act_bind (member_money_balance E identity) (\<lambda>_.
     act_bind (on_storage E (money_state_snapshot identity)) (\<lambda>found.
     act_bind (act_lift (ok_or found DataIntegrityInvalid)) (\<lambda>s.
     act_bind (act_lift (verify_money_state_snapshot E s)) (\<lambda>_.
     let b = snap_balance s in
     case find (\<lambda>e. reference_id e = reference) (ledger_entries s) of
       Some e \<Rightarrow>
         if ml_kind e = kind \<and> amount_nanos e = amount \<and> details_json e = details
            \<and> billing_status e = entry_status kind
         then act_ret (Some b) else act_fail DuplicateGatewayRequest
     | None \<Rightarrow>
         append_new E identity kind amount reference details actor b))))"

fun append_loop ::
    "money_env \<Rightarrow> string \<Rightarrow> string \<Rightarrow> int \<Rightarrow> string \<Rightarrow> string \<Rightarrow> actor_record option \<Rightarrow> nat
      \<Rightarrow> MoneyBalanceRecord control" where
  "append_loop E identity kind amount reference details actor 0 = act_fail QuotaSettlementConflict"
| "append_loop E identity kind amount reference details actor (Suc k) =
     act_bind (append_attempt E identity kind amount reference details actor) (\<lambda>r.
       case r of
         Some b \<Rightarrow> act_ret b
       | None \<Rightarrow> append_loop E identity kind amount reference details actor k)"

definition append_money_entry ::
    "money_env \<Rightarrow> string \<Rightarrow> string \<Rightarrow> int \<Rightarrow> string \<Rightarrow> string \<Rightarrow> actor_record option
      \<Rightarrow> MoneyBalanceRecord control" where
  "append_money_entry E identity kind amount reference details actor =
     (if \<not> (1 \<le> length reference \<and> length reference \<le> 160)
         \<or> \<not> (kind = ''grant'' \<and> 0 < amount \<or> kind = ''charge'' \<and> amount \<le> 0
               \<or> kind = ''anomaly'' \<and> amount = 0 \<or> kind = ''request_failed'' \<and> amount = 0)
         \<or> \<not> json_object_of E details
      then act_fail UsageSettlementInvalid
      else append_loop E identity kind amount reference details actor QUOTA_MUTATION_RETRIES)"

section \<open>Settlement\<close>

record FrozenBillingContext =
  selected_price :: SelectedPrice
  settlement_currency :: Currency
  usd_to_cny :: "ExchangeRate option"
  selected_at :: string
  reference_nanos :: int

definition frozen_convert :: "FrozenBillingContext \<Rightarrow> Money \<Rightarrow> (ControlError, Money) result" where
  "frozen_convert f source =
     (if m_currency source = settlement_currency f then Inr source
      else and_then (ok_or (usd_to_cny f) BillingPriceUnavailable) (\<lambda>rate.
           if m_currency source = Usd \<and> settlement_currency f = Cny
           then map_err (\<lambda>_. BillingCalculationInvalid) (ExchangeRate_convert rate source)
           else if m_currency source = Cny \<and> settlement_currency f = Usd
           then map_err (\<lambda>_. BillingCalculationInvalid) (ExchangeRate_convert_reverse rate source)
           else Inl BillingPriceUnavailable))"

definition settled_amount :: "FrozenBillingContext \<Rightarrow> VerifiedUsage \<Rightarrow> (ControlError, string \<times> int \<times> string) result" where
  "settled_amount f usage =
     (case and_then (map_err (\<lambda>_. BillingCalculationInvalid) (SelectedPrice_charge (selected_price f) usage)) (frozen_convert f) of
        Inr m \<Rightarrow>
          if 0 \<le> nanos m
          then and_then (ok_or (fit_i64 (- nanos m)) BillingCalculationInvalid) (\<lambda>n. Inr (''charge'', n, ''priced''))
          else Inr (''anomaly'', 0, ''billing_error'')
      | Inl _ \<Rightarrow> Inr (''anomaly'', 0, ''billing_error''))"

text \<open>The details are the JSON text of the frozen price, the model, the usage and the status.\<close>

definition settle_member_money ::
    "money_env \<Rightarrow> (FrozenBillingContext \<Rightarrow> VerifiedUsage \<Rightarrow> string \<Rightarrow> string \<Rightarrow> string option) \<Rightarrow> string \<Rightarrow> string
      \<Rightarrow> FrozenBillingContext \<Rightarrow> VerifiedUsage \<Rightarrow> string \<Rightarrow> MoneyBalanceRecord control" where
  "settle_member_money E details_of identity request f usage actual_model =
     act_bind (act_lift (settled_amount f usage)) (\<lambda>(kind, amount, status).
     act_bind (act_lift (ok_or (details_of f usage actual_model status) DataIntegrityInvalid)) (\<lambda>details.
     append_money_entry E identity kind amount request details None))"

section \<open>Verification is sound\<close>

lemma byte_word_inj: "(of_nat (byte_of a) :: 8 word) = of_nat (byte_of b) \<longleftrightarrow> a = b"
proof -
  have "unat (of_nat (byte_of c) :: 8 word) = byte_of c" for c
    by (simp add: unat_of_nat byte_of_def)
  then show ?thesis by (metis byte_of_def of_char_eq_iff)
qed

lemma xor_zero: "xor a b = (0 :: 'a::len word) \<longleftrightarrow> a = b"
proof
  assume "xor a b = 0"
  then have "xor (xor a b) b = b" by simp
  then show "a = b" by (simp add: xor.assoc)
qed simp

lemma xor_fold_0: "length l = length r \<Longrightarrow> xor_fold d l r = 0 \<longleftrightarrow> d = 0 \<and> l = r"
proof (induction d l r rule: xor_fold.induct)
  case (1 d a as b bs)
  have "or d (xor (of_nat (byte_of a)) (of_nat (byte_of b))) = (0 :: 8 word) \<longleftrightarrow> d = 0 \<and> a = b"
    using byte_word_inj [of a b] by (auto simp: or_eq_0_iff xor_zero)
  with 1 show ?case by auto
qed auto

lemma constant_time_eq [simp]: "constant_time_string_eq l r \<longleftrightarrow> l = r"
  by (auto simp: constant_time_string_eq_def xor_fold_0)

lemma reconstruct_reconciles:
  assumes "reconstruct E c es = Inr c'" "reconciles c ds"
  shows "reconciles c' (ds @ es) \<and> mb_identity c' = mb_identity c \<and> mb_currency c' = mb_currency c
    \<and> list_all (\<lambda>e. ml_identity e = mb_identity c \<and> money_ledger_integrity_hmac E e = Inr (ml_hmac e)) es"
  using assms
proof (induction es arbitrary: c ds)
  case (Cons e es)
  from Cons.prems(1) obtain n where n: "reconstructed_next c e = Inr n"
    and h: "money_ledger_integrity_hmac E e = Inr (ml_hmac e)"
    and valid: "valid_money_transition (json_object_of E) c n e" and rest: "reconstruct E n es = Inr c'"
    by (auto simp: result_simps split: if_splits)
  have "mb_identity n = mb_identity c" "mb_currency n = mb_currency c" "ml_identity e = mb_identity c"
    using valid by (auto simp: valid_money_transition_def)
  with Cons.IH [OF rest transition_reconciles [OF valid Cons.prems(2)]] h show ?case by auto
qed simp

lemma reconstruction_start_reconciles: "reconciles (reconstruction_start b) []"
  by (simp add: reconciles_def reconstruction_start_def)

lemma verify_sound:
  assumes "verify_money_state_snapshot E s = Inr ()"
  shows "reconciles (snap_balance s) (ledger_entries s)
    \<and> list_all (\<lambda>e. ml_identity e = mb_identity (snap_balance s)
         \<and> money_ledger_integrity_hmac E e = Inr (ml_hmac e)) (ledger_entries s)
    \<and> money_balance_integrity_hmac E (snap_balance s) = Inr (mb_hmac (snap_balance s))"
proof -
  let ?b = "snap_balance s"
  from assms obtain c where c: "reconstruct E (reconstruction_start ?b) (ledger_entries s) = Inr c"
    and f: "mb_currency c = mb_currency ?b" "balance_nanos c = balance_nanos ?b" "credited_nanos c = credited_nanos ?b"
      "debited_nanos c = debited_nanos ?b" "mb_revision c = mb_revision ?b" "last_ledger_hmac c = last_ledger_hmac ?b"
    and h: "money_balance_integrity_hmac E ?b = Inr (mb_hmac ?b)"
    by (auto simp: verify_money_state_snapshot_def Let_def result_simps split: if_splits)
  from reconstruct_reconciles [OF c reconstruction_start_reconciles] f h show ?thesis
    by (simp add: reconciles_def) (simp add: reconstruction_start_def)
qed

section \<open>Posting exactly once\<close>

text \<open>Whatever a control call and the others do, the ledger only grows.\<close>

named_theorems grows_intros \<open>control calls under which the ledger grows\<close>

definition act_grows :: "'a control \<Rightarrow> bool" where
  "act_grows m \<longleftrightarrow> (\<forall>w. ledger_grows (tables (mw_store w)) (tables (mw_store (snd (m w)))))"

lemma act_growsD: "act_grows m \<Longrightarrow> m w = (r, w') \<Longrightarrow> ledger_grows (tables (mw_store w)) (tables (mw_store w'))"
  unfolding act_grows_def by (metis snd_conv)

lemma grows_pure [grows_intros]:
  "act_grows (act_ret a)" "act_grows (act_fail e)" "act_grows (act_lift r)"
  by (simp_all add: act_grows_def act_defs)

lemma grows_readings [grows_intros]:
  "act_grows (act_guard b e)" "act_grows (format_now E)" "act_grows (random_identifier E pre)"
  "act_grows (billing_configuration E)"
  by (simp_all add: act_grows_def act_defs format_now_def random_identifier_def billing_configuration_def)

lemma grows_bind [grows_intros]:
  assumes "act_grows m" "\<And>a. act_grows (f a)"
  shows "act_grows (act_bind m f)"
  unfolding act_grows_def
proof
  fix w
  obtain r w1 where m: "m w = (r, w1)" by (cases "m w")
  obtain x w2 where "act_bind m f w = (x, w2)" by (cases "act_bind m f w")
  with m act_growsD [OF assms(1) m] act_growsD [OF assms(2)]
  show "ledger_grows (tables (mw_store w)) (tables (mw_store (snd (act_bind m f w))))"
    by (cases r) (auto simp: act_bind_def intro: grows_trans)
qed

lemma grows_storage:
  assumes "\<And>st. ledger_grows (tables st) (tables (snd (m st)))"
  shows "act_grows (on_storage E m)"
  unfolding act_grows_def
proof
  fix w :: money_world
  let ?st = "fold (run_money_op (json_object_of E)) (concat (take 1 (others w))) (mw_store w)"
  from grows_trans [OF history_grows assms [of ?st]]
  show "ledger_grows (tables (mw_store w)) (tables (mw_store (snd (on_storage E m w))))"
    by (simp add: on_storage_def Let_def case_prod_beta)
qed

lemma snapshot_tables:
  "money_state_snapshot identity st = (r, st') \<Longrightarrow> tables st' = tables st
     \<and> (\<forall>s. r = Inr (Some s) \<longrightarrow> set (ledger_entries s) = set (entries_of identity (tables st)))"
  by (auto simp: money_state_snapshot_def act_bind_def act_ret_def dest!: query_result
      split: prod.splits sum.splits option.splits)

lemma grows_calls [grows_intros]:
  "act_grows (on_storage E (money_state_snapshot identity))"
  "act_grows (on_storage E (query f))"
  "act_grows (on_storage E (initialize_money_balance b))"
  "act_grows (on_storage E (write_money_entry_with_audit json_object x n e s h ev))"
proof -
  show "act_grows (on_storage E (money_state_snapshot identity))"
  proof (rule grows_storage)
    show "ledger_grows (tables st) (tables (snd (money_state_snapshot identity st)))" for st
      using snapshot_tables [of identity st] by (cases "money_state_snapshot identity st") simp
  qed
  show "act_grows (on_storage E (query f))"
  proof (rule grows_storage)
    show "ledger_grows (tables st) (tables (snd (query f st)))" for st
      using query_result [of f st] by (cases "query f st") simp
  qed
qed (intro grows_storage; simp add: init_ledger write_grows)+

lemma grows_prepare [grows_intros]: "act_grows (prepare_audit_event E actor action kind target result_text)"
  unfolding prepare_audit_event_def Let_def by (intro grows_intros)

lemma grows_balance [grows_intros]: "act_grows (member_money_balance E identity)"
  unfolding member_money_balance_def Let_def
  by (intro grows_intros) (auto intro!: grows_intros split: option.splits)

text \<open>A posting of the reference with what was asked for.\<close>

definition posted_as :: "string \<Rightarrow> string \<Rightarrow> int \<Rightarrow> string \<Rightarrow> string \<Rightarrow> MoneyLedgerEntry \<Rightarrow> bool" where
  "posted_as identity kind amount reference details e \<longleftrightarrow> ml_identity e = identity \<and> reference_id e = reference
     \<and> ml_kind e = kind \<and> amount_nanos e = amount \<and> details_json e = details \<and> billing_status e = entry_status kind"

lemma on_storage_Inr:
  assumes "on_storage E m w = (Inr a, w')"
  obtains st where "m st = (Inr a, mw_store w')"
  using assms by (auto simp: on_storage_def Let_def result_simps split: prod.splits)

lemma signed_entry_posted:
  "signed_entry E b r eid identity kind amount reference details created = Inr e \<Longrightarrow>
     posted_as identity kind amount reference details e"
  by (auto simp: signed_entry_def Let_def result_simps posted_as_def)

lemma written_entry:
  assumes "write_money_entry_with_audit json_object x n e s h ev st = (Inr (Mutation Applied), st')"
  shows "e \<in> set (money_ledger (tables st'))"
  using money_write_outcome [where json_object = json_object and x = x and n = n and e = e and s = s and h = h
      and ev = ev and st = st] assms by auto

lemma append_new_posts:
  assumes "append_new E identity kind amount reference details actor b w = (Inr (Some n), w')"
  shows "\<exists>e\<in>set (money_ledger (tables (mw_store w'))). posted_as identity kind amount reference details e"
proof -
  from assms obtain r eid created e n' audit w3 where
      e: "signed_entry E b r eid identity kind amount reference details created = Inr e"
      and wr: "on_storage E (write_money_entry_with_audit (json_object_of E) b n' e
         (fst audit) (fst (snd audit)) (snd (snd audit))) w3 = (Inr (Mutation Applied), w')"
    unfolding append_new_def bind_Inr
    by (elim exE conjE) (simp add: pure_Inr act_lift_def split: if_splits)
  from wr obtain st where "write_money_entry_with_audit (json_object_of E) b n' e
         (fst audit) (fst (snd audit)) (snd (snd audit)) st = (Inr (Mutation Applied), mw_store w')"
    by (rule on_storage_Inr)
  with written_entry signed_entry_posted [OF e] show ?thesis by blast
qed

lemma grows_new [grows_intros]: "act_grows (append_new E identity kind amount reference details actor b)"
  unfolding append_new_def by (intro grows_intros)

lemma attempt_posts:
  assumes "append_attempt E identity kind amount reference details actor w = (Inr (Some b), w')"
  shows "\<exists>e\<in>set (money_ledger (tables (mw_store w'))). posted_as identity kind amount reference details e"
proof -
  from assms obtain w1 s w2 where snap: "on_storage E (money_state_snapshot identity) w1 = (Inr (Some s), w2)"
    and k: "(case find (\<lambda>e. reference_id e = reference) (ledger_entries s) of
       Some e \<Rightarrow>
         if ml_kind e = kind \<and> amount_nanos e = amount \<and> details_json e = details
            \<and> billing_status e = entry_status kind
         then act_ret (Some (snap_balance s)) else act_fail DuplicateGatewayRequest
     | None \<Rightarrow> append_new E identity kind amount reference details actor (snap_balance s)) w2 = (Inr (Some b), w')"
    unfolding append_attempt_def Let_def by (auto simp: bind_Inr act_lift_def result_simps)
  show ?thesis
  proof (cases "find (\<lambda>e. reference_id e = reference) (ledger_entries s)")
    case None
    with k show ?thesis by (auto intro: append_new_posts)
  next
    case (Some e)
    with k have w: "w' = w2" and e: "ml_kind e = kind" "amount_nanos e = amount" "details_json e = details"
        "billing_status e = entry_status kind" by (auto simp: pure_Inr split: if_splits)
    from Some have "e \<in> set (ledger_entries s)" "reference_id e = reference"
      by (auto simp: find_Some_iff in_set_conv_nth)
    moreover from snap obtain st where "money_state_snapshot identity st = (Inr (Some s), mw_store w2)"
      by (rule on_storage_Inr)
    ultimately show ?thesis
      using snapshot_tables [of identity st "Inr (Some s)" "mw_store w2"] e w
      by (auto simp: entries_of_def posted_as_def)
  qed
qed

lemma grows_attempt [grows_intros]:
  "act_grows (append_attempt E identity kind amount reference details actor)"
  unfolding append_attempt_def Let_def
  by (intro grows_intros) (auto intro!: grows_intros split: option.splits)

lemma append_loop_posts:
  assumes "append_loop E identity kind amount reference details actor k w = (Inr b, w')"
  shows "ledger_grows (tables (mw_store w)) (tables (mw_store w'))
    \<and> (\<exists>e\<in>set (money_ledger (tables (mw_store w'))). posted_as identity kind amount reference details e)"
  using assms
proof (induction k arbitrary: w)
  case (Suc k)
  then obtain r w1 where a: "append_attempt E identity kind amount reference details actor w = (Inr r, w1)"
    and k: "(case r of Some b \<Rightarrow> act_ret b
      | None \<Rightarrow> append_loop E identity kind amount reference details actor k) w1 = (Inr b, w')"
    by (auto simp: bind_Inr)
  note g = act_growsD [OF grows_attempt a]
  show ?case
  proof (cases r)
    case None
    with k Suc.IH [of w1] g show ?thesis by (auto intro: grows_trans)
  next
    case (Some b')
    with k a attempt_posts [of E identity kind amount reference details actor w b' w1] g
    show ?thesis by (auto simp: pure_Inr)
  qed
qed (simp add: pure_Inr)

text \<open>With unique references, the entry is the only one of its reference.\<close>

lemma unique_posting:
  assumes "refs_distinct db" "e \<in> set (money_ledger db)" "posted_as identity kind amount reference details e"
  shows "filter (\<lambda>e. ml_identity e = identity \<and> reference_id e = reference) (money_ledger db) = [e]"
proof -
  from assms(2) obtain xs ys where l: "money_ledger db = xs @ e # ys" by (auto dest: split_list)
  let ?P = "\<lambda>e. ml_identity e = identity \<and> reference_id e = reference"
  have "filter ?P xs = []" "filter ?P ys = []"
    using assms(1,3) l by (auto simp: refs_distinct_def posted_as_def filter_empty_conv image_iff)
  with l assms(3) show ?thesis by (simp add: posted_as_def)
qed

section \<open>Verification accepts what storage wrote\<close>

definition same_money :: "MoneyBalanceRecord \<Rightarrow> MoneyBalanceRecord \<Rightarrow> bool" where
  "same_money c b \<longleftrightarrow> mb_identity c = mb_identity b \<and> mb_currency c = mb_currency b
     \<and> balance_nanos c = balance_nanos b \<and> credited_nanos c = credited_nanos b
     \<and> debited_nanos c = debited_nanos b \<and> mb_revision c = mb_revision b
     \<and> last_ledger_hmac c = last_ledger_hmac b"

definition genuine_entry :: "money_env \<Rightarrow> MoneyLedgerEntry \<Rightarrow> bool" where
  "genuine_entry E e \<longleftrightarrow> money_ledger_integrity_hmac E e = Inr (ml_hmac e)"

definition genuine_balance :: "money_env \<Rightarrow> MoneyBalanceRecord \<Rightarrow> bool" where
  "genuine_balance E b \<longleftrightarrow> money_balance_integrity_hmac E b = Inr (mb_hmac b)"

text \<open>The reconstruction succeeds, whatever time it starts from, and ends in the balance.\<close>

definition verifiable :: "money_env \<Rightarrow> MoneyBalanceRecord \<Rightarrow> MoneyLedgerEntry list \<Rightarrow> bool" where
  "verifiable E b es \<longleftrightarrow> (\<forall>u. \<exists>c. reconstruct E ((reconstruction_start b)\<lparr>mb_updated_at := u\<rparr>) es = Inr c
     \<and> same_money c b \<and> mb_hmac c \<noteq> [])"

lemma reconstruct_snoc:
  "reconstruct E c (es @ [e]) = and_then (reconstruct E c es) (\<lambda>d. reconstruct E d [e])"
proof (induction es arbitrary: c)
  case (Cons x es)
  then show ?case by (cases "reconstructed_next c x"; cases "money_ledger_integrity_hmac E x") simp_all
qed simp

lemma reconstruct_step:
  assumes "valid_money_transition (json_object_of E) b n e" "genuine_entry E e" "same_money c b" "mb_hmac c \<noteq> []"
  shows "\<exists>c'. reconstruct E c [e] = Inr c' \<and> same_money c' n \<and> mb_hmac c' \<noteq> []"
proof -
  let ?c = "n\<lparr>mb_hmac := ''verified'', mb_updated_at := ml_created_at e\<rparr>"
  have neg: "fit_i64 (- amount_nanos e) = Some (- amount_nanos e)"
    using assms(1) by (auto simp: valid_money_transition_def fit_i64_def split: option.splits if_splits)
  then have sums: "fit_i64 (balance_nanos c + amount_nanos e) = Some (balance_nanos n)"
      "fit_i64 (credited_nanos c + max (amount_nanos e) 0) = Some (credited_nanos n)"
      "fit_i64 (debited_nanos c + max (- amount_nanos e) 0) = Some (debited_nanos n)"
      "fit_i64 (mb_revision c + 1) = Some (mb_revision n)"
    using assms(1,3) by (simp_all add: valid_money_transition_def same_money_def)
  have fields: "mb_identity c = mb_identity n" "mb_currency c = mb_currency n" "ml_hmac e = last_ledger_hmac n"
    using assms(1,3) by (simp_all add: valid_money_transition_def same_money_def)
  have "reconstructed_next c e = Inr ?c"
    using neg sums fields by (cases "amount_nanos e < 0") (simp_all add: reconstructed_next_def)
  moreover have "valid_money_transition (json_object_of E) c ?c e"
    using assms(1,3,4) neg sums by (auto simp: valid_money_transition_def same_money_def)
  ultimately show ?thesis using assms(2) by (simp add: genuine_entry_def same_money_def)
qed

interpretation verified: ledger_invariant "json_object_of E" "verifiable E" "genuine_entry E" for E
proof unfold_locales
  fix b n e es
  assume valid: "valid_money_transition (json_object_of E) b n e" and gen: "genuine_entry E e"
    and ver: "verifiable E b es"
  have start: "reconstruction_start n\<lparr>mb_updated_at := u\<rparr> = reconstruction_start b\<lparr>mb_updated_at := u\<rparr>" for u
    using valid by (simp add: reconstruction_start_def valid_money_transition_def)
  show "verifiable E n (es @ [e])"
    unfolding verifiable_def
  proof
    fix u
    from ver obtain c where "reconstruct E (reconstruction_start b\<lparr>mb_updated_at := u\<rparr>) es = Inr c"
      "same_money c b" "mb_hmac c \<noteq> []" by (auto simp: verifiable_def)
    with reconstruct_step [OF valid gen]
    show "\<exists>c. reconstruct E ((reconstruction_start n)\<lparr>mb_updated_at := u\<rparr>) (es @ [e]) = Inr c
        \<and> same_money c n \<and> mb_hmac c \<noteq> []"
      by (auto simp: reconstruct_snoc start)
  qed
qed (simp add: verifiable_def same_money_def reconstruction_start_def valid_initial_money_balance_def)

lemma verifiable_verifies:
  assumes "verifiable E b es" "genuine_balance E b"
  shows "verify_money_state_snapshot E \<lparr>snap_balance = b, ledger_entries = es\<rparr> = Inr ()"
proof -
  have "reconstruction_start b\<lparr>mb_updated_at := mb_updated_at b\<rparr> = reconstruction_start b"
    by (simp add: reconstruction_start_def)
  with assms obtain c where "reconstruct E (reconstruction_start b) es = Inr c" "same_money c b"
    by (metis verifiable_def)
  with assms(2) show ?thesis by (simp add: verify_money_state_snapshot_def same_money_def genuine_balance_def)
qed

lemma sorted_entries:
  assumes "reconciles b es"
  shows "sort_key balance_revision es = es"
proof -
  have "sorted (map balance_revision es)"
    using assms by (simp add: reconciles_def sorted_map del: upt_Suc)
  then show ?thesis by (simp add: sort_key_id_if_sorted)
qed

section \<open>Properties\<close>

text \<open>An environment whose message codes spell out what they cover.\<close>

definition spelled_env :: money_env where
  "spelled_env =
     \<lparr>json_object_of = (\<lambda>d. d = ''{}''),
      balance_payload = (\<lambda>b. Some (mb_identity b @ last_ledger_hmac b)),
      entry_payload = (\<lambda>e. Some (ml_id e @ reference_id e)),
      state_hmac = (\<lambda>key v r. Some (key @ v @ (if r = 0 then ''0'' else if r = 1 then ''1'' else ''n''))),
      event_hmac = (\<lambda>e. Some (replicate 43 (CHR ''A''))),
      now_text = (\<lambda>n. Some ''now''), random_hex = (\<lambda>n. Some ''f''), configured = (\<lambda>n. Inr Cny)\<rparr>"

definition spelled_world :: money_world where
  "spelled_world = \<lparr>mw_store = \<lparr>tables = fresh_database [''member''], faults = []\<rparr>, others = [], ticks = 0\<rparr>"

definition spelled_frozen :: FrozenBillingContext where
  "spelled_frozen = \<lparr>selected_price = sample_selected, settlement_currency = Cny, usd_to_cny = None,
     selected_at = ''now'', reference_nanos = 600\<rparr>"

lemmas run_calls = act_defs query_def execute_def Let_def on_storage_def

definition spelled_balance :: MoneyBalanceRecord where
  "spelled_balance = \<lparr>mb_identity = ''member'', mb_currency = ''CNY'', balance_nanos = 0, credited_nanos = 0,
                 debited_nanos = 0, mb_revision = 0, last_ledger_hmac = [], mb_hmac = ''money-balance-v1member0'', mb_updated_at = ''now''\<rparr>"

definition spelled_tables :: database where
  "spelled_tables = (fresh_database [''member''])\<lparr>money_balances := [''member'' \<mapsto> spelled_balance]\<rparr>"

lemma spelled_macs: "money_balance_integrity_hmac spelled_env (spelled_balance\<lparr>mb_hmac := []\<rparr>) = Inr ''money-balance-v1member0''"
  "money_balance_integrity_hmac spelled_env spelled_balance = Inr ''money-balance-v1member0''"
  by (simp_all add: money_balance_integrity_hmac_def spelled_env_def spelled_balance_def u64_revision_def MONEY_BALANCE_INTEGRITY_KEY_def)

lemma spelled_empty: "money_state_snapshot ''member'' \<lparr>tables = fresh_database [''member''], faults = []\<rparr> = (Inr None, \<lparr>tables = fresh_database [''member''], faults = []\<rparr>)"
  by (simp add: money_state_snapshot_def run_calls fresh_database_def)

lemma spelled_init: "initialize_money_balance spelled_balance \<lparr>tables = fresh_database [''member''], faults = []\<rparr> = (Inr True, \<lparr>tables = spelled_tables, faults = []\<rparr>)"
  by (simp add: initialize_money_balance_def unless_violation_def run_calls valid_initial_money_balance_def insert_balance_def valid_currency_def spelled_balance_def spelled_tables_def)
    (simp add: fresh_database_def)

lemma spelled_member: "member_money_balance spelled_env ''member'' spelled_world = (Inr spelled_balance, \<lparr>mw_store = \<lparr>tables = spelled_tables, faults = []\<rparr>, others = [], ticks = 2\<rparr>)"
proof -
  have u: "\<lparr>mb_identity = ''member'', mb_currency = ''CNY'', balance_nanos = 0, credited_nanos = 0,
                 debited_nanos = 0, mb_revision = 0, last_ledger_hmac = [], mb_hmac = [], mb_updated_at = ''now''\<rparr> = spelled_balance\<lparr>mb_hmac := []\<rparr>"
    by (simp add: spelled_balance_def)
  have v: "spelled_balance\<lparr>mb_hmac := ''money-balance-v1member0''\<rparr> = spelled_balance" by (simp add: spelled_balance_def)
  have n: "now_text spelled_env k = Some ''now''" "configured spelled_env k = Inr Cny" for k by (simp_all add: spelled_env_def)
  show ?thesis
    unfolding member_money_balance_def
    by (simp add: spelled_world_def on_storage_def act_defs Let_def spelled_empty spelled_init format_now_def billing_configuration_def n spelled_macs u v)
qed

lemma spelled_snapshot: "money_state_snapshot ''member'' \<lparr>tables = spelled_tables, faults = []\<rparr> = (Inr (Some \<lparr>snap_balance = spelled_balance, ledger_entries = []\<rparr>), \<lparr>tables = spelled_tables, faults = []\<rparr>)"
  by (simp add: money_state_snapshot_def run_calls spelled_tables_def fresh_database_def entries_of_def)

lemma spelled_verifies: "verify_money_state_snapshot spelled_env \<lparr>snap_balance = spelled_balance, ledger_entries = []\<rparr> = Inr ()"
  by (simp add: verify_money_state_snapshot_def spelled_macs reconstruction_start_def) (simp add: spelled_balance_def)


definition spelled_entry :: MoneyLedgerEntry where
  "spelled_entry = \<lparr>ml_id = ''money_f'', ml_identity = ''member'', ml_currency = ''CNY'', ml_kind = ''charge'',
          amount_nanos = -400, balance_revision = 1, reference_id = ''request'',
          billing_status = ''charged'', details_json = ''{}'',
          previous_entry_hmac = [], ml_hmac = ''money-ledger-entry-v1money_frequest1'', ml_created_at = ''now''\<rparr>"

definition spelled_next :: MoneyBalanceRecord where
  "spelled_next = spelled_balance\<lparr>balance_nanos := -400, debited_nanos := 400, mb_revision := 1,
           last_ledger_hmac := ml_hmac spelled_entry, mb_hmac := ''money-balance-v1member'' @ ml_hmac spelled_entry @ ''1''\<rparr>"

definition spelled_event :: AuditEventRecord where
  "spelled_event = \<lparr>ae_id = ''audit_f'', ae_sequence = 1, actor_identity_id = None,
           actor_role = ''system'', ae_action = ''billing.money.charge'',
           target_type = ''money_balance'', target_id = Some ''member'', ae_outcome = ''succeeded'',
           previous_event_hmac = [], ae_hmac = replicate 43 (CHR ''A''), ae_created_at = ''now''\<rparr>"

lemma spelled_entry_signed: "signed_entry spelled_env spelled_balance 1 ''money_f'' ''member'' ''charge'' (-400) ''request'' ''{}'' ''now'' = Inr spelled_entry"
  by (simp add: signed_entry_def Let_def money_ledger_integrity_hmac_def spelled_env_def u64_revision_def
     MONEY_LEDGER_INTEGRITY_KEY_def entry_status_def spelled_entry_def spelled_balance_def)

lemma spelled_next_signed: "signed_next spelled_env spelled_balance 1 (-400) (ml_hmac spelled_entry) ''now'' = Inr spelled_next"
  by (simp add: signed_next_def Let_def money_balance_integrity_hmac_def spelled_env_def u64_revision_def
     MONEY_BALANCE_INTEGRITY_KEY_def spelled_next_def spelled_balance_def fit_i64_def in_i64_def)

lemma spelled_valid: "valid_money_transition (json_object_of spelled_env) spelled_balance spelled_next spelled_entry"
  by (simp add: valid_money_transition_def spelled_balance_def spelled_next_def spelled_entry_def spelled_env_def valid_currency_def entry_kind_valid_def fit_i64_def in_i64_def)

lemma spelled_text: "text_length (replicate 43 (CHR ''A'')) = 43"
  by (simp add: text_length_def char_count_def byte_of_def)

lemma spelled_rows: "audit_events spelled_tables = []" "money_ledger spelled_tables = []" "money_balances spelled_tables ''member'' = Some spelled_balance" "identity_ids spelled_tables = [''member'']"
   "transaction_gates spelled_tables ''audit_log'' = Some 0"
  by (simp_all add: spelled_tables_def fresh_database_def)

lemma spelled_prepare: "prepare_audit_event spelled_env None ''billing.money.charge'' ''money_balance'' (Some ''member'') ''succeeded''
   \<lparr>mw_store = \<lparr>tables = spelled_tables, faults = []\<rparr>, others = [], ticks = 4\<rparr>
   = (Inr (0, [], spelled_event), \<lparr>mw_store = \<lparr>tables = spelled_tables, faults = []\<rparr>, others = [], ticks = 6\<rparr>)"
  by (simp add: prepare_audit_event_def run_calls format_now_def random_identifier_def spelled_env_def spelled_rows checked_add_def spelled_event_def)

lemma spelled_write: "\<exists>st. write_money_entry_with_audit (json_object_of spelled_env) spelled_balance spelled_next spelled_entry 0 [] spelled_event \<lparr>tables = spelled_tables, faults = []\<rparr> = (Inr (Mutation Applied), st)"
proof -
  have c: "ledger_constraints spelled_tables spelled_entry"
    by (simp add: ledger_constraints_def spelled_rows) (simp add: spelled_entry_def valid_currency_def)
  have u: "0 \<le> credited_nanos spelled_next" "0 \<le> debited_nanos spelled_next" "0 \<le> mb_revision spelled_next" "mb_identity spelled_balance = ''member''"
    by (simp_all add: spelled_next_def spelled_balance_def)
  have a: "audit_constraints [] spelled_event" by (simp add: audit_constraints_def spelled_event_def spelled_text)
  have ch: "audit_chain 0 [] [spelled_event]" by (simp add: spelled_event_def checked_add_def)
  have sq: "unat (ae_sequence spelled_event) = 1" by (simp add: spelled_event_def)
  show ?thesis
    unfolding write_money_entry_with_audit_def
    by (simp add: spelled_valid transaction_def run_calls post_entry_def unless_violation_def insert_ledger_entry_def c
      update_balance_def spelled_rows u finish_with_audit_def append_audit_events_def valid_audit_event_batch_def ch
      bump_gate_def in_i64_def tail_position_def insert_audit_event_def a sq del: audit_chain.simps)
qed

lemma spelled_settlement:
  "\<exists>w. settle_member_money spelled_env (\<lambda>f u m s. Some ''{}'') ''member'' ''request''
     spelled_frozen (UsageImages 2 \<lparr>img_size = ''1024'', img_quality = ''high''\<rparr>) ''draw'' spelled_world = (Inr spelled_next, w)"
proof -
  let ?w = "\<lambda>k. \<lparr>mw_store = \<lparr>tables = spelled_tables, faults = []\<rparr>, others = [], ticks = k\<rparr>"
  have charge: "SelectedPrice_charge sample_selected (UsageImages 2 \<lparr>img_size = ''1024'', img_quality = ''high''\<rparr>)
      = Inr \<lparr>m_currency = Cny, nanos = 400\<rparr>" by code_simp
  have amount: "settled_amount spelled_frozen (UsageImages 2 \<lparr>img_size = ''1024'', img_quality = ''high''\<rparr>)
      = Inr (''charge'', - 400, ''priced'')"
    by (simp add: settled_amount_def charge spelled_frozen_def frozen_convert_def fit_i64_def in_i64_def)
  obtain st where wr: "write_money_entry_with_audit (json_object_of spelled_env) spelled_balance spelled_next spelled_entry 0 []
      spelled_event \<lparr>tables = spelled_tables, faults = []\<rparr> = (Inr (Mutation Applied), st)" using spelled_write by blast
  have readings: "now_text spelled_env k = Some ''now''" "random_hex spelled_env k = Some ''f''"
      "json_object_of spelled_env ''{}''" for k by (simp_all add: spelled_env_def)
  have rev: "fit_i64 (mb_revision spelled_balance + 1) = Some 1"
    by (simp add: spelled_balance_def fit_i64_def in_i64_def)
  have "append_new spelled_env ''member'' ''charge'' (- 400) ''request'' ''{}'' None spelled_balance (?w 2)
      = (Inr (Some spelled_next), (?w 6)\<lparr>mw_store := st\<rparr>)"
    by (simp add: append_new_def act_defs format_now_def random_identifier_def readings rev spelled_entry_signed
        spelled_next_signed spelled_prepare entry_action_def on_storage_def Let_def wr)
  then have "append_attempt spelled_env ''member'' ''charge'' (- 400) ''request'' ''{}'' None spelled_world
      = (Inr (Some spelled_next), (?w 6)\<lparr>mw_store := st\<rparr>)"
    by (simp add: append_attempt_def act_defs spelled_member on_storage_def Let_def spelled_snapshot spelled_verifies)
  then show ?thesis
    by (simp add: settle_member_money_def amount append_money_entry_def readings QUOTA_MUTATION_RETRIES_def
        numeral_eq_Suc act_defs)
qed

text \<open>
  C3: Settling a request posts it exactly once. Whatever other processes do to the database
  between the storage calls and whatever statements fail, when \<open>settle_member_money\<close> returns
  a balance the ledger has grown by appending only and holds exactly one entry of the member with
  the request as its reference: a charge of minus the charge of the frozen price for the verified
  usage, converted to the settlement currency, or an anomaly of zero when the price cannot be
  computed.
\<close>

theorem settlement_posts_once:
  assumes "settle_member_money E details_of identity request f usage model w = (Inr b, w')"
    and "refs_distinct (tables (mw_store w))"
  shows "\<exists>e. filter (\<lambda>e. ml_identity e = identity \<and> reference_id e = request) (money_ledger (tables (mw_store w'))) = [e]
    \<and> (case and_then (map_err (\<lambda>_. BillingCalculationInvalid) (SelectedPrice_charge (selected_price f) usage)) (frozen_convert f) of
         Inr m \<Rightarrow> if 0 \<le> nanos m then ml_kind e = ''charge'' \<and> amount_nanos e = - nanos m
                  else ml_kind e = ''anomaly'' \<and> amount_nanos e = 0
       | Inl _ \<Rightarrow> ml_kind e = ''anomaly'' \<and> amount_nanos e = 0)
    \<and> (\<exists>es. money_ledger (tables (mw_store w')) = money_ledger (tables (mw_store w)) @ es)"
proof -
  from assms(1) obtain kind amount status details where
      amount: "settled_amount f usage = Inr (kind, amount, status)"
      and "append_money_entry E identity kind amount request details None w = (Inr b, w')"
    by (auto simp: settle_member_money_def bind_Inr act_lift_def result_simps)
  then have "append_loop E identity kind amount request details None QUOTA_MUTATION_RETRIES w = (Inr b, w')"
    by (auto simp: append_money_entry_def pure_Inr split: if_splits)
  note posts = append_loop_posts [OF this]
  then obtain e where e: "e \<in> set (money_ledger (tables (mw_store w')))" "posted_as identity kind amount request details e"
    by blast
  have "refs_distinct (tables (mw_store w'))" using posts assms(2) by (auto simp: ledger_grows_def)
  from unique_posting [OF this e] e(2) amount posts show ?thesis
    by (auto simp: settled_amount_def posted_as_def ledger_grows_def result_simps checked_simps
        split: sum.splits if_splits)
qed

theorem settlement_posts_once_witness:
  "\<exists>e. filter (\<lambda>e. ml_identity e = ''member'' \<and> reference_id e = ''request'')
       (money_ledger (tables (mw_store (snd (settle_member_money spelled_env (\<lambda>f u m s. Some ''{}'') ''member''
          ''request'' spelled_frozen (UsageImages 2 \<lparr>img_size = ''1024'', img_quality = ''high''\<rparr>) ''draw'' spelled_world))))) = [e]
     \<and> ml_kind e = ''charge'' \<and> amount_nanos e = - 400"
proof -
  obtain w where w: "settle_member_money spelled_env (\<lambda>f u m s. Some ''{}'') ''member'' ''request''
     spelled_frozen (UsageImages 2 \<lparr>img_size = ''1024'', img_quality = ''high''\<rparr>) ''draw'' spelled_world = (Inr spelled_next, w)"
    using spelled_settlement by blast
  have charge: "SelectedPrice_charge sample_selected (UsageImages 2 \<lparr>img_size = ''1024'', img_quality = ''high''\<rparr>)
      = Inr \<lparr>m_currency = Cny, nanos = 400\<rparr>" by code_simp
  have "refs_distinct (tables (mw_store spelled_world))"
    by (simp add: refs_distinct_def spelled_world_def fresh_database_def)
  from settlement_posts_once [OF w this] obtain e where
    "filter (\<lambda>e. ml_identity e = ''member'' \<and> reference_id e = ''request'') (money_ledger (tables (mw_store w))) = [e]"
    "ml_kind e = ''charge''" "amount_nanos e = - 400"
    using charge by (auto simp: spelled_frozen_def frozen_convert_def)
  then show ?thesis unfolding w snd_conv by blast
qed

text \<open>
  C37: A ledger that passes the verification of Control reconciles, whoever wrote the database:
  the balance is the sum of the entries, which are numbered, chained, of one currency and of this
  member, and every entry and the balance carry the message code of their own contents.
\<close>

theorem verified_ledger_reconciles:
  assumes "verify_money_state_snapshot E s = Inr ()"
  shows "reconciles (snap_balance s) (ledger_entries s)
    \<and> list_all (\<lambda>e. ml_identity e = mb_identity (snap_balance s)
         \<and> money_ledger_integrity_hmac E e = Inr (ml_hmac e)) (ledger_entries s)
    \<and> money_balance_integrity_hmac E (snap_balance s) = Inr (mb_hmac (snap_balance s))"
  using assms by (rule verify_sound)

text \<open>The ledger after the settlement above: one charge and the balance it left.\<close>

lemma spelled_entry_mac: "money_ledger_integrity_hmac spelled_env spelled_entry = Inr (ml_hmac spelled_entry)"
  "money_balance_integrity_hmac spelled_env spelled_next = Inr (mb_hmac spelled_next)"
  by (simp_all add: money_ledger_integrity_hmac_def money_balance_integrity_hmac_def spelled_env_def spelled_entry_def
      spelled_next_def spelled_balance_def u64_revision_def MONEY_LEDGER_INTEGRITY_KEY_def MONEY_BALANCE_INTEGRITY_KEY_def)

lemma spelled_settled_verifies:
  "verify_money_state_snapshot spelled_env \<lparr>snap_balance = spelled_next, ledger_entries = [spelled_entry]\<rparr> = Inr ()"
  using spelled_entry_mac
  by (simp add: verify_money_state_snapshot_def reconstruction_start_def)
     (simp add: spelled_next_def spelled_entry_def spelled_balance_def reconstructed_next_def fit_i64_def in_i64_def
        valid_money_transition_def valid_currency_def entry_kind_valid_def spelled_env_def)

theorem verified_ledger_reconciles_witness:
  "ledger_entries \<lparr>snap_balance = spelled_next, ledger_entries = [spelled_entry]\<rparr> = [spelled_entry]
   \<and> balance_nanos spelled_next = - 400 \<and> reconciles spelled_next [spelled_entry]
   \<and> money_ledger_integrity_hmac spelled_env spelled_entry = Inr (ml_hmac spelled_entry)"
  using verified_ledger_reconciles [OF spelled_settled_verifies] by (simp add: spelled_next_def)

text \<open>
  C38: Verification never rejects what the storage calls wrote. After any history of calls on a
  new installation with genuine message codes, with any pattern of failing statements, every
  snapshot the store returns for a member passes the verification of Control.
\<close>

theorem stored_ledger_verifies:
  assumes "mac_binds (\<Union>c\<in>set cs. balances_in c)"
    and "\<forall>c\<in>set cs. Ball (balances_in c) (genuine_balance E) \<and> Ball (entries_in c) (genuine_entry E)"
    and "tables st = tables (fold (run_money_op (json_object_of E)) cs \<lparr>tables = fresh_database ids, faults = fs\<rparr>)"
    and "fst (money_state_snapshot identity st) = Inr (Some s)"
  shows "verify_money_state_snapshot E s = Inr ()"
proof -
  let ?B = "\<Union>c\<in>set cs. balances_in c" and ?db = "tables st"
  have fresh: "accounts_ok agrees ?B (fresh_database ids)" for agrees
    by (simp add: accounts_ok_def ledger_ok_fresh audit_ok_fresh) (simp add: fresh_database_def)
  have "accounts_ok (verifiable E) ?B ?db" "accounts_ok reconciles ?B ?db"
    using verified.money_history_ok [OF _ assms(1), of E] reconciled.money_history_ok [OF _ assms(1)] fresh assms(2,3)
    by simp_all
  then have ok: "member_ok (verifiable E) identity (money_balances ?db identity) (entries_of identity ?db)"
      "member_ok reconciles identity (money_balances ?db identity) (entries_of identity ?db)"
      "ran (money_balances ?db) \<subseteq> ?B" by (simp_all add: accounts_ok_def ledger_ok_def)
  from assms(4) obtain b where b: "money_balances ?db identity = Some b"
    and s: "s = \<lparr>snap_balance = b, ledger_entries = sort_key balance_revision (entries_of identity ?db)\<rparr>"
    by (auto simp: money_state_snapshot_def act_bind_def act_ret_def dest!: query_result
        split: prod.splits sum.splits option.splits)
  have "b \<in> ?B" using ok(3) b by (auto simp: ran_def)
  then have "genuine_balance E b" using assms(2) by blast
  with ok(1,2) b show ?thesis by (simp add: s sorted_entries verifiable_verifies)
qed

definition spelled_history :: "money_op list" where
  "spelled_history = [InitBalance spelled_balance, WriteEntry spelled_balance spelled_next spelled_entry (0, [], spelled_event)]"

lemma spelled_history_tables:
  defines "db \<equiv> tables (fold (run_money_op (json_object_of spelled_env)) spelled_history
    \<lparr>tables = fresh_database [''member''], faults = []\<rparr>)"
  shows "money_ledger db = [spelled_entry]" "money_balances db ''member'' = Some spelled_next"
proof -
  obtain st where wr: "write_money_entry_with_audit (json_object_of spelled_env) spelled_balance spelled_next spelled_entry 0 []
      spelled_event \<lparr>tables = spelled_tables, faults = []\<rparr> = (Inr (Mutation Applied), st)"
    using spelled_write by blast
  then have db: "db = tables st" by (simp add: db_def spelled_history_def spelled_init)
  show "money_ledger db = [spelled_entry]" "money_balances db ''member'' = Some spelled_next"
    using money_write_outcome [where json_object = "json_object_of spelled_env" and x = spelled_balance and n = spelled_next
        and e = spelled_entry and s = 0 and h = "[]" and ev = spelled_event
        and st = "\<lparr>tables = spelled_tables, faults = []\<rparr>"] wr spelled_rows
    by (auto simp: db) (simp add: spelled_balance_def)
qed

theorem stored_ledger_verifies_witness:
  "verify_money_state_snapshot spelled_env \<lparr>snap_balance = spelled_next, ledger_entries = [spelled_entry]\<rparr> = Inr ()"
proof -
  let ?db = "tables (fold (run_money_op (json_object_of spelled_env)) spelled_history
    \<lparr>tables = fresh_database [''member''], faults = []\<rparr>)"
  show ?thesis
  proof (rule stored_ledger_verifies [where cs = spelled_history and ids = "[''member'']" and fs = "[]"
        and st = "\<lparr>tables = ?db, faults = []\<rparr>" and identity = "''member''"])
    show "mac_binds (\<Union>c\<in>set spelled_history. balances_in c)"
      by (simp add: mac_binds_def inj_on_def spelled_history_def) (simp add: spelled_balance_def spelled_next_def)
    show "\<forall>c\<in>set spelled_history. Ball (balances_in c) (genuine_balance spelled_env)
        \<and> Ball (entries_in c) (genuine_entry spelled_env)"
      using spelled_entry_mac spelled_macs
      by (simp add: spelled_history_def genuine_balance_def genuine_entry_def) (simp add: spelled_balance_def)
    have "entries_of ''member'' ?db = [spelled_entry]"
      by (simp add: entries_of_def spelled_history_tables) (simp add: spelled_entry_def)
    then show "fst (money_state_snapshot ''member'' \<lparr>tables = ?db, faults = []\<rparr>)
        = Inr (Some \<lparr>snap_balance = spelled_next, ledger_entries = [spelled_entry]\<rparr>)"
      by (simp add: money_state_snapshot_def run_calls spelled_history_tables)
  qed simp
qed

end
