(* ===== verification/RunnerQuota.thy ===== *)
theory RunnerQuota
  imports Database "HOL-Library.Multiset"
begin

text \<open>
  The runner quota and its upgrade bindings (\<open>storage/src/runner_quota.rs\<close>, and
  \<open>apply_runner_quota_change\<close> of \<open>storage/src/lib.rs\<close>): while a local runner is upgraded, its two
  physical registrations are bound by an authenticated record and count once. A change is derived
  from a verified snapshot and written with its registration and audit event in one transaction.

  The JSON codec of the bindings is the record \<open>quota_codec\<close>; whether a state record is authentic
  is the argument \<open>authenticate\<close>.
\<close>

section \<open>Bindings\<close>

definition RUNNER_QUOTA_KEY :: string where
  "RUNNER_QUOTA_KEY = ''runner-upgrade-quota-v1''"

definition QUOTA_SCHEMA :: string where
  "QUOTA_SCHEMA = ''aster.runner-upgrade-quota.v1''"

definition MAX_BINDINGS :: nat where
  "MAX_BINDINGS = 128"

definition MAX_STATE_BYTES :: nat where
  "MAX_STATE_BYTES = 128 * 1024"

record RunnerQuotaMember =
  qm_id :: string
  credential_hash :: string

datatype RunnerUpgradePhase = Prepared | Committed | RolledBack

record RunnerUpgradeBinding =
  ub_phase :: RunnerUpgradePhase
  ub_installation :: string
  ub_job :: string
  logical_runner_id :: string
  ub_previous :: RunnerQuotaMember
  ub_candidate :: RunnerQuotaMember

record RunnerQuotaBindings =
  qb_schema :: string
  qb_bindings :: "RunnerUpgradeBinding list"

fun binding_current :: "RunnerUpgradeBinding \<Rightarrow> RunnerQuotaMember option" where
  "binding_current b =
     (case ub_phase b of
        Prepared \<Rightarrow> None
      | Committed \<Rightarrow> Some (ub_candidate b)
      | RolledBack \<Rightarrow> Some (ub_previous b))"

record quota_codec =
  quota_to_json :: "RunnerQuotaBindings \<Rightarrow> string option"
  quota_from_json :: "string \<Rightarrow> RunnerQuotaBindings option"

text \<open>Decoding reads back what was encoded.\<close>

definition quota_codec_laws :: "quota_codec \<Rightarrow> bool" where
  "quota_codec_laws K \<longleftrightarrow> (\<forall>b v. quota_to_json K b = Some v \<longrightarrow> quota_from_json K v = Some b)"

definition quota_identifier :: "string \<Rightarrow> bool" where
  "quota_identifier v \<longleftrightarrow> v \<noteq> [] \<and> length v \<le> 160
     \<and> list_all (\<lambda>c. is_ascii_alphanumeric c \<or> byte_of c = 95 \<or> byte_of c = 45) v"

definition member_shape :: "RunnerQuotaMember \<Rightarrow> bool" where
  "member_shape m \<longleftrightarrow> quota_identifier (qm_id m) \<and> take 7 (qm_id m) = ''runner_''
     \<and> length (credential_hash m) = 64 \<and> list_all is_lower_hex (credential_hash m)"

definition binding_shape :: "RunnerUpgradeBinding \<Rightarrow> bool" where
  "binding_shape b \<longleftrightarrow> quota_identifier (ub_installation b) \<and> quota_identifier (ub_job b)
     \<and> quota_identifier (logical_runner_id b)"

text \<open>The sets of the loop: members, logical runners and jobs seen so far.\<close>

fun check_bindings ::
    "string set \<Rightarrow> (string \<times> string) set \<Rightarrow> (string \<times> string) set \<Rightarrow> RunnerUpgradeBinding list \<Rightarrow> bool" where
  "check_bindings ms ls js [] = True"
| "check_bindings ms ls js (b # bs) =
     (binding_shape b
      \<and> (ub_installation b, logical_runner_id b) \<notin> ls \<and> (ub_installation b, ub_job b) \<notin> js
      \<and> member_shape (ub_previous b) \<and> qm_id (ub_previous b) \<notin> ms
      \<and> member_shape (ub_candidate b) \<and> qm_id (ub_candidate b) \<notin> insert (qm_id (ub_previous b)) ms
      \<and> credential_hash (ub_previous b) \<noteq> credential_hash (ub_candidate b)
      \<and> check_bindings (insert (qm_id (ub_candidate b)) (insert (qm_id (ub_previous b)) ms))
          (insert (ub_installation b, logical_runner_id b) ls) (insert (ub_installation b, ub_job b) js) bs)"

definition bindings_validate :: "RunnerQuotaBindings \<Rightarrow> (StorageError, unit) result" where
  "bindings_validate q =
     (if qb_schema q \<noteq> QUOTA_SCHEMA \<or> length (qb_bindings q) > MAX_BINDINGS \<or> \<not> check_bindings {} {} {} (qb_bindings q)
      then Inl RunnerQuotaIntegrity else Inr ())"

definition bindings_new :: "RunnerUpgradeBinding list \<Rightarrow> (StorageError, RunnerQuotaBindings) result" where
  "bindings_new bs =
     (let q = \<lparr>qb_schema = QUOTA_SCHEMA, qb_bindings = bs\<rparr> in and_then (bindings_validate q) (\<lambda>_. Inr q))"

definition bindings_encode :: "quota_codec \<Rightarrow> RunnerQuotaBindings \<Rightarrow> (StorageError, string) result" where
  "bindings_encode K q =
     and_then (bindings_validate q) (\<lambda>_.
     and_then (ok_or (quota_to_json K q) RunnerQuotaIntegrity) (\<lambda>bytes.
       if length bytes > MAX_STATE_BYTES then Inl RunnerQuotaIntegrity else Inr bytes))"

section \<open>Verification\<close>

record RunnerQuotaSnapshot =
  qs_state :: "SecurityStateRecord option"
  qs_members :: "RunnerQuotaMember list"

record VerifiedRunnerQuota =
  vq_snapshot :: RunnerQuotaSnapshot
  vq_occupied :: u32
  upgrade_members :: "string set"
  vq_bindings :: RunnerQuotaBindings
  vq_installation :: string

definition snapshot_bindings ::
    "quota_codec \<Rightarrow> (SecurityStateRecord \<Rightarrow> bool) \<Rightarrow> RunnerQuotaSnapshot \<Rightarrow> (StorageError, RunnerQuotaBindings) result" where
  "snapshot_bindings K authenticate s =
     (case qs_state s of
        None \<Rightarrow> bindings_new []
      | Some r \<Rightarrow>
          if ss_key r \<noteq> RUNNER_QUOTA_KEY \<or> length (ss_value r) > MAX_STATE_BYTES \<or> \<not> authenticate r
          then Inl RunnerQuotaIntegrity
          else and_then (ok_or (quota_from_json K (ss_value r)) RunnerQuotaIntegrity) (\<lambda>q.
               and_then (bindings_validate q) (\<lambda>_.
               and_then (bindings_encode K q) (\<lambda>bytes.
                 if bytes \<noteq> ss_value r then Inl RunnerQuotaIntegrity else Inr q))))"

definition matches_phase :: "RunnerQuotaMember list \<Rightarrow> RunnerUpgradeBinding \<Rightarrow> bool" where
  "matches_phase ms b =
     (let present = (\<lambda>m. m \<in> set ms); absent = (\<lambda>m. qm_id m \<notin> qm_id ` set ms) in
      case ub_phase b of
        Prepared \<Rightarrow> present (ub_previous b) \<and> present (ub_candidate b)
      | Committed \<Rightarrow> absent (ub_previous b) \<and> present (ub_candidate b)
      | RolledBack \<Rightarrow> present (ub_previous b) \<and> absent (ub_candidate b))"

definition prepared_bindings :: "RunnerQuotaBindings \<Rightarrow> RunnerUpgradeBinding list" where
  "prepared_bindings q = filter (\<lambda>b. ub_phase b = Prepared) (qb_bindings q)"

definition quota_verify ::
    "quota_codec \<Rightarrow> RunnerQuotaSnapshot \<Rightarrow> string \<Rightarrow> (SecurityStateRecord \<Rightarrow> bool)
      \<Rightarrow> (StorageError, VerifiedRunnerQuota) result" where
  "quota_verify K s installation authenticate =
     (if \<not> distinct (map qm_id (qs_members s)) then Inl RunnerQuotaIntegrity
      else and_then (snapshot_bindings K authenticate s) (\<lambda>q.
        if \<not> list_all (\<lambda>b. ub_installation b = installation \<and> matches_phase (qs_members s) b) (qb_bindings q)
        then Inl RunnerQuotaIntegrity
        else if length (qs_members s) < length (prepared_bindings q) then Inl RunnerQuotaIntegrity
        else and_then (ok_or (u32_try_from (length (qs_members s) - length (prepared_bindings q))) RunnerQuotaIntegrity) (\<lambda>n.
          Inr \<lparr>vq_snapshot = s, vq_occupied = n,
               upgrade_members = (\<Union>b\<in>set (prepared_bindings q). {qm_id (ub_previous b), qm_id (ub_candidate b)}),
               vq_bindings = q, vq_installation = installation\<rparr>)))"

section \<open>Changes\<close>

datatype RunnerQuotaAction = Register RunnerQuotaMember | Delete RunnerQuotaMember

record RunnerQuotaChange =
  qc_expected :: VerifiedRunnerQuota
  next_members :: "RunnerQuotaMember list"
  qc_value :: string
  qc_revision :: u64
  qc_action :: RunnerQuotaAction

text \<open>A stable sort by identifier, in the order of the bytes.\<close>

fun insert_member :: "RunnerQuotaMember \<Rightarrow> RunnerQuotaMember list \<Rightarrow> RunnerQuotaMember list" where
  "insert_member m [] = [m]"
| "insert_member m (x # xs) = (if bytes_less (qm_id m) (qm_id x) then m # x # xs else x # insert_member m xs)"

definition sort_members :: "RunnerQuotaMember list \<Rightarrow> RunnerQuotaMember list" where
  "sort_members ms = fold insert_member ms []"

definition quota_change ::
    "quota_codec \<Rightarrow> VerifiedRunnerQuota \<Rightarrow> RunnerQuotaBindings \<Rightarrow> RunnerQuotaMember list \<Rightarrow> RunnerQuotaAction
      \<Rightarrow> (StorageError, RunnerQuotaChange) result" where
  "quota_change K v q members action =
     and_then (ok_or (Option.bind (checked_add (case qs_state (vq_snapshot v) of None \<Rightarrow> 0 | Some r \<Rightarrow> ss_revision r) 1)
         (\<lambda>r. then_some (unat r < 2 ^ 63) r)) RunnerQuotaIntegrity) (\<lambda>r.
     and_then (bindings_encode K q) (\<lambda>value.
       Inr \<lparr>qc_expected = v, next_members = sort_members members, qc_value = value, qc_revision = r, qc_action = action\<rparr>))"

definition upgrade_binding :: "VerifiedRunnerQuota \<Rightarrow> string \<Rightarrow> RunnerUpgradeBinding option" where
  "upgrade_binding v job = find (\<lambda>b. ub_job b = job) (qb_bindings (vq_bindings v))"

definition logical_id_for :: "VerifiedRunnerQuota \<Rightarrow> RunnerQuotaMember \<Rightarrow> (StorageError, string) result" where
  "logical_id_for v m =
     (if m \<notin> set (qs_members (vq_snapshot v)) then Inl RunnerQuotaIntegrity
      else Inr (case find (\<lambda>b. ub_previous b = m \<or> ub_candidate b = m) (qb_bindings (vq_bindings v)) of
                  None \<Rightarrow> qm_id m | Some b \<Rightarrow> logical_runner_id b))"

text \<open>\<open>position\<close>: the index of the first element with a property.\<close>

fun position :: "('a \<Rightarrow> bool) \<Rightarrow> 'a list \<Rightarrow> nat option" where
  "position P [] = None"
| "position P (x # xs) = (if P x then Some 0 else map_option Suc (position P xs))"

definition begin_upgrade ::
    "quota_codec \<Rightarrow> VerifiedRunnerQuota \<Rightarrow> RunnerUpgradeBinding \<Rightarrow> (StorageError, RunnerQuotaChange) result" where
  "begin_upgrade K v b =
     (let ms = qs_members (vq_snapshot v); bs = qb_bindings (vq_bindings v) in
      if ub_phase b \<noteq> Prepared \<or> ub_installation b \<noteq> vq_installation v \<or> ub_previous b \<notin> set ms
         \<or> qm_id (ub_candidate b) \<in> qm_id ` set ms
      then Inl RunnerQuotaIntegrity
      else and_then
        (case position (\<lambda>old. logical_runner_id old = logical_runner_id b) bs of
           None \<Rightarrow> Inr (bs @ [b])
         | Some i \<Rightarrow>
             if binding_current (bs ! i) \<noteq> Some (ub_previous b) \<or> ub_job (bs ! i) = ub_job b
             then Inl RunnerQuotaIntegrity else Inr (bs[i := b]))
        (\<lambda>bs'.
          let q = (vq_bindings v)\<lparr>qb_bindings := bs'\<rparr> in
          and_then (bindings_validate q) (\<lambda>_.
          quota_change K v q (ms @ [ub_candidate b]) (Register (ub_candidate b)))))"

definition finish_upgrade ::
    "quota_codec \<Rightarrow> VerifiedRunnerQuota \<Rightarrow> string \<Rightarrow> bool \<Rightarrow> (StorageError, RunnerQuotaChange option) result" where
  "finish_upgrade K v job keep_candidate =
     (let ms = qs_members (vq_snapshot v); bs = qb_bindings (vq_bindings v) in
      case position (\<lambda>b. ub_job b = job) bs of
        None \<Rightarrow> Inl RunnerQuotaIntegrity
      | Some i \<Rightarrow>
          (let b = bs ! i; phase = (if keep_candidate then Committed else RolledBack) in
           if ub_phase b = phase then Inr None
           else if ub_phase b \<noteq> Prepared then Inl RunnerQuotaIntegrity
           else (let retired = (if keep_candidate then ub_previous b else ub_candidate b) in
             map_sum id Some (quota_change K v ((vq_bindings v)\<lparr>qb_bindings := bs[i := b\<lparr>ub_phase := phase\<rparr>]\<rparr>)
               (filter (\<lambda>m. qm_id m \<noteq> qm_id retired) ms) (Delete retired)))))"

definition is_upgrade_member :: "VerifiedRunnerQuota \<Rightarrow> string \<Rightarrow> bool" where
  "is_upgrade_member v rid \<longleftrightarrow> rid \<in> upgrade_members v"

definition delete_runner ::
    "quota_codec \<Rightarrow> VerifiedRunnerQuota \<Rightarrow> string \<Rightarrow> (StorageError, RunnerQuotaChange) result" where
  "delete_runner K v rid =
     (let ms = qs_members (vq_snapshot v) in
      if is_upgrade_member v rid then Inl RunnerQuotaIntegrity
      else and_then (ok_or (find (\<lambda>m. qm_id m = rid) ms) RunnerQuotaIntegrity) (\<lambda>retired.
        quota_change K v
          ((vq_bindings v)\<lparr>qb_bindings := filter (\<lambda>b. is_none_or (binding_current b) (\<lambda>m. qm_id m \<noteq> rid))
             (qb_bindings (vq_bindings v))\<rparr>)
          (filter (\<lambda>m. qm_id m \<noteq> rid) ms) (Delete retired)))"

definition validates_next :: "RunnerQuotaChange \<Rightarrow> SecurityStateRecord \<Rightarrow> bool" where
  "validates_next c r \<longleftrightarrow> ss_key r = RUNNER_QUOTA_KEY \<and> ss_value r = qc_value c \<and> ss_revision r = qc_revision c
     \<and> ss_mac r \<noteq> [] \<and> ss_updated_at r \<noteq> []"

section \<open>Writing a change\<close>

record RunnerQuotaWrite =
  qw_change :: RunnerQuotaChange
  next_state :: SecurityStateRecord
  qw_enrollment :: "RunnerEnrollmentRecord option"
  qw_registration :: "RunnerRegistrationRecord option"

definition write_valid :: "RunnerQuotaWrite \<Rightarrow> AuditEventRecord \<Rightarrow> bool" where
  "write_valid w ev \<longleftrightarrow> validates_next (qw_change w) (next_state w)
     \<and> (case (qc_action (qw_change w), qw_enrollment w, qw_registration w) of
          (Register m, Some en, Some reg) \<Rightarrow>
            qm_id m = reg_id reg \<and> credential_hash m = reg_credential_hash reg \<and> en_status en = ''pending''
            \<and> ae_action ev = ''runner.register'' \<and> target_id ev = Some (qm_id m)
        | (Delete m, None, None) \<Rightarrow> ae_action ev = ''runner.delete'' \<and> target_id ev = Some (qm_id m)
        | _ \<Rightarrow> False)"

datatype RunnerQuotaWriteOutcome =
    QuotaApplied | QuotaChanged | LimitReached | QuotaConflict | QuotaAuditConflict

definition runner_member_of :: "runner_row \<Rightarrow> RunnerQuotaMember" where
  "runner_member_of row = \<lparr>qm_id = reg_id (registered row), credential_hash = reg_credential_hash (registered row)\<rparr>"

definition snapshot_of :: "database \<Rightarrow> RunnerQuotaSnapshot" where
  "snapshot_of db = \<lparr>qs_state = security_state db RUNNER_QUOTA_KEY, qs_members = sort_members (map runner_member_of (runners db))\<rparr>"

definition runner_quota_snapshot :: "RunnerQuotaSnapshot call" where
  "runner_quota_snapshot =
     act_bind (query (\<lambda>db. security_state db RUNNER_QUOTA_KEY)) (\<lambda>state.
     act_bind (query (\<lambda>db. sort_members (map runner_member_of (runners db)))) (\<lambda>ms.
     act_ret \<lparr>qs_state = state, qs_members = ms\<rparr>))"

definition insert_enrollment :: "RunnerEnrollmentRecord \<Rightarrow> unit statement" where
  "insert_enrollment en db =
     (if en_id en \<notin> (en_id \<circ> enrolled) ` set (enrollments db)
         \<and> token_hash en \<notin> (token_hash \<circ> enrolled) ` set (enrollments db)
         \<and> created_by en \<in> set (identity_ids db)
      then Inr ((), db\<lparr>enrollments := enrollments db @
             [\<lparr>enrolled = en, row_status = ''pending'', used_at = None, row_runner_id = None\<rparr>]\<rparr>)
      else Inl ConstraintViolation)"

definition insert_runner :: "RunnerEnrollmentRecord \<Rightarrow> RunnerRegistrationRecord \<Rightarrow> unit statement" where
  "insert_runner en reg db =
     (if reg_id reg \<notin> (reg_id \<circ> registered) ` set (runners db)
         \<and> en_id en \<notin> row_enrollment_id ` set (runners db)
         \<and> reg_credential_hash reg \<notin> (reg_credential_hash \<circ> registered) ` set (runners db)
         \<and> 0 < reg_protocol_version reg \<and> 0 < max_inflight_of reg
         \<and> en_id en \<in> (en_id \<circ> enrolled) ` set (enrollments db)
      then Inr ((), db\<lparr>runners := runners db @
             [\<lparr>registered = reg, row_enrollment_id = en_id en, row_name = en_runner_name en\<rparr>]\<rparr>)
      else Inl ConstraintViolation)"

definition use_enrollment :: "RunnerEnrollmentRecord \<Rightarrow> RunnerRegistrationRecord \<Rightarrow> unit statement" where
  "use_enrollment en reg db =
     Inr ((), db\<lparr>enrollments := map (\<lambda>row. if en_id (enrolled row) = en_id en
        then row\<lparr>row_status := ''used'', used_at := Some (reg_created_at reg), row_runner_id := Some (reg_id reg)\<rparr>
        else row) (enrollments db)\<rparr>)"

definition enrollment_seen :: "RunnerEnrollmentRecord \<Rightarrow> RunnerRegistrationRecord \<Rightarrow> database \<Rightarrow> bool" where
  "enrollment_seen en reg db =
     list_ex (\<lambda>row. en_id (enrolled row) = en_id en \<or> row_runner_id row = Some (reg_id reg)) (enrollments db)"

text \<open>
  The statement also clears the last successful runner of upstream accounts that named the row
  (\<open>ON DELETE SET NULL\<close>); that table is not among the modelled ones and no statement here reads it.
\<close>

definition delete_runner_row :: "RunnerQuotaMember \<Rightarrow> nat statement" where
  "delete_runner_row m db =
     (let gone = (\<lambda>row. runner_member_of row = m) in
      Inr (length (filter gone (runners db)), db\<lparr>runners := filter (\<lambda>row. \<not> gone row) (runners db)\<rparr>))"

definition upsert_state :: "SecurityStateRecord \<Rightarrow> unit statement" where
  "upsert_state r db = Inr ((), db\<lparr>security_state := (security_state db)(ss_key r \<mapsto> r)\<rparr>)"

text \<open>The rows of the change: nothing, or the outcome the transaction is rolled back with.\<close>

definition change_rows :: "RunnerQuotaWrite \<Rightarrow> u32 option \<Rightarrow> RunnerQuotaWriteOutcome option call" where
  "change_rows w limit =
     (case qc_action (qw_change w) of
        Register _ \<Rightarrow>
          if is_some_and limit (\<lambda>l. l < vq_occupied (qc_expected (qw_change w))) then act_ret (Some LimitReached)
          else act_bind (act_lift (ok_or (qw_enrollment w) RunnerQuotaIntegrity)) (\<lambda>en.
               act_bind (act_lift (ok_or (qw_registration w) RunnerQuotaIntegrity)) (\<lambda>reg.
               act_bind (query (enrollment_seen en reg)) (\<lambda>seen.
                 if seen then act_ret (Some QuotaConflict)
                 else act_bind (execute (insert_enrollment en)) (\<lambda>_.
                      act_bind (execute (insert_runner en reg)) (\<lambda>_.
                      act_bind (execute (use_enrollment en reg)) (\<lambda>_. act_ret None))))))
      | Delete m \<Rightarrow>
          act_bind (execute (delete_runner_row m)) (\<lambda>n.
            act_ret (if n \<noteq> 1 then Some QuotaConflict else None)))"

definition quota_write_body ::
    "RunnerQuotaWrite \<Rightarrow> u32 option \<Rightarrow> u64 \<Rightarrow> string \<Rightarrow> AuditEventRecord \<Rightarrow> RunnerQuotaWriteOutcome tx_end call" where
  "quota_write_body w limit s h ev =
        act_bind (execute (bump_gate ''entity_quota'' 1)) (\<lambda>_.
        act_bind runner_quota_snapshot (\<lambda>actual.
          if actual \<noteq> vq_snapshot (qc_expected (qw_change w)) then act_ret (Rollback QuotaChanged)
          else act_bind (change_rows w limit) (\<lambda>stop.
            case stop of
              Some outcome \<Rightarrow> act_ret (Rollback outcome)
            | None \<Rightarrow>
                act_bind runner_quota_snapshot (\<lambda>after.
                act_bind (act_guard (qs_members after = next_members (qw_change w)) RunnerQuotaIntegrity) (\<lambda>_.
                act_bind (act_guard (unat (ss_revision (next_state w)) < 2 ^ 63) RunnerQuotaIntegrity) (\<lambda>_.
                act_bind (execute (upsert_state (next_state w))) (\<lambda>_.
                act_bind (append_audit_events s h [ev]) (\<lambda>appended.
                  act_ret (if appended then Commit QuotaApplied else Rollback QuotaAuditConflict)))))))))"

definition apply_runner_quota_change ::
    "RunnerQuotaWrite \<Rightarrow> u32 option \<Rightarrow> u64 \<Rightarrow> string \<Rightarrow> AuditEventRecord \<Rightarrow> RunnerQuotaWriteOutcome call" where
  "apply_runner_quota_change w limit s h ev =
     (if \<not> write_valid w ev then act_fail RunnerQuotaIntegrity else transaction (quota_write_body w limit s h ev))"

section \<open>Admission under a limit\<close>

record RunnerQuotaPolicy =
  qp_limit :: "u32 option"
  qp_verified :: "VerifiedRunnerQuota option"

definition policy_occupied :: "RunnerQuotaPolicy \<Rightarrow> RunnerQuotaSnapshot \<Rightarrow> (StorageError, u32 option) result" where
  "policy_occupied p actual =
     (case qp_verified p of
        Some v \<Rightarrow> Inr (if vq_snapshot v = actual then Some (vq_occupied v) else None)
      | None \<Rightarrow>
          if qs_state actual = None
          then and_then (ok_or (u32_try_from (length (qs_members actual))) RunnerQuotaIntegrity) (\<lambda>n. Inr (Some n))
          else Inl RunnerQuotaIntegrity)"

section \<open>Verified snapshots\<close>

definition binding_ids :: "RunnerUpgradeBinding \<Rightarrow> string list" where
  "binding_ids b = [qm_id (ub_previous b), qm_id (ub_candidate b)]"

lemma check_bindings_ids:
  "check_bindings ms ls js bs \<Longrightarrow> distinct (concat (map binding_ids bs)) \<and> set (concat (map binding_ids bs)) \<inter> ms = {}"
  by (induction ms ls js bs rule: check_bindings.induct) (auto simp: binding_ids_def)

lemma validate_ids:
  "bindings_validate q = Inr () \<Longrightarrow> distinct (concat (map binding_ids (qb_bindings q)))"
  using check_bindings_ids by (auto simp: bindings_validate_def split: if_splits)

lemma mset_sort_members: "mset (sort_members ms) = mset ms"
proof -
  have "mset (insert_member m xs) = add_mset m (mset xs)" for m xs by (induction xs) auto
  then have "mset (fold insert_member ms acc) = mset ms + mset acc" for acc
    by (induction ms arbitrary: acc) auto
  then show ?thesis by (simp add: sort_members_def)
qed

lemma sort_members_same [simp]:
  "set (sort_members ms) = set ms" "length (sort_members ms) = length ms"
  "distinct (map qm_id (sort_members ms)) = distinct (map qm_id ms)"
proof -
  show "set (sort_members ms) = set ms" using mset_sort_members by (metis set_mset_mset)
  show "length (sort_members ms) = length ms" using mset_sort_members by (metis size_mset)
  have "mset (map qm_id (sort_members ms)) = mset (map qm_id ms)" by (simp add: mset_sort_members)
  then show "distinct (map qm_id (sort_members ms)) = distinct (map qm_id ms)" by (rule mset_eq_imp_distinct_iff)
qed

lemma matches_phase_set: "set ms = set ns \<Longrightarrow> matches_phase ms b = matches_phase ns b"
  by (simp add: matches_phase_def)

text \<open>What a successful verification establishes, and when it succeeds.\<close>

lemma verify_ok:
  assumes "quota_verify K s installation authenticate = Inr v"
  shows "vq_snapshot v = s" "vq_installation v = installation" "distinct (map qm_id (qs_members s))"
    "bindings_validate (vq_bindings v) = Inr ()"
    "list_all (\<lambda>b. ub_installation b = installation \<and> matches_phase (qs_members s) b) (qb_bindings (vq_bindings v))"
    "unat (vq_occupied v) + length (prepared_bindings (vq_bindings v)) = length (qs_members s)"
    "upgrade_members v = (\<Union>b\<in>set (prepared_bindings (vq_bindings v)). set (binding_ids b))"
  using assms
  by (auto simp: quota_verify_def snapshot_bindings_def bindings_new_def Let_def result_simps checked_simps binding_ids_def
      split: if_splits option.splits)

lemma verify_next:
  assumes "quota_codec_laws K" and "bindings_encode K q = Inr (ss_value r)" "ss_key r = RUNNER_QUOTA_KEY" "authenticate r"
    and "distinct (map qm_id ms)"
    and "list_all (\<lambda>b. ub_installation b = installation \<and> matches_phase ms b) (qb_bindings q)"
    and "n + length (prepared_bindings q) = length ms" "n < 2 ^ 32"
  shows "\<exists>v. quota_verify K \<lparr>qs_state = Some r, qs_members = sort_members ms\<rparr> installation authenticate = Inr v
    \<and> vq_bindings v = q \<and> unat (vq_occupied v) = n"
proof -
  from assms(2) have enc: "bindings_validate q = Inr ()" "quota_to_json K q = Some (ss_value r)" "length (ss_value r) \<le> MAX_STATE_BYTES"
    by (auto simp: bindings_encode_def result_simps split: if_splits)
  with assms(1) have "quota_from_json K (ss_value r) = Some q" by (auto simp: quota_codec_laws_def)
  with assms(2-4) enc have "snapshot_bindings K authenticate \<lparr>qs_state = Some r, qs_members = sort_members ms\<rparr> = Inr q"
    by (simp add: snapshot_bindings_def)
  moreover have "u32_try_from (length ms - length (prepared_bindings q)) = Some (of_nat n)"
    using assms(7,8) by (simp add: checked_simps unat_of_nat)
  moreover have "list_all (\<lambda>b. ub_installation b = installation \<and> matches_phase (sort_members ms) b) (qb_bindings q)"
    using assms(6) matches_phase_set [of "sort_members ms" ms] by simp
  ultimately show ?thesis
    using assms(5,7,8) by (simp add: quota_verify_def unat_of_nat)
qed

text \<open>A change of the members that leaves the members of a binding alone keeps its phase.\<close>

definition undisturbed :: "RunnerQuotaMember list \<Rightarrow> RunnerQuotaMember list \<Rightarrow> RunnerUpgradeBinding \<Rightarrow> bool" where
  "undisturbed ms ns b \<longleftrightarrow> (\<forall>m\<in>{ub_previous b, ub_candidate b}.
     (m \<in> set ms \<longrightarrow> m \<in> set ns) \<and> (qm_id m \<notin> qm_id ` set ms \<longrightarrow> qm_id m \<notin> qm_id ` set ns))"

lemma undisturbed_phase: "matches_phase ms b \<Longrightarrow> undisturbed ms ns b \<Longrightarrow> matches_phase ns b"
  by (cases "ub_phase b") (auto simp: matches_phase_def undisturbed_def Let_def)

lemma undisturbed_added: "qm_id m \<notin> set (binding_ids b) \<Longrightarrow> undisturbed ms (ms @ [m]) b"
  by (auto simp: undisturbed_def binding_ids_def)

lemma undisturbed_removed:
  "(\<And>m. m \<in> {ub_previous b, ub_candidate b} \<Longrightarrow> m \<in> set ms \<Longrightarrow> qm_id m \<noteq> rid) \<Longrightarrow>
     undisturbed ms (filter (\<lambda>m. qm_id m \<noteq> rid) ms) b"
  by (auto simp: undisturbed_def)

text \<open>Replacing one binding, when the others are undisturbed.\<close>

lemma phases_update:
  assumes "list_all (\<lambda>b. ub_installation b = i0 \<and> matches_phase ms b) bs"
    and "i < length bs" "ub_installation b = i0" "matches_phase ns b"
    and "\<And>j. j < length bs \<Longrightarrow> j \<noteq> i \<Longrightarrow> undisturbed ms ns (bs ! j)"
  shows "list_all (\<lambda>b. ub_installation b = i0 \<and> matches_phase ns b) (bs[i := b])"
  unfolding list_all_length
proof (intro allI impI)
  fix j assume j: "j < length (bs[i := b])"
  show "ub_installation (bs[i := b] ! j) = i0 \<and> matches_phase ns (bs[i := b] ! j)"
  proof (cases "j = i")
    case False
    with j assms(1,5) undisturbed_phase show ?thesis by (auto simp: list_all_length)
  qed (use assms(2-4) in simp)
qed

lemma position_Some: "position P xs = Some i \<Longrightarrow> i < length xs \<and> P (xs ! i)"
  by (induction xs arbitrary: i) (auto split: if_splits)

section \<open>What a change leads to\<close>

text \<open>
  The bindings \<open>q\<close> fit the members \<open>ms\<close> of an installation, of whom \<open>n\<close> are counted.
\<close>

definition quota_fits :: "string \<Rightarrow> RunnerQuotaBindings \<Rightarrow> RunnerQuotaMember list \<Rightarrow> nat \<Rightarrow> bool" where
  "quota_fits installation q ms n \<longleftrightarrow> distinct (map qm_id ms)
     \<and> list_all (\<lambda>b. ub_installation b = installation \<and> matches_phase ms b) (qb_bindings q)
     \<and> n + length (prepared_bindings q) = length ms"

lemma verify_fits:
  "quota_verify K s installation authenticate = Inr v \<Longrightarrow>
     quota_fits installation (vq_bindings v) (qs_members s) (unat (vq_occupied v))"
  using verify_ok [of K s installation authenticate v] by (simp add: quota_fits_def)

definition change_fits :: "quota_codec \<Rightarrow> VerifiedRunnerQuota \<Rightarrow> RunnerQuotaChange \<Rightarrow> nat \<Rightarrow> bool" where
  "change_fits K v c n \<longleftrightarrow> qc_expected c = v
     \<and> (\<exists>q ms. bindings_encode K q = Inr (qc_value c) \<and> next_members c = sort_members ms
          \<and> quota_fits (vq_installation v) q ms n)"

lemma quota_change_fits:
  assumes "quota_change K v q ms action = Inr c"
    and "bindings_validate q = Inr () \<Longrightarrow> quota_fits (vq_installation v) q ms n"
  shows "change_fits K v c n"
proof -
  from assms(1) have c: "qc_expected c = v" "next_members c = sort_members ms" "bindings_encode K q = Inr (qc_value c)"
    by (auto simp: quota_change_def result_simps)
  then have "bindings_validate q = Inr ()" by (simp add: bindings_encode_def result_simps)
  with c assms(2) show ?thesis unfolding change_fits_def by blast
qed

lemma prepared_update:
  "i < length (qb_bindings q) \<Longrightarrow>
     length (prepared_bindings (q\<lparr>qb_bindings := (qb_bindings q)[i := b]\<rparr>)) + (if ub_phase (qb_bindings q ! i) = Prepared then 1 else 0)
     = length (prepared_bindings q) + (if ub_phase b = Prepared then 1 else 0)"
  using filter_update [of i "qb_bindings q" "\<lambda>b. ub_phase b = Prepared" b] by (simp add: prepared_bindings_def)

text \<open>An upgrade adds its candidate to the members.\<close>

lemma begin_replaces_fits:
  assumes fits: "quota_fits i0 q ms n" and i: "i < length (qb_bindings q)"
    and b: "ub_phase b = Prepared" "ub_installation b = i0" "ub_previous b \<in> set ms" "qm_id (ub_candidate b) \<notin> qm_id ` set ms"
    and old: "ub_phase (qb_bindings q ! i) \<noteq> Prepared"
    and valid: "bindings_validate (q\<lparr>qb_bindings := (qb_bindings q)[i := b]\<rparr>) = Inr ()"
  shows "quota_fits i0 (q\<lparr>qb_bindings := (qb_bindings q)[i := b]\<rparr>) (ms @ [ub_candidate b]) n"
proof -
  have ids: "distinct (concat (map binding_ids ((qb_bindings q)[i := b])))" using validate_ids [OF valid] by simp
  have "undisturbed ms (ms @ [ub_candidate b]) (qb_bindings q ! j)" if "j < length (qb_bindings q)" "j \<noteq> i" for j
    using distinct_concat_disjoint [OF ids, of i j] i that by (intro undisturbed_added) (auto simp: binding_ids_def)
  then have "list_all (\<lambda>x. ub_installation x = i0 \<and> matches_phase (ms @ [ub_candidate b]) x) ((qb_bindings q)[i := b])"
    using fits i b by (intro phases_update) (auto simp: quota_fits_def matches_phase_def)
  with fits b(1,4) prepared_update [OF i, of b] old show ?thesis by (auto simp: quota_fits_def)
qed

lemma begin_adds_fits:
  assumes fits: "quota_fits i0 q ms n"
    and b: "ub_phase b = Prepared" "ub_installation b = i0" "ub_previous b \<in> set ms" "qm_id (ub_candidate b) \<notin> qm_id ` set ms"
    and valid: "bindings_validate (q\<lparr>qb_bindings := qb_bindings q @ [b]\<rparr>) = Inr ()"
  shows "quota_fits i0 (q\<lparr>qb_bindings := qb_bindings q @ [b]\<rparr>) (ms @ [ub_candidate b]) n"
proof -
  have "undisturbed ms (ms @ [ub_candidate b]) x" if "x \<in> set (qb_bindings q)" for x
    using validate_ids [OF valid] that by (intro undisturbed_added) (auto simp: binding_ids_def)
  then have "matches_phase (ms @ [ub_candidate b]) x" if "x \<in> set (qb_bindings q)" for x
    using fits undisturbed_phase that by (auto simp: quota_fits_def list_all_iff)
  moreover have "matches_phase (ms @ [ub_candidate b]) b" using b by (simp add: matches_phase_def)
  ultimately show ?thesis
    using fits b by (auto simp: quota_fits_def prepared_bindings_def list_all_iff)
qed

lemma begin_upgrade_fits:
  assumes "quota_fits (vq_installation v) (vq_bindings v) (qs_members (vq_snapshot v)) n" "begin_upgrade K v b = Inr c"
  shows "change_fits K v c n"
proof -
  let ?ms = "qs_members (vq_snapshot v)" and ?q = "vq_bindings v"
  from assms(2) have b: "ub_phase b = Prepared" "ub_installation b = vq_installation v" "ub_previous b \<in> set ?ms"
      "qm_id (ub_candidate b) \<notin> qm_id ` set ?ms"
    by (auto simp: begin_upgrade_def Let_def split: if_splits)
  show ?thesis
  proof (cases "position (\<lambda>old. logical_runner_id old = logical_runner_id b) (qb_bindings ?q)")
    case None
    with assms(2) b have c: "quota_change K v (?q\<lparr>qb_bindings := qb_bindings ?q @ [b]\<rparr>) (?ms @ [ub_candidate b])
        (Register (ub_candidate b)) = Inr c"
      by (auto simp: begin_upgrade_def Let_def result_simps)
    show ?thesis by (rule quota_change_fits [OF c begin_adds_fits [OF assms(1) b]])
  next
    case (Some i)
    with assms(2) b have c: "quota_change K v (?q\<lparr>qb_bindings := (qb_bindings ?q)[i := b]\<rparr>) (?ms @ [ub_candidate b])
        (Register (ub_candidate b)) = Inr c" and "binding_current (qb_bindings ?q ! i) = Some (ub_previous b)"
      by (auto simp: begin_upgrade_def Let_def result_simps split: if_splits)
    then have "ub_phase (qb_bindings ?q ! i) \<noteq> Prepared" by (auto split: RunnerUpgradePhase.splits)
    then show ?thesis
      using quota_change_fits [OF c begin_replaces_fits [OF assms(1) _ b]] position_Some [OF Some] by blast
  qed
qed

text \<open>Its end removes one of the pair.\<close>

lemma retire_fits:
  assumes fits: "quota_fits i0 q ms n" and i: "i < length (qb_bindings q)"
    and old: "ub_phase (qb_bindings q ! i) = Prepared" and phase: "phase \<noteq> Prepared"
    and valid: "bindings_validate (q\<lparr>qb_bindings := (qb_bindings q)[i := (qb_bindings q ! i)\<lparr>ub_phase := phase\<rparr>]\<rparr>) = Inr ()"
    and retired: "retired = (if phase = Committed then ub_previous (qb_bindings q ! i) else ub_candidate (qb_bindings q ! i))"
  shows "quota_fits i0 (q\<lparr>qb_bindings := (qb_bindings q)[i := (qb_bindings q ! i)\<lparr>ub_phase := phase\<rparr>]\<rparr>)
    (filter (\<lambda>m. qm_id m \<noteq> qm_id retired) ms) n"
proof -
  let ?b = "qb_bindings q ! i"
  let ?b' = "?b\<lparr>ub_phase := phase\<rparr>" and ?ns = "filter (\<lambda>m. qm_id m \<noteq> qm_id retired) ms"
  have ids: "distinct (concat (map binding_ids ((qb_bindings q)[i := ?b'])))" using validate_ids [OF valid] by simp
  have "binding_ids ?b' \<in> set (map binding_ids ((qb_bindings q)[i := ?b']))" using i by (simp add: set_update_memI)
  with ids have "distinct (binding_ids ?b')" by (simp add: distinct_concat_iff)
  then have apart: "qm_id (ub_previous ?b) \<noteq> qm_id (ub_candidate ?b)" by (simp add: binding_ids_def)
  have "ub_installation ?b = i0 \<and> matches_phase ms ?b" using fits i by (simp add: quota_fits_def list_all_length)
  with old have here: "ub_installation ?b = i0" "ub_previous ?b \<in> set ms" "ub_candidate ?b \<in> set ms" by (auto simp: matches_phase_def)
  have "undisturbed ms ?ns (qb_bindings q ! j)" if "j < length (qb_bindings q)" "j \<noteq> i" for j
    using distinct_concat_disjoint [OF ids, of i j] i that
    by (intro undisturbed_removed) (auto simp: binding_ids_def retired split: if_splits)
  moreover have "matches_phase ?ns ?b'"
    using apart here phase by (cases phase) (auto simp: matches_phase_def retired)
  ultimately have "list_all (\<lambda>x. ub_installation x = i0 \<and> matches_phase ?ns x) ((qb_bindings q)[i := ?b'])"
    using fits i here(1) by (intro phases_update) (auto simp: quota_fits_def)
  moreover have "length ?ns + 1 = length ms"
    using fits here by (intro filter_key_one) (auto simp: quota_fits_def retired)
  ultimately show ?thesis using fits prepared_update [OF i, of ?b'] old phase
    by (auto simp: quota_fits_def distinct_map_filter)
qed

lemma finish_upgrade_fits:
  assumes "quota_fits (vq_installation v) (vq_bindings v) (qs_members (vq_snapshot v)) n"
    and "finish_upgrade K v job keep = Inr (Some c)"
  shows "change_fits K v c n"
proof -
  let ?ms = "qs_members (vq_snapshot v)" and ?q = "vq_bindings v" and ?phase = "if keep then Committed else RolledBack"
  from assms(2) obtain i where pos: "position (\<lambda>b. ub_job b = job) (qb_bindings ?q) = Some i"
    by (auto simp: finish_upgrade_def Let_def split: option.splits)
  let ?b = "qb_bindings ?q ! i"
  let ?retired = "if keep then ub_previous ?b else ub_candidate ?b"
  from assms(2) pos have old: "ub_phase ?b = Prepared"
    and c: "quota_change K v (?q\<lparr>qb_bindings := (qb_bindings ?q)[i := ?b\<lparr>ub_phase := ?phase\<rparr>]\<rparr>)
        (filter (\<lambda>m. qm_id m \<noteq> qm_id ?retired) ?ms) (Delete ?retired) = Inr c"
    by (auto simp: finish_upgrade_def Let_def map_sum_def split: if_splits sum.splits)
  show ?thesis
    using position_Some [OF pos] by (intro quota_change_fits [OF c] retire_fits [OF assms(1) _ old]) auto
qed

text \<open>Deleting another runner frees its place.\<close>

lemma candidate_ids_distinct:
  "distinct (concat (map binding_ids bs)) \<Longrightarrow> distinct (map (qm_id \<circ> ub_candidate) (filter P bs))"
  by (induction bs) (auto simp: binding_ids_def)

lemma delete_runner_fits:
  assumes "quota_fits (vq_installation v) (vq_bindings v) (qs_members (vq_snapshot v)) n"
    and "upgrade_members v = (\<Union>b\<in>set (prepared_bindings (vq_bindings v)). set (binding_ids b))"
    and "bindings_validate (vq_bindings v) = Inr ()" "delete_runner K v rid = Inr c"
  shows "0 < n \<and> change_fits K v c (n - 1)"
proof -
  let ?ms = "qs_members (vq_snapshot v)" and ?q = "vq_bindings v"
  let ?ns = "filter (\<lambda>m. qm_id m \<noteq> rid) ?ms"
  let ?keep = "\<lambda>b. is_none_or (binding_current b) (\<lambda>m. qm_id m \<noteq> rid)"
  from assms(4) obtain retired where free: "rid \<notin> upgrade_members v" and "find (\<lambda>m. qm_id m = rid) ?ms = Some retired"
    and c: "quota_change K v (?q\<lparr>qb_bindings := filter ?keep (qb_bindings ?q)\<rparr>) ?ns (Delete retired) = Inr c"
    by (auto simp: delete_runner_def is_upgrade_member_def Let_def result_simps split: if_splits)
  then have retired: "retired \<in> set ?ms" "qm_id retired = rid" by (auto simp: find_Some_iff)
  with assms(1) have one: "length ?ns + 1 = length ?ms"
    using filter_key_one [of qm_id ?ms retired] by (simp add: quota_fits_def)
  have "matches_phase ?ns b" if b: "b \<in> set (qb_bindings ?q)" "?keep b" for b
  proof (rule undisturbed_phase [OF _ undisturbed_removed])
    show "matches_phase ?ms b" using assms(1) b by (simp add: quota_fits_def list_all_iff)
    then show "qm_id m \<noteq> rid" if "m \<in> {ub_previous b, ub_candidate b}" "m \<in> set ?ms" for m
      using that b free assms(2)
      by (cases "ub_phase b") (auto simp: matches_phase_def prepared_bindings_def binding_ids_def)
  qed
  moreover have "prepared_bindings (?q\<lparr>qb_bindings := filter ?keep (qb_bindings ?q)\<rparr>) = prepared_bindings ?q"
    by (auto simp: prepared_bindings_def intro: filter_cong)
  ultimately have "quota_fits (vq_installation v) (?q\<lparr>qb_bindings := filter ?keep (qb_bindings ?q)\<rparr>) ?ns (n - 1)" if "0 < n"
    using assms(1) one that by (auto simp: quota_fits_def list_all_iff distinct_map_filter)
  moreover have "0 < n"
  proof -
    let ?ids = "map (qm_id \<circ> ub_candidate) (prepared_bindings ?q)"
    have "set ?ids \<subseteq> set (map qm_id ?ns)"
    proof
      fix x assume "x \<in> set ?ids"
      then obtain b where b: "b \<in> set (prepared_bindings ?q)" "x = qm_id (ub_candidate b)" by auto
      then have "matches_phase ?ms b" "ub_phase b = Prepared"
        using assms(1) by (auto simp: quota_fits_def list_all_iff prepared_bindings_def)
      then have "ub_candidate b \<in> set ?ms" by (simp add: matches_phase_def)
      moreover have "x \<noteq> rid" using b free assms(2) by (auto simp: binding_ids_def)
      ultimately show "x \<in> set (map qm_id ?ns)" using b(2) by auto
    qed
    moreover have "distinct ?ids"
      using candidate_ids_distinct [OF validate_ids [OF assms(3)]] by (simp add: prepared_bindings_def)
    ultimately have "length ?ids \<le> length (map qm_id ?ns)" by (intro distinct_subset_length)
    then have "length (prepared_bindings ?q) \<le> length ?ns" by (simp only: length_map)
    with one assms(1) show ?thesis by (simp add: quota_fits_def)
  qed
  ultimately show ?thesis using quota_change_fits [OF c] by blast
qed


section \<open>Applied changes\<close>

lemma snapshot_read:
  "runner_quota_snapshot st = (Inr s, st') \<Longrightarrow> s = snapshot_of (tables st) \<and> tables st' = tables st"
  by (auto simp: runner_quota_snapshot_def snapshot_of_def bind_Inr pure_Inr dest!: query_Inr)

lemma change_rows_stop: "change_rows w limit st = (Inr (Some stop), st') \<Longrightarrow> stop \<noteq> QuotaApplied"
  by (auto simp: change_rows_def bind_Inr pure_Inr split: RunnerQuotaAction.splits if_splits)

lemma change_rows_limit:
  "change_rows w limit st = (Inr None, st') \<Longrightarrow> qc_action (qw_change w) = Register m \<Longrightarrow> limit = Some l \<Longrightarrow>
     vq_occupied (qc_expected (qw_change w)) \<le> l"
  by (auto simp: change_rows_def pure_Inr split: if_splits)


lemma bump_snapshot: "bump_gate k d db = Inr (n, db') \<Longrightarrow> snapshot_of db' = snapshot_of db"
  by (auto simp: bump_gate_def snapshot_of_def Let_def split: option.splits if_splits)

lemma quota_body_rollback: "quota_write_body w limit s h ev st \<noteq> (Inr (Rollback QuotaApplied), st')"
  by (auto simp: quota_write_body_def bind_Inr pure_Inr guard_Inr dest: change_rows_stop split: if_splits option.splits)

lemma quota_body_commit:
  assumes "quota_write_body w limit s h ev st = (Inr (Commit outcome), st')" "ss_key (next_state w) = RUNNER_QUOTA_KEY"
  shows "snapshot_of (tables st) = vq_snapshot (qc_expected (qw_change w))"
    and "snapshot_of (tables st') = \<lparr>qs_state = Some (next_state w), qs_members = next_members (qw_change w)\<rparr>"
    and "\<And>m l. qc_action (qw_change w) = Register m \<Longrightarrow> limit = Some l \<Longrightarrow> vq_occupied (qc_expected (qw_change w)) \<le> l"
proof -
  from assms(1) obtain n st1 st2 st3 st4 st5 st6 where run:
      "execute (bump_gate ''entity_quota'' 1) st = (Inr n, st1)"
      "runner_quota_snapshot st1 = (Inr (vq_snapshot (qc_expected (qw_change w))), st2)"
      "change_rows w limit st2 = (Inr None, st3)"
      "runner_quota_snapshot st3 = (Inr st4, st5)" "qs_members st4 = next_members (qw_change w)"
      "execute (upsert_state (next_state w)) st5 = (Inr (), st6)"
      "append_audit_events s h [ev] st6 = (Inr True, st')"
    by (auto simp: quota_write_body_def bind_Inr pure_Inr guard_Inr split: if_splits option.splits)
  show "snapshot_of (tables st) = vq_snapshot (qc_expected (qw_change w))"
    using bump_snapshot [OF execute_Inr [OF run(1)]] snapshot_read [OF run(2)] by simp
  have "tables st6 = (tables st5)\<lparr>security_state := (security_state (tables st5))(ss_key (next_state w) \<mapsto> next_state w)\<rparr>"
    using execute_Inr [OF run(6)] by (simp add: upsert_state_def)
  with wpD [OF append_audit_wp run(7)] snapshot_read [OF run(4)] run(5) assms(2)
  show "snapshot_of (tables st') = \<lparr>qs_state = Some (next_state w), qs_members = next_members (qw_change w)\<rparr>"
    by (auto simp: snapshot_of_def)
  show "vq_occupied (qc_expected (qw_change w)) \<le> l" if "qc_action (qw_change w) = Register m" "limit = Some l" for m l
    using change_rows_limit [OF run(3) that] .
qed

section \<open>The quota stays verified\<close>

text \<open>The transitions a verified quota offers, and the places counted after each.\<close>

datatype quota_op = BeginUpgrade RunnerUpgradeBinding | FinishUpgrade string bool | DeleteRunner string

fun derive_change :: "quota_codec \<Rightarrow> VerifiedRunnerQuota \<Rightarrow> quota_op \<Rightarrow> (StorageError, RunnerQuotaChange option) result" where
  "derive_change K v (BeginUpgrade b) = map_sum id Some (begin_upgrade K v b)"
| "derive_change K v (FinishUpgrade job keep_candidate) = finish_upgrade K v job keep_candidate"
| "derive_change K v (DeleteRunner rid) = map_sum id Some (delete_runner K v rid)"

fun places_after :: "quota_op \<Rightarrow> nat \<Rightarrow> nat" where
  "places_after (DeleteRunner rid) n = n - 1"
| "places_after _ n = n"

lemma derive_change_fits:
  assumes v: "quota_verify K s installation authenticate = Inr v" and c: "derive_change K v op = Inr (Some c)"
  shows "change_fits K v c (places_after op (unat (vq_occupied v)))"
proof -
  have fits: "quota_fits (vq_installation v) (vq_bindings v) (qs_members (vq_snapshot v)) (unat (vq_occupied v))"
    using verify_fits [OF v] verify_ok(1,2) [OF v] by simp
  show ?thesis
  proof (cases op)
    case (BeginUpgrade b)
    with c have "begin_upgrade K v b = Inr c" by (auto simp: map_sum_def split: sum.splits)
    with BeginUpgrade begin_upgrade_fits [OF fits] show ?thesis by simp
  next
    case (FinishUpgrade job keep_candidate)
    with c finish_upgrade_fits [OF fits] show ?thesis by simp
  next
    case (DeleteRunner rid)
    with c have "delete_runner K v rid = Inr c" by (auto simp: map_sum_def split: sum.splits)
    with DeleteRunner delete_runner_fits [OF fits verify_ok(7,4) [OF v]] show ?thesis by simp
  qed
qed

lemma applied_outcome:
  assumes "apply_runner_quota_change w limit s h ev st = (Inr QuotaApplied, st')"
  shows "write_valid w ev" "snapshot_of (tables st) = vq_snapshot (qc_expected (qw_change w))"
    and "snapshot_of (tables st') = \<lparr>qs_state = Some (next_state w), qs_members = next_members (qw_change w)\<rparr>"
    and "\<And>m l. qc_action (qw_change w) = Register m \<Longrightarrow> limit = Some l \<Longrightarrow> vq_occupied (qc_expected (qw_change w)) \<le> l"
proof -
  from assms show valid: "write_valid w ev" by (auto simp: apply_runner_quota_change_def act_defs split: if_splits)
  with assms have run: "transaction (quota_write_body w limit s h ev) st = (Inr QuotaApplied, st')"
    by (simp add: apply_runner_quota_change_def)
  have key: "ss_key (next_state w) = RUNNER_QUOTA_KEY" using valid by (simp add: write_valid_def validates_next_def)
  from run obtain st1 st2 outcome where
      body: "quota_write_body w limit s h ev st1 = (Inr (Commit outcome), st2)" "tables st1 = tables st" "tables st' = tables st2"
    by (rule transaction_cases) (use quota_body_rollback in blast)+
  note quota_body_commit [OF body(1) key]
  with body(2,3) show "snapshot_of (tables st) = vq_snapshot (qc_expected (qw_change w))"
      "snapshot_of (tables st') = \<lparr>qs_state = Some (next_state w), qs_members = next_members (qw_change w)\<rparr>"
      "\<And>m l. qc_action (qw_change w) = Register m \<Longrightarrow> limit = Some l \<Longrightarrow> vq_occupied (qc_expected (qw_change w)) \<le> l"
    by auto
qed

lemma begin_registers: "begin_upgrade K v b = Inr c \<Longrightarrow> qc_action c = Register (ub_candidate b)"
  by (auto simp: begin_upgrade_def quota_change_def Let_def result_simps split: if_splits)

text \<open>
  C6: A change derived from a verified quota and applied to the database was derived from the
  rows that were there; after it the stored members and the authenticated record verify again,
  whatever the transition. Beginning and finishing an upgrade leave the number of counted places
  as it was (the bound pair counts once), a deletion frees exactly one, and an upgrade is begun
  only while the places are within the limit in force.
\<close>

theorem applied_change_keeps_quota_verified:
  assumes "quota_codec_laws K" and v: "quota_verify K s0 installation authenticate = Inr v"
    and derived: "derive_change K v op = Inr (Some (qw_change w))"
    and "authenticate (next_state w)"
    and applied: "apply_runner_quota_change w limit s h ev st = (Inr QuotaApplied, st')"
  shows "snapshot_of (tables st) = s0
    \<and> (\<exists>v'. quota_verify K (snapshot_of (tables st')) installation authenticate = Inr v'
         \<and> unat (vq_occupied v') = places_after op (unat (vq_occupied v))
         \<and> (\<forall>b l. op = BeginUpgrade b \<longrightarrow> limit = Some l \<longrightarrow> vq_occupied v' \<le> l))"
proof -
  note out = applied_outcome [OF applied] and fits = derive_change_fits [OF v derived]
  from fits obtain q ms where c: "qc_expected (qw_change w) = v" "bindings_encode K q = Inr (qc_value (qw_change w))"
      "next_members (qw_change w) = sort_members ms" and q: "quota_fits installation q ms (places_after op (unat (vq_occupied v)))"
    using verify_ok(2) [OF v] by (auto simp: change_fits_def)
  from out(1) have "ss_value (next_state w) = qc_value (qw_change w)" "ss_key (next_state w) = RUNNER_QUOTA_KEY"
    by (simp_all add: write_valid_def validates_next_def)
  moreover have "places_after op (unat (vq_occupied v)) < 2 ^ 32"
    using unsigned_less [of "vq_occupied v"] by (cases op) auto
  ultimately obtain v' where v': "quota_verify K (snapshot_of (tables st')) installation authenticate = Inr v'"
      "unat (vq_occupied v') = places_after op (unat (vq_occupied v))"
    using verify_next [of K q "next_state w" authenticate ms installation] assms(1,4) c q out(3)
    by (auto simp: quota_fits_def)
  moreover have "vq_occupied v' \<le> l" if "op = BeginUpgrade b" "limit = Some l" for b l
  proof -
    from that(1) derived have "qc_action (qw_change w) = Register (ub_candidate b)"
      by (auto simp: map_sum_def dest!: begin_registers split: sum.splits)
    with out(4) that(2) c(1) have "vq_occupied v \<le> l" by blast
    with that(1) v'(2) show ?thesis by (simp add: word_le_nat_alt)
  qed
  ultimately show ?thesis using out(2) c(1) verify_ok(1) [OF v] by auto
qed

text \<open>A site with one runner begins an upgrade under a limit of one place.\<close>

definition sample_member :: "string \<Rightarrow> char \<Rightarrow> RunnerQuotaMember" where
  "sample_member name c = \<lparr>qm_id = ''runner_'' @ name, credential_hash = replicate 64 c\<rparr>"

definition sample_binding :: RunnerUpgradeBinding where
  "sample_binding = \<lparr>ub_phase = Prepared, ub_installation = ''site'', ub_job = ''job'', logical_runner_id = ''runner_a'',
     ub_previous = sample_member ''a'' CHR ''a'', ub_candidate = sample_member ''b'' CHR ''b''\<rparr>"

definition sample_bindings :: RunnerQuotaBindings where
  "sample_bindings = \<lparr>qb_schema = QUOTA_SCHEMA, qb_bindings = [sample_binding]\<rparr>"

text \<open>A codec for one document.\<close>

definition sample_codec :: quota_codec where
  "sample_codec = \<lparr>quota_to_json = (\<lambda>q. then_some (q = sample_bindings) ''bound''),
     quota_from_json = (\<lambda>v. then_some (v = ''bound'') sample_bindings)\<rparr>"

definition sample_enrollment :: RunnerEnrollmentRecord where
  "sample_enrollment = \<lparr>en_id = ''e'', token_hash = ''t'', token_prefix = ''p'', en_runner_name = ''new'',
     en_status = ''pending'', en_expires_at = ''z'', created_by = ''owner'', en_created_at = ''y''\<rparr>"

definition sample_registration :: "RunnerQuotaMember \<Rightarrow> RunnerRegistrationRecord" where
  "sample_registration m = \<lparr>reg_id = qm_id m, reg_credential_hash = credential_hash m, reg_version = ''1'',
     reg_protocol_version = 1, platform = ''linux'', architecture = ''x86_64'', max_inflight_of = 4, reg_created_at = ''y''\<rparr>"

definition quota_event :: AuditEventRecord where
  "quota_event = \<lparr>ae_id = ''ev'', ae_sequence = 1, actor_identity_id = None, actor_role = ''system'',
     ae_action = ''runner.register'', target_type = ''runner'', target_id = Some ''runner_b'', ae_outcome = ''succeeded'',
     previous_event_hmac = [], ae_hmac = replicate 43 CHR ''h'', ae_created_at = ''y''\<rparr>"

definition one_runner :: database where
  "one_runner = (fresh_database [''owner''])\<lparr>runners :=
     [\<lparr>registered = sample_registration (sample_member ''a'' CHR ''a''), row_enrollment_id = ''old'', row_name = ''old''\<rparr>]\<rparr>"

definition quota_state :: SecurityStateRecord where
  "quota_state = \<lparr>ss_key = RUNNER_QUOTA_KEY, ss_value = ''bound'', ss_revision = 1, ss_mac = ''m'', ss_updated_at = ''y''\<rparr>"

definition one_place :: VerifiedRunnerQuota where
  "one_place = \<lparr>vq_snapshot = snapshot_of one_runner, vq_occupied = 1, upgrade_members = {},
     vq_bindings = \<lparr>qb_schema = QUOTA_SCHEMA, qb_bindings = []\<rparr>, vq_installation = ''site''\<rparr>"

definition begin_change :: RunnerQuotaChange where
  "begin_change = \<lparr>qc_expected = one_place, next_members = [sample_member ''a'' CHR ''a'', sample_member ''b'' CHR ''b''],
     qc_value = ''bound'', qc_revision = 1, qc_action = Register (sample_member ''b'' CHR ''b'')\<rparr>"

definition begin_write :: RunnerQuotaWrite where
  "begin_write = \<lparr>qw_change = begin_change, next_state = quota_state, qw_enrollment = Some sample_enrollment,
     qw_registration = Some (sample_registration (sample_member ''b'' CHR ''b''))\<rparr>"

lemma sample_codec_laws: "quota_codec_laws sample_codec"
  by (simp add: quota_codec_laws_def sample_codec_def then_some_def)

lemma one_runner_members: "snapshot_of one_runner = \<lparr>qs_state = None, qs_members = [sample_member ''a'' CHR ''a'']\<rparr>"
  by (simp add: snapshot_of_def one_runner_def fresh_database_def sort_members_def runner_member_of_def sample_registration_def)

lemma one_runner_verifies: "quota_verify sample_codec (snapshot_of one_runner) ''site'' (\<lambda>_. True) = Inr one_place"
  by (simp add: one_runner_members quota_verify_def snapshot_bindings_def bindings_new_def bindings_validate_def
      MAX_BINDINGS_def prepared_bindings_def u32_try_from_def one_place_def)

lemma sample_validates: "bindings_validate sample_bindings = Inr ()"
  by (simp add: bindings_validate_def sample_bindings_def sample_binding_def sample_member_def MAX_BINDINGS_def
      binding_shape_def member_shape_def quota_identifier_def byte_defs list_all_iff)

lemma begin_change_derived: "derive_change sample_codec one_place (BeginUpgrade sample_binding) = Inr (Some begin_change)"
proof -
  have "vq_bindings one_place\<lparr>qb_bindings := [sample_binding]\<rparr> = sample_bindings" by (simp add: one_place_def sample_bindings_def)
  moreover have "bindings_encode sample_codec sample_bindings = Inr ''bound''"
    using sample_validates by (simp add: bindings_encode_def sample_codec_def then_some_def MAX_STATE_BYTES_def)
  moreover have "checked_add (0 :: u64) 1 = Some 1" by (simp add: checked_add_def)
  moreover have "vq_snapshot one_place = snapshot_of one_runner" "vq_installation one_place = ''site''" "qb_bindings (vq_bindings one_place) = []"
    by (simp_all add: one_place_def)
  moreover have "sort_members [sample_member ''a'' CHR ''a'', sample_member ''b'' CHR ''b''] = [sample_member ''a'' CHR ''a'', sample_member ''b'' CHR ''b'']"
    by (simp add: sort_members_def sample_member_def byte_defs)
  moreover have "ub_phase sample_binding = Prepared" "ub_installation sample_binding = ''site''"
      "ub_previous sample_binding = sample_member ''a'' CHR ''a''" "ub_candidate sample_binding = sample_member ''b'' CHR ''b''"
      "qm_id (sample_member ''a'' CHR ''a'') \<noteq> qm_id (sample_member ''b'' CHR ''b'')"
    by (simp_all add: sample_binding_def sample_member_def)
  ultimately show ?thesis using sample_validates
    by (simp add: begin_upgrade_def one_runner_members quota_change_def begin_change_def then_some_def Let_def)
qed

text \<open>The steps of the write, one lemma each.\<close>

abbreviation gate_bumped :: database where
  "gate_bumped \<equiv> one_runner\<lparr>transaction_gates := (transaction_gates one_runner)(''entity_quota'' \<mapsto> 1)\<rparr>"

abbreviation two_rows :: "runner_row list" where
  "two_rows \<equiv> [\<lparr>registered = sample_registration (sample_member ''a'' CHR ''a''), row_enrollment_id = ''old'', row_name = ''old''\<rparr>,
     \<lparr>registered = sample_registration (sample_member ''b'' CHR ''b''), row_enrollment_id = ''e'', row_name = ''new''\<rparr>]"

lemma calm_snapshot: "runner_quota_snapshot \<lparr>tables = db, faults = []\<rparr> = (Inr (snapshot_of db), \<lparr>tables = db, faults = []\<rparr>)"
  by (simp add: runner_quota_snapshot_def snapshot_of_def act_defs calm_query)

lemma gate_bumps:
  "bump_gate ''entity_quota'' 1 one_runner = Inr (1, gate_bumped)" "snapshot_of gate_bumped = vq_snapshot one_place"
  by (simp_all add: bump_gate_def one_runner_def fresh_database_def in_i64_def snapshot_of_def one_place_def)

lemma begin_rows:
  "\<exists>ens. change_rows begin_write (Some 1) \<lparr>tables = gate_bumped, faults = []\<rparr> =
     (Inr None, \<lparr>tables = gate_bumped\<lparr>enrollments := ens, runners := two_rows\<rparr>, faults = []\<rparr>)"
  by (simp add: change_rows_def begin_write_def begin_change_def act_defs calm_query calm_execute ok_or_def one_place_def
      enrollment_seen_def insert_enrollment_def insert_runner_def use_enrollment_def one_runner_def fresh_database_def
      sample_enrollment_def sample_registration_def sample_member_def)

lemma begin_members:
  "qs_members (snapshot_of (gate_bumped\<lparr>enrollments := ens, runners := two_rows\<rparr>)) = next_members (qw_change begin_write)"
  by (simp add: snapshot_of_def sort_members_def runner_member_of_def sample_registration_def sample_member_def byte_defs
      begin_write_def begin_change_def)

lemma begin_audited:
  "\<exists>db'. append_audit_events 0 [] [quota_event]
     \<lparr>tables = gate_bumped\<lparr>enrollments := ens, runners := rows, security_state := state\<rparr>, faults = []\<rparr>
     = (Inr True, \<lparr>tables = db', faults = []\<rparr>)"
  by (simp add: append_audit_events_def valid_audit_event_batch_def act_defs calm_query calm_execute unless_violation_def bump_gate_def
      one_runner_def fresh_database_def in_i64_def tail_position_def insert_audit_event_def audit_constraints_def quota_event_def
      checked_add_def text_length_def char_count_def byte_defs)

lemma begin_write_applies:
  "\<exists>st'. apply_runner_quota_change begin_write (Some 1) 0 [] quota_event \<lparr>tables = one_runner, faults = []\<rparr> = (Inr QuotaApplied, st')"
proof -
  have valid: "write_valid begin_write quota_event"
    by (simp add: write_valid_def validates_next_def begin_write_def begin_change_def quota_state_def quota_event_def
       sample_registration_def sample_enrollment_def sample_member_def)
  have w: "qc_expected (qw_change begin_write) = one_place" "unat (ss_revision (next_state begin_write)) < 2 ^ 63"
    by (simp_all add: begin_write_def begin_change_def quota_state_def)
  obtain ens where rows: "change_rows begin_write (Some 1) \<lparr>tables = gate_bumped, faults = []\<rparr> =
     (Inr None, \<lparr>tables = gate_bumped\<lparr>enrollments := ens, runners := two_rows\<rparr>, faults = []\<rparr>)"
    using begin_rows by blast
  obtain db' where audited: "append_audit_events 0 [] [quota_event]
     \<lparr>tables = gate_bumped\<lparr>enrollments := ens, runners := two_rows,
        security_state := (security_state one_runner)(ss_key (next_state begin_write) \<mapsto> next_state begin_write)\<rparr>, faults = []\<rparr>
     = (Inr True, \<lparr>tables = db', faults = []\<rparr>)"
    using begin_audited by blast
  have "quota_write_body begin_write (Some 1) 0 [] quota_event \<lparr>tables = one_runner, faults = []\<rparr> =
      (Inr (Commit QuotaApplied), \<lparr>tables = db', faults = []\<rparr>)"
    using w rows audited begin_members [of ens]
    by (auto simp: quota_write_body_def bind_Inr pure_Inr guard_Inr calm_execute calm_snapshot gate_bumps upsert_state_def)
  then show ?thesis using valid by (simp add: apply_runner_quota_change_def transaction_def calm_query)
qed

theorem applied_change_keeps_quota_verified_witness:
  "\<exists>st' v'. apply_runner_quota_change begin_write (Some 1) 0 [] quota_event \<lparr>tables = one_runner, faults = []\<rparr> = (Inr QuotaApplied, st')
     \<and> quota_verify sample_codec (snapshot_of (tables st')) ''site'' (\<lambda>_. True) = Inr v' \<and> unat (vq_occupied v') = 1"
proof -
  obtain st' where run: "apply_runner_quota_change begin_write (Some 1) 0 [] quota_event \<lparr>tables = one_runner, faults = []\<rparr> = (Inr QuotaApplied, st')"
    using begin_write_applies by blast
  have "derive_change sample_codec one_place (BeginUpgrade sample_binding) = Inr (Some (qw_change begin_write))"
    using begin_change_derived by (simp add: begin_write_def)
  from applied_change_keeps_quota_verified [OF sample_codec_laws one_runner_verifies this _ run] run show ?thesis
    by (auto simp: one_place_def)
qed

end
