(* ===== verification/Tickets.thy ===== *)
theory Tickets
  imports Canonical Timestamps
begin

text \<open>
  Task tickets (\<open>runner-protocol/src/lib.rs\<close> and \<open>authorization.rs\<close>): the signed claims with
  which Control lets one runner execute one task, their validation, issue and verification, the
  trusted keys, and the cache that refuses a second use.

  The record \<open>ticket_env\<close> holds what belongs to other packages: JSON decoding, base64, SHA-256
  and Ed25519; \<open>ticket_laws\<close> states what issuing and verifying rely on together. Instants are
  those of \<open>Timestamps\<close>.
\<close>

section \<open>Claims\<close>

definition TASK_TICKET_SCHEMA :: string where
  "TASK_TICKET_SCHEMA = ''aster.runner-task.v4''"

definition TASK_TICKET_LIFETIME_SECONDS :: int where
  "TASK_TICKET_LIFETIME_SECONDS = 120"

definition MAX_TASK_EXECUTION_MILLISECONDS :: u32 where
  "MAX_TASK_EXECUTION_MILLISECONDS = 600000"

definition PROBE_PROVIDER :: string where
  "PROBE_PROVIDER = ''aster''"

definition PROBE_HOST :: string where
  "PROBE_HOST = ''runner.internal''"

definition PROBE_TIMEOUT_MS :: u32 where
  "PROBE_TIMEOUT_MS = 3000"

definition FUTURE_CLOCK_SKEW_SECONDS :: int where
  "FUTURE_CLOCK_SKEW_SECONDS = 30"

datatype TaskCommand =
    CmdExecute | CmdFetchAsset | CmdDiscoverModels | CmdRefreshCredential | CmdAuthorizeCredential | CmdProbe

datatype SignedExpiry = FixedExpiry int | NeverExpires

record TaskLicense =
  tl_license_id :: string
  tl_license_sha256 :: string
  tl_expiry :: SignedExpiry

record AdminSubject =
  admin_identity_id :: string

datatype ControlService = CredentialBroker | ModelCatalog

datatype MaintenanceActor = ActorAdmin string | ActorService ControlService

record ModelSubject =
  subject_identity_id :: string
  subject_api_key_id :: string
  subject_request_id :: string
  subject_reservation_id :: string
  reserved_tokens :: int
  token_reservation_expires_at :: int

record ImageModelSubject =
  image_identity_id :: string
  image_api_key_id :: string
  image_request_id :: string
  image_reservation_id :: string
  reserved_images :: int
  image_reservation_expires_at :: int

record ModelResource =
  resource_account_id :: string
  resource_public_model :: string
  resource_upstream_model :: string

text \<open>The fields of a variant stand in the order of the code.\<close>

datatype TaskAuthorization =
    AuthProbe
  | AuthModel ModelSubject ModelResource TaskLicense
  | AuthImageModel ImageModelSubject ModelResource TaskLicense
  | AuthFetchAsset ImageModelSubject ModelResource TaskLicense
  | AuthDiscoverModels MaintenanceActor string TaskLicense
  | AuthRefreshCredential MaintenanceActor string string int TaskLicense
  | AuthAuthorizeCredential AdminSubject string int TaskLicense

record TaskTicketClaims =
  tt_schema :: string
  tt_key_id :: string
  tt_task_id :: string
  tt_runner_id :: string
  tt_provider_id :: string
  credential_instance_id :: "string option"
  credential_revision :: "u32 option"
  upstream_host :: string
  tt_command :: TaskCommand
  tt_authorization :: TaskAuthorization
  payload_sha256 :: string
  tt_issued_at :: int
  tt_expires_at :: int
  execution_deadline_ms :: int
  tt_nonce :: string

record TaskTicketDocument =
  td_claims :: TaskTicketClaims
  td_signature :: string

datatype RunnerProtocolError =
    ProtoInvalidJson | ProtoTrailingJson | ProtoInvalidField | ProtoInvalidSignature | ProtoUntrustedKey
  | ProtoInvalidPublicKey | ProtoDuplicateKey | ProtoRunnerMismatch | ProtoPayloadMismatch | ProtoInvalidTime
  | ProtoExpiredTask string | ProtoReplay | ProtocolIncompatible | ProtoCanonicalEncoding

section \<open>Authorization\<close>

fun authorization_command :: "TaskAuthorization \<Rightarrow> TaskCommand" where
  "authorization_command AuthProbe = CmdProbe"
| "authorization_command (AuthModel _ _ _) = CmdExecute"
| "authorization_command (AuthImageModel _ _ _) = CmdExecute"
| "authorization_command (AuthFetchAsset _ _ _) = CmdFetchAsset"
| "authorization_command (AuthDiscoverModels _ _ _) = CmdDiscoverModels"
| "authorization_command (AuthRefreshCredential _ _ _ _ _) = CmdRefreshCredential"
| "authorization_command (AuthAuthorizeCredential _ _ _ _) = CmdAuthorizeCredential"

fun authorization_license :: "TaskAuthorization \<Rightarrow> TaskLicense option" where
  "authorization_license AuthProbe = None"
| "authorization_license (AuthModel _ _ l) = Some l"
| "authorization_license (AuthImageModel _ _ l) = Some l"
| "authorization_license (AuthFetchAsset _ _ l) = Some l"
| "authorization_license (AuthDiscoverModels _ _ l) = Some l"
| "authorization_license (AuthRefreshCredential _ _ _ _ l) = Some l"
| "authorization_license (AuthAuthorizeCredential _ _ _ l) = Some l"

fun operation_deadline :: "TaskAuthorization \<Rightarrow> int option" where
  "operation_deadline (AuthModel s _ _) = Some (token_reservation_expires_at s)"
| "operation_deadline (AuthImageModel s _ _) = Some (image_reservation_expires_at s)"
| "operation_deadline (AuthFetchAsset s _ _) = Some (image_reservation_expires_at s)"
| "operation_deadline (AuthRefreshCredential _ _ _ lease_expires_at _) = Some lease_expires_at"
| "operation_deadline (AuthAuthorizeCredential _ _ session_expires_at _) = Some session_expires_at"
| "operation_deadline _ = None"

fun expiry_of :: "SignedExpiry \<Rightarrow> int option" where
  "expiry_of (FixedExpiry t) = Some t"
| "expiry_of NeverExpires = None"

fun option_min :: "int option \<Rightarrow> int option \<Rightarrow> int option" where
  "option_min None y = y"
| "option_min x None = x"
| "option_min (Some x) (Some y) = Some (min x y)"

definition authorization_deadline :: "TaskAuthorization \<Rightarrow> int option" where
  "authorization_deadline a =
     option_min (Option.bind (authorization_license a) (\<lambda>l. expiry_of (tl_expiry l))) (operation_deadline a)"

definition ticket_identifier :: "string \<Rightarrow> (RunnerProtocolError, unit) result" where
  "ticket_identifier v =
     (if \<not> (3 \<le> length v \<and> length v \<le> 128)
         \<or> \<not> list_all (\<lambda>c. is_ascii_alphanumeric c \<or> c \<in> set ''_-.:'') v
      then Inl ProtoInvalidField else Inr ())"

definition ticket_sha256 :: "string \<Rightarrow> (RunnerProtocolError, unit) result" where
  "ticket_sha256 v = (if length v \<noteq> 64 \<or> \<not> list_all is_lower_hex v then Inl ProtoInvalidField else Inr ())"

definition validate_actor :: "MaintenanceActor \<Rightarrow> ControlService \<Rightarrow> (RunnerProtocolError, unit) result" where
  "validate_actor actor expected =
     (case actor of
        ActorAdmin identity \<Rightarrow> ticket_identifier identity
      | ActorService service \<Rightarrow> if service = expected then Inr () else Inl ProtoInvalidField)"

definition model_name :: "string \<Rightarrow> (RunnerProtocolError, unit) result" where
  "model_name m = (if m = [] \<or> 256 < char_count m \<or> has_control m then Inl ProtoInvalidField else Inr ())"

definition resource_valid :: "string list \<Rightarrow> bool \<Rightarrow> ModelResource \<Rightarrow> (RunnerProtocolError, unit) result" where
  "resource_valid ids amount_ok r =
     and_then (check_all ticket_identifier (ids @ [resource_account_id r])) (\<lambda>_.
     if \<not> amount_ok then Inl ProtoInvalidField
     else check_all model_name [resource_public_model r, resource_upstream_model r])"

definition image_valid :: "ImageModelSubject \<Rightarrow> ModelResource \<Rightarrow> (RunnerProtocolError, unit) result" where
  "image_valid s r =
     resource_valid [image_identity_id s, image_api_key_id s, image_request_id s, image_reservation_id s]
       (1 \<le> reserved_images s \<and> reserved_images s \<le> 10) r"

fun authorization_fields :: "TaskAuthorization \<Rightarrow> (RunnerProtocolError, unit) result" where
  "authorization_fields AuthProbe = Inr ()"
| "authorization_fields (AuthModel s r _) =
     resource_valid [subject_identity_id s, subject_api_key_id s, subject_request_id s, subject_reservation_id s]
       (0 < reserved_tokens s) r"
| "authorization_fields (AuthImageModel s r _) = image_valid s r"
| "authorization_fields (AuthFetchAsset s r _) = image_valid s r"
| "authorization_fields (AuthDiscoverModels actor account _) =
     and_then (validate_actor actor ModelCatalog) (\<lambda>_. ticket_identifier account)"
| "authorization_fields (AuthRefreshCredential actor account lease_sha256 _ _) =
     and_then (validate_actor actor CredentialBroker) (\<lambda>_.
     and_then (ticket_identifier account) (\<lambda>_. ticket_sha256 lease_sha256))"
| "authorization_fields (AuthAuthorizeCredential actor enrollment _ _) =
     and_then (ticket_identifier (admin_identity_id actor)) (\<lambda>_. ticket_identifier enrollment)"

definition authorization_validate :: "TaskAuthorization \<Rightarrow> TaskCommand \<Rightarrow> int \<Rightarrow> (RunnerProtocolError, unit) result" where
  "authorization_validate a command expires_at =
     (if authorization_command a \<noteq> command \<or> is_some_and (authorization_deadline a) (\<lambda>d. d < expires_at)
      then Inl ProtoInvalidField
      else and_then
        (case authorization_license a of
           None \<Rightarrow> Inr ()
         | Some l \<Rightarrow> and_then (ticket_identifier (tl_license_id l)) (\<lambda>_. ticket_sha256 (tl_license_sha256 l)))
        (\<lambda>_. authorization_fields a))"

section \<open>Environment\<close>

record ('k, 'sk, 's) ticket_env =
  decode_ticket :: "string \<Rightarrow> (RunnerProtocolError, TaskTicketDocument) result"
  claims_value :: "TaskTicketClaims \<Rightarrow> Value option"
  ticket_literal :: "json_text \<Rightarrow> string option"
  base64_decode :: "string \<Rightarrow> string option"
  base64_encode :: "string \<Rightarrow> string"
  sha256 :: "string \<Rightarrow> string"
  signature_from_slice :: "string \<Rightarrow> 's option"
  signature_to_bytes :: "'s \<Rightarrow> string"
  sign_with :: "'sk \<Rightarrow> string \<Rightarrow> 's"
  verify_with :: "'k \<Rightarrow> string \<Rightarrow> 's \<Rightarrow> bool"
  key_from_spki :: "string \<Rightarrow> 'k option"

text \<open>
  Decoding inverts encoding, for base64 and for signatures, and the public half of a signing key
  accepts its signatures.
\<close>

definition ticket_laws :: "('k, 'sk, 's) ticket_env \<Rightarrow> ('sk \<Rightarrow> 'k) \<Rightarrow> bool" where
  "ticket_laws E public \<longleftrightarrow> (\<forall>b. base64_decode E (base64_encode E b) = Some b)
     \<and> (\<forall>s. signature_from_slice E (signature_to_bytes E s) = Some s)
     \<and> (\<forall>k m. verify_with E (public k) m (sign_with E k m))"

section \<open>Validation of claims\<close>

definition host_label :: "string \<Rightarrow> bool" where
  "host_label l \<longleftrightarrow> l \<noteq> [] \<and> length l \<le> 63 \<and> hd l \<noteq> CHR ''-'' \<and> last l \<noteq> CHR ''-''
     \<and> list_all (\<lambda>c. is_ascii_alphanumeric c \<or> c = CHR ''-'') l"

definition validate_upstream_host :: "string \<Rightarrow> (RunnerProtocolError, unit) result" where
  "validate_upstream_host v =
     (if \<not> (1 \<le> length v \<and> length v \<le> 253) \<or> last v = CHR ''.'' \<or> \<not> list_all host_label (split_byte 46 v)
      then Inl ProtoInvalidField else Inr ())"

definition execution_window :: "TaskTicketClaims \<Rightarrow> int" where
  "execution_window c = execution_deadline_ms c - tt_issued_at c * 1000"

fun credential_shape :: "TaskTicketClaims \<Rightarrow> TaskCommand \<times> string option \<times> u32 option \<Rightarrow> (RunnerProtocolError, unit) result" where
  "credential_shape c (CmdProbe, None, None) =
     (if tt_provider_id c = PROBE_PROVIDER \<and> upstream_host c = PROBE_HOST
         \<and> execution_window c \<le> uint PROBE_TIMEOUT_MS + 999
      then Inr () else Inl ProtoInvalidField)"
| "credential_shape c (CmdProbe, _, _) = Inl ProtoInvalidField"
| "credential_shape c (CmdAuthorizeCredential, None, None) = Inr ()"
| "credential_shape c (CmdAuthorizeCredential, _, _) = Inl ProtoInvalidField"
| "credential_shape c (_, Some credential, Some _) = ticket_identifier credential"
| "credential_shape c _ = Inl ProtoInvalidField"

definition ticket_validate_claims :: "('k, 'sk, 's) ticket_env \<Rightarrow> TaskTicketClaims \<Rightarrow> (RunnerProtocolError, unit) result" where
  "ticket_validate_claims E c =
     (if tt_schema c \<noteq> TASK_TICKET_SCHEMA
         \<or> \<not> is_some_and (fit_i64 (tt_expires_at c - tt_issued_at c)) (\<lambda>d. 1 \<le> d \<and> d \<le> TASK_TICKET_LIFETIME_SECONDS)
         \<or> \<not> (1 \<le> execution_window c \<and> execution_window c \<le> uint MAX_TASK_EXECUTION_MILLISECONDS + 999)
         \<or> is_none_or (base64_decode E (payload_sha256 c)) (\<lambda>v. length v \<noteq> 32)
      then Inl ProtoInvalidField
      else and_then (authorization_validate (tt_authorization c) (tt_command c) (tt_expires_at c)) (\<lambda>_.
           and_then (check_all ticket_identifier [tt_key_id c, tt_task_id c, tt_runner_id c, tt_provider_id c, tt_nonce c]) (\<lambda>_.
           and_then (validate_upstream_host (upstream_host c)) (\<lambda>_.
           credential_shape c (tt_command c, credential_instance_id c, credential_revision c)))))"

definition payload_digest :: "('k, 'sk, 's) ticket_env \<Rightarrow> string \<Rightarrow> string" where
  "payload_digest E payload = base64_encode E (sha256 E payload)"

definition ticket_canonical_claims :: "('k, 'sk, 's) ticket_env \<Rightarrow> TaskTicketClaims \<Rightarrow> (RunnerProtocolError, string) result" where
  "ticket_canonical_claims E c =
     and_then (ok_or (claims_value E c) ProtoCanonicalEncoding) (\<lambda>v.
     map_err (\<lambda>_. ProtoCanonicalEncoding) (canonicalize (ticket_literal E) v))"

section \<open>Trusted keys\<close>

type_synonym 'k TrustedTaskKeys = "string \<rightharpoonup> 'k"

text \<open>Inserting replaces the entry before the duplicate is reported.\<close>

definition trusted_insert ::
    "'k TrustedTaskKeys \<Rightarrow> string \<Rightarrow> 'k \<Rightarrow> (RunnerProtocolError, unit) result \<times> 'k TrustedTaskKeys" where
  "trusted_insert keys key_id key =
     (case ticket_identifier key_id of
        Inl e \<Rightarrow> (Inl e, keys)
      | Inr _ \<Rightarrow> (if keys key_id \<noteq> None then Inl ProtoDuplicateKey else Inr (), keys(key_id \<mapsto> key)))"

definition trusted_insert_spki ::
    "('k, 'sk, 's) ticket_env \<Rightarrow> 'k TrustedTaskKeys \<Rightarrow> string \<Rightarrow> string
      \<Rightarrow> (RunnerProtocolError, unit) result \<times> 'k TrustedTaskKeys" where
  "trusted_insert_spki E keys key_id encoded =
     (case Option.bind (base64_decode E encoded) (key_from_spki E) of
        None \<Rightarrow> (Inl ProtoInvalidPublicKey, keys)
      | Some key \<Rightarrow> trusted_insert keys key_id key)"

definition trusted_get :: "'k TrustedTaskKeys \<Rightarrow> string \<Rightarrow> (RunnerProtocolError, 'k) result" where
  "trusted_get keys key_id = ok_or (keys key_id) ProtoUntrustedKey"

section \<open>Issue and verification\<close>

record ('sk, 't) TaskTicketIssue =
  issue_key_id :: string
  signing_key :: 'sk
  issue_task_id :: string
  issue_runner_id :: string
  issue_provider_id :: string
  issue_credential_instance_id :: "string option"
  issue_credential_revision :: "u32 option"
  issue_upstream_host :: string
  issue_command :: TaskCommand
  issue_authorization :: TaskAuthorization
  issue_payload :: string
  issue_nonce :: string
  issue_now :: 't
  execution_timeout_ms :: u32

text \<open>Milliseconds since the epoch, rounded toward zero.\<close>

definition unix_ms :: "'t time_ops \<Rightarrow> 't \<Rightarrow> int" where
  "unix_ms T t = whole_milliseconds (unix_timestamp_nanos T t)"

definition issue_claims ::
    "('k, 'sk, 's) ticket_env \<Rightarrow> ('sk, 't) TaskTicketIssue \<Rightarrow> int \<Rightarrow> int \<Rightarrow> int \<Rightarrow> TaskTicketClaims" where
  "issue_claims E r issued_at expires_at deadline =
     \<lparr>tt_schema = TASK_TICKET_SCHEMA, tt_key_id = issue_key_id r, tt_task_id = issue_task_id r,
      tt_runner_id = issue_runner_id r, tt_provider_id = issue_provider_id r,
      credential_instance_id = issue_credential_instance_id r, credential_revision = issue_credential_revision r,
      upstream_host = issue_upstream_host r, tt_command = issue_command r, tt_authorization = issue_authorization r,
      payload_sha256 = payload_digest E (issue_payload r), tt_issued_at = issued_at, tt_expires_at = expires_at,
      execution_deadline_ms = deadline, tt_nonce = issue_nonce r\<rparr>"

definition issue_task_ticket ::
    "('k, 'sk, 's) ticket_env \<Rightarrow> 't time_ops \<Rightarrow> ('sk, 't) TaskTicketIssue \<Rightarrow> (RunnerProtocolError, TaskTicketDocument) result" where
  "issue_task_ticket E T r =
     (if \<not> (1 \<le> execution_timeout_ms r \<and> execution_timeout_ms r \<le> MAX_TASK_EXECUTION_MILLISECONDS)
         \<or> (issue_command r = CmdProbe \<and> PROBE_TIMEOUT_MS < execution_timeout_ms r)
      then Inl ProtoInvalidTime
      else
        let issued_at = unix_timestamp T (issue_now r) in
        and_then (ok_or (fit_i64 (unix_ms T (issue_now r))) ProtoInvalidTime) (\<lambda>issued_ms.
        and_then (ok_or (fit_i64 (issued_at + TASK_TICKET_LIFETIME_SECONDS)) ProtoInvalidTime) (\<lambda>maximum_expiry.
        let expires_at = (case authorization_deadline (issue_authorization r) of
              None \<Rightarrow> maximum_expiry | Some expiry \<Rightarrow> min expiry maximum_expiry) in
        and_then (ok_or (fit_i64 (issued_ms + uint (execution_timeout_ms r))) ProtoInvalidTime) (\<lambda>deadline.
        let claims = issue_claims E r issued_at expires_at deadline in
        and_then (ticket_validate_claims E claims) (\<lambda>_.
        and_then (ticket_canonical_claims E claims) (\<lambda>bytes.
        Inr \<lparr>td_claims = claims,
             td_signature = base64_encode E (signature_to_bytes E (sign_with E (signing_key r) bytes))\<rparr>))))))"

definition verify_task_ticket ::
    "('k, 'sk, 's) ticket_env \<Rightarrow> 't time_ops \<Rightarrow> string \<Rightarrow> 'k TrustedTaskKeys \<Rightarrow> string \<Rightarrow> string \<Rightarrow> 't
      \<Rightarrow> (RunnerProtocolError, TaskTicketDocument) result" where
  "verify_task_ticket E T encoded keys runner payload now =
     and_then (decode_ticket E encoded) (\<lambda>document.
     let c = td_claims document in
     and_then (ticket_validate_claims E c) (\<lambda>_.
     if tt_runner_id c \<noteq> runner then Inl ProtoRunnerMismatch
     else if payload_sha256 c \<noteq> payload_digest E payload then Inl ProtoPayloadMismatch
     else
       and_then (ok_or (base64_decode E (td_signature document)) ProtoInvalidSignature) (\<lambda>bytes.
       and_then (ok_or (signature_from_slice E bytes) ProtoInvalidSignature) (\<lambda>signature.
       and_then (trusted_get keys (tt_key_id c)) (\<lambda>key.
       and_then (ticket_canonical_claims E c) (\<lambda>message.
       if \<not> verify_with E key message signature then Inl ProtoInvalidSignature
       else
         and_then (ok_or (fit_i64 (unix_timestamp T now + FUTURE_CLOCK_SKEW_SECONDS)) ProtoInvalidTime) (\<lambda>latest.
         if latest < tt_issued_at c then Inl ProtoInvalidTime
         else if execution_deadline_ms c \<le> unix_ms T now \<or> tt_expires_at c \<le> unix_timestamp T now
         then Inl (ProtoExpiredTask (tt_task_id c))
         else Inr document)))))))"

definition validate_ticket_time :: "'t time_ops \<Rightarrow> TaskTicketClaims \<Rightarrow> 't \<Rightarrow> (RunnerProtocolError, unit) result" where
  "validate_ticket_time T c now =
     and_then (ok_or (fit_i64 (unix_timestamp T now + FUTURE_CLOCK_SKEW_SECONDS)) ProtoInvalidTime) (\<lambda>latest.
     if tt_expires_at c \<le> unix_timestamp T now \<or> execution_deadline_ms c \<le> unix_ms T now \<or> latest < tt_issued_at c
     then Inl ProtoInvalidTime else Inr ())"

section \<open>Replay cache\<close>

type_synonym ReplayCache = "string \<rightharpoonup> int"

definition consume ::
    "'t time_ops \<Rightarrow> ReplayCache \<Rightarrow> TaskTicketDocument \<Rightarrow> 't \<Rightarrow> (RunnerProtocolError, unit) result \<times> ReplayCache" where
  "consume T cache ticket now =
     (let c = td_claims ticket in
      case validate_ticket_time T c now of
        Inl e \<Rightarrow> (Inl e, cache)
      | Inr _ \<Rightarrow>
          (let kept = (\<lambda>k. case cache k of None \<Rightarrow> None
                 | Some expires_at \<Rightarrow> if unix_timestamp T now < expires_at then Some expires_at else None) in
           if kept (tt_task_id c) \<noteq> None then (Inl ProtoReplay, kept)
           else (Inr (), kept(tt_task_id c \<mapsto> tt_expires_at c))))"

section \<open>A ticket is used once\<close>

text \<open>The answers of a cache to a sequence of tickets at the times it read.\<close>

fun consume_history :: "'t time_ops \<Rightarrow> ReplayCache \<Rightarrow> (TaskTicketDocument \<times> 't) list \<Rightarrow> bool list" where
  "consume_history T cache [] = []"
| "consume_history T cache ((ticket, now) # rest) =
     (case consume T cache ticket now of (r, cache') \<Rightarrow> (r = Inr ()) # consume_history T cache' rest)"

lemma length_consume_history [simp]: "length (consume_history T cache h) = length h"
  by (induction T cache h rule: consume_history.induct) (auto split: prod.splits)

lemma consume_accepts:
  assumes "consume T cache ticket now = (Inr (), cache')"
  shows "cache' (tt_task_id (td_claims ticket)) = Some (tt_expires_at (td_claims ticket))"
    and "unix_timestamp T now < tt_expires_at (td_claims ticket)"
  using assms by (auto simp: consume_def validate_ticket_time_def Let_def result_simps split: sum.splits if_splits)

lemma consume_keeps:
  assumes "consume T cache ticket now = (r, cache')" "cache i = Some e" "unix_timestamp T now < e"
  shows "cache' i = Some e" "tt_task_id (td_claims ticket) = i \<Longrightarrow> r \<noteq> Inr ()"
  using assms by (auto simp: consume_def Let_def split: sum.splits if_splits)

lemma remembered_refused:
  assumes "cache i = Some e" "\<And>k. k \<le> j \<Longrightarrow> unix_timestamp T (snd (h ! k)) < e"
    and "j < length h" "tt_task_id (td_claims (fst (h ! j))) = i"
  shows "\<not> consume_history T cache h ! j"
  using assms
proof (induction T cache h arbitrary: j rule: consume_history.induct)
  case (2 T cache ticket now rest)
  obtain r cache' where run: "consume T cache ticket now = (r, cache')" by (cases "consume T cache ticket now")
  have "unix_timestamp T now < e" using 2(3) [of 0] by simp
  note kept = consume_keeps [OF run 2(2) this]
  show ?case
  proof (cases j)
    case 0
    with kept(2) run 2(5) show ?thesis by simp
  next
    case (Suc l)
    have "unix_timestamp T (snd (rest ! k)) < e" if "k \<le> l" for k using 2(3) [of "Suc k"] Suc that by simp
    with 2(1) [OF run [symmetric] kept(1), of l] Suc 2(4,5) run show ?thesis by simp
  qed
qed simp

lemma consume_history_nth:
  assumes "i < length h"
  shows "\<exists>cache' r cache''. consume T cache' (fst (h ! i)) (snd (h ! i)) = (r, cache'')
    \<and> (consume_history T cache h ! i \<longleftrightarrow> r = Inr ())
    \<and> drop (Suc i) (consume_history T cache h) = consume_history T cache'' (drop (Suc i) h)"
  using assms
proof (induction T cache h arbitrary: i rule: consume_history.induct)
  case (2 T cache ticket now rest)
  show ?case
  proof (cases i)
    case 0
    then show ?thesis by (auto split: prod.splits)
  next
    case (Suc l)
    obtain r cache' where run: "consume T cache ticket now = (r, cache')" by (cases "consume T cache ticket now")
    from 2(1) [OF run [symmetric], of l] 2(2) Suc run show ?thesis by simp
  qed
qed simp

text \<open>
  C39: A task is admitted a second time only after the clock passed the expiry of the first
  ticket. In any sequence of calls of the cache, with clock readings that may go back and forth,
  when two tickets of one task are accepted then a reading after the first acceptance, up to the
  second, is at or past the expiry of the first; a ticket accepted twice therefore means that the
  wall clock was past its expiry and then set back before it.
\<close>

theorem second_use_needs_expiry:
  assumes "i < j" "j < length h" "consume_history T Map.empty h ! i" "consume_history T Map.empty h ! j"
    and "tt_task_id (td_claims (fst (h ! i))) = tt_task_id (td_claims (fst (h ! j)))"
  shows "\<exists>k. i < k \<and> k \<le> j \<and> tt_expires_at (td_claims (fst (h ! i))) \<le> unix_timestamp T (snd (h ! k))
    \<and> (fst (h ! i) = fst (h ! j) \<longrightarrow> k < j \<and> unix_timestamp T (snd (h ! j)) < unix_timestamp T (snd (h ! k)))"
proof -
  let ?e = "tt_expires_at (td_claims (fst (h ! i)))"
  from consume_history_nth [of i h T Map.empty] assms(1-3) obtain cache' cache'' where
      first: "consume T cache' (fst (h ! i)) (snd (h ! i)) = (Inr (), cache'')"
      and rest: "drop (Suc i) (consume_history T Map.empty h) = consume_history T cache'' (drop (Suc i) h)"
    by auto
  from consume_history_nth [of j h T Map.empty] assms(2,4) obtain cache3 cache4 where
      "consume T cache3 (fst (h ! j)) (snd (h ! j)) = (Inr (), cache4)" by auto
  note now = consume_accepts(2) [OF this]
  have "\<exists>k. i < k \<and> k \<le> j \<and> ?e \<le> unix_timestamp T (snd (h ! k))"
  proof (rule ccontr)
    assume none: "\<not> ?thesis"
    have "unix_timestamp T (snd (drop (Suc i) h ! k)) < ?e" if "k \<le> j - Suc i" for k
    proof -
      have "i < Suc i + k" "Suc i + k \<le> j" using that assms(1) by simp_all
      with none have "\<not> ?e \<le> unix_timestamp T (snd (h ! (Suc i + k)))" by blast
      with assms(1,2) show ?thesis by simp
    qed
    then have "\<not> consume_history T cache'' (drop (Suc i) h) ! (j - Suc i)"
      using assms(1,2,5) consume_accepts(1) [OF first]
      by (intro remembered_refused [where e = ?e]) auto
    moreover have "drop (Suc i) (consume_history T Map.empty h) ! (j - Suc i)" using assms(1,2,4) by simp
    ultimately show False using rest by simp
  qed
  then obtain k where "i < k" "k \<le> j" "?e \<le> unix_timestamp T (snd (h ! k))" by blast
  with now show ?thesis by (intro exI [of _ k]) (auto simp: le_less)
qed

text \<open>A ticket used, forgotten when the clock jumped ahead, and used again after it was set back.\<close>

definition probe_ticket :: "string \<Rightarrow> int \<Rightarrow> TaskTicketDocument" where
  "probe_ticket task issued =
     \<lparr>td_claims = \<lparr>tt_schema = TASK_TICKET_SCHEMA, tt_key_id = ''key'', tt_task_id = task, tt_runner_id = ''runner'',
        tt_provider_id = PROBE_PROVIDER, credential_instance_id = None, credential_revision = None,
        upstream_host = PROBE_HOST, tt_command = CmdProbe, tt_authorization = AuthProbe,
        payload_sha256 = replicate 32 CHR ''d'', tt_issued_at = issued, tt_expires_at = issued + 120,
        execution_deadline_ms = issued * 1000 + 3000, tt_nonce = ''nonce''\<rparr>,
      td_signature = ''signed''\<rparr>"

definition set_back_history :: "(TaskTicketDocument \<times> int) list" where
  "set_back_history = [(probe_ticket ''one'' 100, 101000000000), (probe_ticket ''two'' 300, 301000000000),
     (probe_ticket ''one'' 100, 102000000000)]"

lemma set_back_accepted: "consume_history sample_time Map.empty set_back_history = [True, True, True]"
  by (simp add: set_back_history_def probe_ticket_def consume_def validate_ticket_time_def unix_timestamp_def unix_ms_def
      whole_milliseconds_def sample_time_def fit_i64_def in_i64_def FUTURE_CLOCK_SKEW_SECONDS_def Let_def)

theorem second_use_needs_expiry_witness:
  "\<exists>k. 0 < k \<and> k \<le> 2 \<and> 220 \<le> unix_timestamp sample_time (snd (set_back_history ! k))"
  using second_use_needs_expiry [of 0 2 set_back_history sample_time] set_back_accepted
  by (auto simp: set_back_history_def probe_ticket_def)

section \<open>What an accepted ticket permits\<close>

lemma validated_claims:
  assumes "ticket_validate_claims E c = Inr ()"
  shows "authorization_command (tt_authorization c) = tt_command c"
    and "tt_issued_at c < tt_expires_at c" "tt_expires_at c \<le> tt_issued_at c + TASK_TICKET_LIFETIME_SECONDS"
    and "0 < execution_window c" "execution_window c \<le> uint MAX_TASK_EXECUTION_MILLISECONDS + 999"
    and "\<And>d. authorization_deadline (tt_authorization c) = Some d \<Longrightarrow> tt_expires_at c \<le> d"
  using assms
  by (auto simp: ticket_validate_claims_def authorization_validate_def is_some_and_iff result_simps checked_simps split: if_splits)

lemma option_min_le: "option_min x y = None \<longleftrightarrow> x = None \<and> y = None"
  "(\<And>d. option_min x y = Some d \<Longrightarrow> t \<le> d) \<Longrightarrow> x = Some a \<Longrightarrow> t \<le> a"
  "(\<And>d. option_min x y = Some d \<Longrightarrow> t \<le> d) \<Longrightarrow> y = Some a \<Longrightarrow> t \<le> a"
  by (cases x; cases y; force)+

text \<open>
  C11: An accepted ticket permits what Control signed and nothing else, and for no longer than what
  stands behind it: it carries the signature of a trusted key over its own canonical claims, it
  names this runner and the digest of this payload, and its command is the one its authorization
  is for. It ends no later than two minutes after its issue, no later than the license that
  authorized it, and no later than the reservation, lease or session it was issued for; it is
  accepted only before it ends, before its execution deadline, and at most the allowed skew
  before it was issued.
\<close>

theorem accepted_ticket_is_authorized:
  assumes "verify_task_ticket E T encoded keys runner payload now = Inr document"
  shows "let c = td_claims document in
    (\<exists>key message signature bytes. keys (tt_key_id c) = Some key \<and> ticket_canonical_claims E c = Inr message
       \<and> base64_decode E (td_signature document) = Some bytes \<and> signature_from_slice E bytes = Some signature
       \<and> verify_with E key message signature)
    \<and> tt_runner_id c = runner \<and> payload_sha256 c = payload_digest E payload
    \<and> authorization_command (tt_authorization c) = tt_command c
    \<and> unix_timestamp T now < tt_expires_at c \<and> unix_ms T now < execution_deadline_ms c
    \<and> tt_issued_at c \<le> unix_timestamp T now + FUTURE_CLOCK_SKEW_SECONDS
    \<and> tt_expires_at c \<le> tt_issued_at c + TASK_TICKET_LIFETIME_SECONDS
    \<and> execution_deadline_ms c \<le> tt_issued_at c * 1000 + uint MAX_TASK_EXECUTION_MILLISECONDS + 999
    \<and> (\<forall>l t. authorization_license (tt_authorization c) = Some l \<and> tl_expiry l = FixedExpiry t
         \<longrightarrow> tt_expires_at c \<le> t \<and> unix_timestamp T now < t)
    \<and> (\<forall>t. operation_deadline (tt_authorization c) = Some t
         \<longrightarrow> tt_expires_at c \<le> t \<and> unix_timestamp T now < t)"
proof -
  let ?c = "td_claims document"
  from assms have valid: "ticket_validate_claims E ?c = Inr ()"
    and now: "unix_timestamp T now < tt_expires_at ?c" "unix_ms T now < execution_deadline_ms ?c"
      "tt_issued_at ?c \<le> unix_timestamp T now + FUTURE_CLOCK_SKEW_SECONDS"
    and sig: "\<exists>key message signature bytes. keys (tt_key_id ?c) = Some key \<and> ticket_canonical_claims E ?c = Inr message
       \<and> base64_decode E (td_signature document) = Some bytes \<and> signature_from_slice E bytes = Some signature
       \<and> verify_with E key message signature"
    and "tt_runner_id ?c = runner" "payload_sha256 ?c = payload_digest E payload"
    by (auto simp: verify_task_ticket_def trusted_get_def Let_def result_simps checked_simps split: if_splits)
  note claims = validated_claims [OF valid]
  have deadline: "tt_expires_at ?c \<le> d" if "authorization_deadline (tt_authorization ?c) = Some d" for d
    using claims(6) that .
  have "tt_expires_at ?c \<le> t" if "authorization_license (tt_authorization ?c) = Some l" "tl_expiry l = FixedExpiry t" for l t
    using option_min_le(2) [OF deadline [unfolded authorization_deadline_def]] that by fastforce
  moreover have "tt_expires_at ?c \<le> t" if "operation_deadline (tt_authorization ?c) = Some t" for t
    using option_min_le(3) [OF deadline [unfolded authorization_deadline_def]] that by fastforce
  moreover have "execution_deadline_ms ?c \<le> tt_issued_at ?c * 1000 + uint MAX_TASK_EXECUTION_MILLISECONDS + 999"
    using claims(5) by (simp add: execution_window_def)
  ultimately show ?thesis
    using sig now claims(1,3) \<open>tt_runner_id ?c = runner\<close> \<open>payload_sha256 ?c = payload_digest E payload\<close>
    by (fastforce simp: Let_def)
qed

lemma issued_document:
  assumes "issue_task_ticket E T r = Inr document"
  shows "ticket_validate_claims E (td_claims document) = Inr ()"
    and "tt_key_id (td_claims document) = issue_key_id r" "tt_runner_id (td_claims document) = issue_runner_id r"
    and "payload_sha256 (td_claims document) = payload_digest E (issue_payload r)"
    and "tt_issued_at (td_claims document) = unix_timestamp T (issue_now r)"
    and "\<exists>bytes. ticket_canonical_claims E (td_claims document) = Inr bytes
      \<and> td_signature document = base64_encode E (signature_to_bytes E (sign_with E (signing_key r) bytes))"
  using assms by (auto simp: issue_task_ticket_def issue_claims_def Let_def result_simps split: if_splits)

lemma issued_verifies:
  assumes "ticket_laws E public" "issue_task_ticket E T r = Inr document" "decode_ticket E encoded = Inr document"
    and "keys (issue_key_id r) = Some (public (signing_key r))" "in_i64 (unix_timestamp T now + FUTURE_CLOCK_SKEW_SECONDS)"
  shows "verify_task_ticket E T encoded keys (issue_runner_id r) (issue_payload r) now =
    (if unix_timestamp T now + FUTURE_CLOCK_SKEW_SECONDS < unix_timestamp T (issue_now r) then Inl ProtoInvalidTime
     else if execution_deadline_ms (td_claims document) \<le> unix_ms T now \<or> tt_expires_at (td_claims document) \<le> unix_timestamp T now
     then Inl (ProtoExpiredTask (tt_task_id (td_claims document)))
     else Inr document)"
proof -
  note doc = issued_document [OF assms(2)]
  from doc(6) obtain bytes where b: "ticket_canonical_claims E (td_claims document) = Inr bytes"
      "td_signature document = base64_encode E (signature_to_bytes E (sign_with E (signing_key r) bytes))" by blast
  have "base64_decode E (td_signature document) = Some (signature_to_bytes E (sign_with E (signing_key r) bytes))"
      "signature_from_slice E (signature_to_bytes E (sign_with E (signing_key r) bytes)) = Some (sign_with E (signing_key r) bytes)"
      "verify_with E (public (signing_key r)) bytes (sign_with E (signing_key r) bytes)"
    using assms(1) b(2) by (simp_all add: ticket_laws_def)
  with doc(1-5) b(1) assms(3-5) show ?thesis
    by (simp add: verify_task_ticket_def trusted_get_def ok_or_def fit_i64_def Let_def)
qed

text \<open>
  C40: A ticket Control issues is the ticket the runner reads. Sent to a runner that trusts the
  signing key, with the same runner and payload, it verifies to the same document exactly while
  it is current: before its expiry and its execution deadline, and not issued more than the
  allowed skew ahead of the clock; otherwise the answer says which.
\<close>

theorem issued_ticket_verifies:
  assumes "ticket_laws E public" "issue_task_ticket E T r = Inr document" "decode_ticket E encoded = Inr document"
    and "keys (issue_key_id r) = Some (public (signing_key r))" "in_i64 (unix_timestamp T now + FUTURE_CLOCK_SKEW_SECONDS)"
  shows "verify_task_ticket E T encoded keys (issue_runner_id r) (issue_payload r) now =
    (if unix_timestamp T now + FUTURE_CLOCK_SKEW_SECONDS < unix_timestamp T (issue_now r) then Inl ProtoInvalidTime
     else if execution_deadline_ms (td_claims document) \<le> unix_ms T now \<or> tt_expires_at (td_claims document) \<le> unix_timestamp T now
     then Inl (ProtoExpiredTask (tt_task_id (td_claims document)))
     else Inr document)"
  using assms by (rule issued_verifies)

text \<open>A probe, with signatures that spell out key and message.\<close>

definition spelled_tickets :: "TaskTicketDocument \<Rightarrow> (string, string, string) ticket_env" where
  "spelled_tickets document =
     \<lparr>decode_ticket = (\<lambda>data. if data = ''ticket'' then Inr document else Inl ProtoInvalidJson),
      claims_value = (\<lambda>_. Some VNull), ticket_literal = (\<lambda>_. None), base64_decode = Some, base64_encode = id,
      sha256 = (\<lambda>_. replicate 32 CHR ''d''), signature_from_slice = Some, signature_to_bytes = id,
      sign_with = (@), verify_with = (\<lambda>k m s. s = k @ m), key_from_spki = Some\<rparr>"

definition probe_issue :: "(string, int) TaskTicketIssue" where
  "probe_issue = \<lparr>issue_key_id = ''key'', signing_key = ''secret'', issue_task_id = ''one'', issue_runner_id = ''runner'',
     issue_provider_id = PROBE_PROVIDER, issue_credential_instance_id = None, issue_credential_revision = None,
     issue_upstream_host = PROBE_HOST, issue_command = CmdProbe, issue_authorization = AuthProbe,
     issue_payload = ''{}'', issue_nonce = ''nonce'', issue_now = 100000000000, execution_timeout_ms = 3000\<rparr>"

definition probe_document :: TaskTicketDocument where
  "probe_document = (probe_ticket ''one'' 100)\<lparr>td_signature := ''secretnull''\<rparr>"

lemma probe_laws: "ticket_laws (spelled_tickets document) id"
  by (simp add: ticket_laws_def spelled_tickets_def)

lemma probe_issued: "issue_task_ticket (spelled_tickets document) sample_time probe_issue = Inr probe_document"
proof -
  have ids: "check_all ticket_identifier [''key'', ''one'', ''runner'', PROBE_PROVIDER, ''nonce''] = Inr ()"
    by (simp add: ticket_identifier_def PROBE_PROVIDER_def byte_defs)
  have host: "validate_upstream_host PROBE_HOST = Inr ()"
    by (simp add: validate_upstream_host_def PROBE_HOST_def host_label_def byte_defs)
  have claims: "issue_claims (spelled_tickets document) probe_issue 100 220 103000 = td_claims probe_document"
    by (simp add: issue_claims_def probe_issue_def probe_document_def probe_ticket_def payload_digest_def spelled_tickets_def)
  have valid: "ticket_validate_claims (spelled_tickets document) (td_claims probe_document) = Inr ()"
    using ids host
    by (simp add: ticket_validate_claims_def probe_document_def probe_ticket_def spelled_tickets_def execution_window_def
        authorization_validate_def authorization_deadline_def TASK_TICKET_LIFETIME_SECONDS_def
        MAX_TASK_EXECUTION_MILLISECONDS_def PROBE_TIMEOUT_MS_def fit_i64_def in_i64_def)
  have message: "ticket_canonical_claims (spelled_tickets document) (td_claims probe_document) = Inr ''null''"
    by (simp add: ticket_canonical_claims_def spelled_tickets_def canonicalize_def)
  show ?thesis
    using claims valid message
    by (simp add: issue_task_ticket_def probe_issue_def unix_timestamp_def unix_ms_def whole_milliseconds_def sample_time_def
        fit_i64_def in_i64_def TASK_TICKET_LIFETIME_SECONDS_def authorization_deadline_def
        MAX_TASK_EXECUTION_MILLISECONDS_def PROBE_TIMEOUT_MS_def)
       (simp add: spelled_tickets_def probe_document_def probe_ticket_def)
qed

lemma probe_decoded: "decode_ticket (spelled_tickets probe_document) ''ticket'' = Inr probe_document"
  by (simp add: spelled_tickets_def)

lemma probe_times: "in_i64 (unix_timestamp sample_time 101000000000 + FUTURE_CLOCK_SKEW_SECONDS)"
    "unix_timestamp sample_time 101000000000 = 101" "unix_ms sample_time 101000000000 = 101000"
    "unix_timestamp sample_time (issue_now probe_issue) = 100"
  by (simp_all add: unix_timestamp_def unix_ms_def whole_milliseconds_def sample_time_def in_i64_def FUTURE_CLOCK_SKEW_SECONDS_def
      probe_issue_def)

theorem issued_ticket_verifies_witness:
  "verify_task_ticket (spelled_tickets probe_document) sample_time ''ticket'' [''key'' \<mapsto> ''secret''] ''runner'' ''{}'' 101000000000
     = Inr probe_document"
  using issued_ticket_verifies [OF probe_laws probe_issued probe_decoded, of "[''key'' \<mapsto> ''secret'']" 101000000000] probe_times
  by (simp add: FUTURE_CLOCK_SKEW_SECONDS_def) (simp add: probe_issue_def probe_document_def probe_ticket_def)

text \<open>
  A model request: the license runs until second 180, the reservation until second 150, so the
  ticket issued at second 100 ends with the reservation and not after its two minutes.
\<close>

definition model_authorization :: TaskAuthorization where
  "model_authorization = AuthModel
     \<lparr>subject_identity_id = ''member'', subject_api_key_id = ''api-key'', subject_request_id = ''request'',
      subject_reservation_id = ''reservation'', reserved_tokens = 1000, token_reservation_expires_at = 150\<rparr>
     \<lparr>resource_account_id = ''account'', resource_public_model = ''fast'', resource_upstream_model = ''fast-1''\<rparr>
     \<lparr>tl_license_id = ''license'', tl_license_sha256 = replicate 64 (CHR ''a''), tl_expiry = FixedExpiry 180\<rparr>"

definition model_issue :: "(string, int) TaskTicketIssue" where
  "model_issue = \<lparr>issue_key_id = ''key'', signing_key = ''secret'', issue_task_id = ''one'', issue_runner_id = ''runner'',
     issue_provider_id = ''provider'', issue_credential_instance_id = Some ''credential'', issue_credential_revision = Some 1,
     issue_upstream_host = ''api.example'', issue_command = CmdExecute, issue_authorization = model_authorization,
     issue_payload = ''{}'', issue_nonce = ''nonce'', issue_now = 100000000000, execution_timeout_ms = 3000\<rparr>"

definition model_document :: TaskTicketDocument where
  "model_document = \<lparr>td_claims = issue_claims (spelled_tickets probe_document) model_issue 100 150 103000,
     td_signature = ''secretnull''\<rparr>"

lemma model_claims: "td_claims model_document =
    \<lparr>tt_schema = TASK_TICKET_SCHEMA, tt_key_id = ''key'', tt_task_id = ''one'', tt_runner_id = ''runner'',
     tt_provider_id = ''provider'', credential_instance_id = Some ''credential'', credential_revision = Some 1,
     upstream_host = ''api.example'', tt_command = CmdExecute, tt_authorization = model_authorization,
     payload_sha256 = replicate 32 CHR ''d'', tt_issued_at = 100, tt_expires_at = 150,
     execution_deadline_ms = 103000, tt_nonce = ''nonce''\<rparr>"
  by (simp add: model_document_def issue_claims_def model_issue_def payload_digest_def spelled_tickets_def)

lemma model_deadline: "authorization_deadline model_authorization = Some 150"
  by (simp add: authorization_deadline_def model_authorization_def)

lemma model_authorized: "authorization_validate model_authorization CmdExecute 150 = Inr ()"
proof -
  have ids: "check_all ticket_identifier [''member'', ''api-key'', ''request'', ''reservation'', ''account''] = Inr ()"
      "ticket_identifier ''license'' = Inr ()" "ticket_sha256 (replicate 64 (CHR ''a'')) = Inr ()"
    by (simp_all add: ticket_identifier_def ticket_sha256_def list_all_iff byte_defs)
  have names: "check_all model_name [''fast'', ''fast-1''] = Inr ()" by code_simp
  show ?thesis
    using ids names model_deadline
    by (simp add: authorization_validate_def) (simp add: model_authorization_def resource_valid_def)
qed

lemma model_issued: "issue_task_ticket (spelled_tickets document) sample_time model_issue = Inr model_document"
proof -
  have ids: "check_all ticket_identifier [''key'', ''one'', ''runner'', ''provider'', ''nonce''] = Inr ()"
      "ticket_identifier ''credential'' = Inr ()"
    by (simp_all add: ticket_identifier_def byte_defs)
  have host: "validate_upstream_host ''api.example'' = Inr ()" by code_simp
  have claims: "issue_claims (spelled_tickets document) model_issue 100 150 103000 = td_claims model_document"
    by (simp add: issue_claims_def model_issue_def model_document_def payload_digest_def spelled_tickets_def)
  have valid: "ticket_validate_claims (spelled_tickets document) (td_claims model_document) = Inr ()"
    using ids host model_authorized
    by (simp add: ticket_validate_claims_def model_claims spelled_tickets_def execution_window_def
        TASK_TICKET_LIFETIME_SECONDS_def MAX_TASK_EXECUTION_MILLISECONDS_def fit_i64_def in_i64_def)
  have message: "ticket_canonical_claims (spelled_tickets document) (td_claims model_document) = Inr ''null''"
    by (simp add: ticket_canonical_claims_def spelled_tickets_def canonicalize_def)
  have fields: "issue_now model_issue = 100000000000" "execution_timeout_ms model_issue = 3000"
      "issue_command model_issue = CmdExecute" "issue_authorization model_issue = model_authorization"
      "signing_key model_issue = ''secret''"
    by (simp_all add: model_issue_def)
  show ?thesis
    using claims valid message
    by (simp add: issue_task_ticket_def fields model_deadline unix_timestamp_def unix_ms_def whole_milliseconds_def
        sample_time_def fit_i64_def in_i64_def TASK_TICKET_LIFETIME_SECONDS_def MAX_TASK_EXECUTION_MILLISECONDS_def)
       (simp add: spelled_tickets_def model_document_def)
qed

lemma model_accepted:
  "verify_task_ticket (spelled_tickets model_document) sample_time ''ticket'' [''key'' \<mapsto> ''secret''] ''runner'' ''{}'' 101000000000
     = Inr model_document"
proof -
  have "decode_ticket (spelled_tickets model_document) ''ticket'' = Inr model_document"
    by (simp add: spelled_tickets_def)
  note verifies = issued_verifies [OF probe_laws model_issued this, of "[''key'' \<mapsto> ''secret'']" 101000000000]
  have fields: "issue_key_id model_issue = ''key''" "signing_key model_issue = ''secret''"
      "issue_runner_id model_issue = ''runner''" "issue_payload model_issue = ''{}''"
      "unix_timestamp sample_time (issue_now model_issue) = 100"
    by (simp_all add: model_issue_def unix_timestamp_def sample_time_def)
  have times: "tt_expires_at (td_claims model_document) = 150" "execution_deadline_ms (td_claims model_document) = 103000"
    by (simp_all add: model_claims)
  show ?thesis
    using verifies probe_times by (simp add: fields times FUTURE_CLOCK_SKEW_SECONDS_def)
qed

theorem accepted_ticket_is_authorized_witness:
  "tt_expires_at (td_claims model_document) = 150
   \<and> operation_deadline (tt_authorization (td_claims model_document)) = Some 150
   \<and> map_option tl_expiry (authorization_license (tt_authorization (td_claims model_document))) = Some (FixedExpiry 180)
   \<and> tt_expires_at (td_claims model_document) \<le> 180 \<and> tt_expires_at (td_claims model_document) \<le> 150
   \<and> authorization_command (tt_authorization (td_claims model_document)) = CmdExecute
   \<and> unix_timestamp sample_time 101000000000 < tt_expires_at (td_claims model_document)"
  using accepted_ticket_is_authorized [OF model_accepted]
  by (simp add: Let_def model_claims) (simp add: model_authorization_def)

section \<open>Registering a key twice\<close>

text \<open>The duplicate is reported, and the new key has taken the place of the old one.\<close>

lemma duplicate_key_replaces:
  assumes "ticket_identifier key_id = Inr ()" "keys key_id = Some old"
  shows "trusted_insert keys key_id key = (Inl ProtoDuplicateKey, keys(key_id \<mapsto> key))"
  using assms by (simp add: trusted_insert_def)

end
