(* ===== verification/RunnerTasks.thy ===== *)
theory RunnerTasks
  imports Tickets
begin

text \<open>
  The tasks of one Control session in the runner (\<open>runner/src/main.rs\<close>: \<open>accept_task\<close>;
  \<open>task_execution.rs\<close>: the execution permit; \<open>tasks.rs\<close>: the supervisor): a frame is verified,
  consumed once and bounded in time, takes a permit of the session and starts a worker, which ends
  by cancellation, by its deadline or by its result, and releases everything it holds.

  A session is a value; its steps are the calls of the session loop and the two moments of a
  worker, leaving its execution and dropping its guards. What a worker does in between is not
  modelled, and neither is the transport. Clock readings are arguments of the steps.
\<close>

section \<open>Execution permit\<close>

datatype RunnerFailure = Failure string | Panicked

record TaskExecutionPermit =
  ep_ticket :: TaskTicketDocument
  ep_deadline :: instant

text \<open>\<open>from_unix_timestamp\<close> is an operation of the \<open>time\<close> crate.\<close>

definition TaskExecutionPermit_new ::
    "'t time_ops \<Rightarrow> (int \<Rightarrow> 't option) \<Rightarrow> TaskTicketDocument \<Rightarrow> 't \<Rightarrow> instant \<Rightarrow> (RunnerFailure, TaskExecutionPermit) result" where
  "TaskExecutionPermit_new T from_unix_timestamp ticket received_at received_instant =
     (let expired = Failure ''task_ticket_expired'' in
      and_then (map_err (\<lambda>_. expired) (validate_ticket_time T (td_claims ticket) received_at)) (\<lambda>_.
      and_then (ok_or (from_unix_timestamp (tt_expires_at (td_claims ticket))) expired) (\<lambda>expiry.
      let remaining = time_diff T expiry received_at in
      if remaining < 0 then Inl expired
      else let deadline = received_instant + nat remaining in
           if deadline < instant_limit then Inr \<lparr>ep_ticket = ticket, ep_deadline = deadline\<rparr> else Inl expired)))"

definition permit_valid :: "'t time_ops \<Rightarrow> TaskExecutionPermit \<Rightarrow> instant \<Rightarrow> 't \<Rightarrow> bool" where
  "permit_valid T p tick wall \<longleftrightarrow> tick < ep_deadline p \<and> validate_ticket_time T (td_claims (ep_ticket p)) wall = Inr ()"

datatype runner_frame =
    TaskAccepted string
  | UpstreamStarted string
  | TaskFailed string string bool

definition expired_frame :: "TaskExecutionPermit \<Rightarrow> runner_frame" where
  "expired_frame p = TaskFailed (tt_task_id (td_claims (ep_ticket p))) ''task_ticket_expired'' True"

text \<open>
  Reserving a slot of the outbound channel ends with the slot, with a closed channel, or at the
  deadline, when the frame about the expiry is sent if there is room for it.
\<close>

datatype reservation = Slot | ChannelClosed | DeadlinePassed bool

definition send_before_upstream ::
    "'t time_ops \<Rightarrow> TaskExecutionPermit \<Rightarrow> reservation \<Rightarrow> instant \<Rightarrow> 't \<Rightarrow> runner_frame \<Rightarrow> bool \<times> runner_frame list" where
  "send_before_upstream T p outcome tick wall event =
     (case outcome of
        ChannelClosed \<Rightarrow> (False, [])
      | DeadlinePassed room \<Rightarrow> (False, if room then [expired_frame p] else [])
      | Slot \<Rightarrow> if \<not> permit_valid T p tick wall then (False, [expired_frame p]) else (True, [event]))"

section \<open>Supervisor\<close>

record Metrics =
  inflight :: u32
  recent_requests :: u32
  recent_errors :: u32
  draining :: bool

text \<open>A worker runs until its select returns, then drops its guards when the task ends.\<close>

record worker =
  wk_id :: string
  wk_deadline :: instant
  wk_permit :: TaskExecutionPermit
  wk_cancelled :: bool
  wk_running :: bool

text \<open>A registry entry is true while its cancellation sender has not been taken.\<close>

record session =
  capacity :: nat
  cancellations :: "string \<rightharpoonup> bool"
  workers :: "worker list"
  metrics :: Metrics
  replay :: ReplayCache
  outbound :: "runner_frame list"

definition session_new :: "nat \<Rightarrow> Metrics \<Rightarrow> session" where
  "session_new n m = \<lparr>capacity = n, cancellations = Map.empty, workers = [], metrics = m\<lparr>draining := False\<rparr>,
     replay = Map.empty, outbound = []\<rparr>"

definition try_permit :: "session \<Rightarrow> session option" where
  "try_permit s = (if capacity s = 0 then None else Some (s\<lparr>capacity := capacity s - 1\<rparr>))"

definition cancel :: "string \<Rightarrow> session \<Rightarrow> session" where
  "cancel task s =
     (if cancellations s task = Some True
      then s\<lparr>cancellations := (cancellations s)(task \<mapsto> False),
             workers := map (\<lambda>w. if wk_id w = task then w\<lparr>wk_cancelled := True\<rparr> else w) (workers s)\<rparr>
      else s)"

text \<open>The caller holds a permit, which a refused task gives back.\<close>

definition start :: "string \<Rightarrow> instant \<Rightarrow> TaskExecutionPermit \<Rightarrow> session \<Rightarrow> bool \<times> session" where
  "start task deadline p s =
     (if cancellations s task \<noteq> None then (False, s\<lparr>capacity := capacity s + 1\<rparr>)
      else (True, s\<lparr>cancellations := (cancellations s)(task \<mapsto> True),
             metrics := (metrics s)\<lparr>inflight := inflight (metrics s) + 1, recent_requests := recent_requests (metrics s) + 1\<rparr>,
             workers := workers s @ [\<lparr>wk_id = task, wk_deadline = deadline, wk_permit = p, wk_cancelled = False, wk_running = True\<rparr>]\<rparr>))"

text \<open>
  The biased select of a worker: cancellation, then the deadline, then the result of the
  execution; nothing when none of them is ready.
\<close>

definition select_outcome :: "worker \<Rightarrow> instant \<Rightarrow> bool option \<Rightarrow> (string option \<times> bool) option" where
  "select_outcome w now result =
     (if wk_cancelled w then Some (Some ''task_cancelled'', True)
      else if wk_deadline w \<le> now then Some (Some ''task_deadline_exceeded'', True)
      else map_option (\<lambda>ok. (None, \<not> ok)) result)"

text \<open>Leaving the select: the failure is sent if the channel takes it in time, errors are counted.\<close>

definition worker_stops :: "nat \<Rightarrow> instant \<Rightarrow> bool option \<Rightarrow> bool \<Rightarrow> session \<Rightarrow> session" where
  "worker_stops i now result sent s =
     (if i < length (workers s) \<and> wk_running (workers s ! i)
      then (case select_outcome (workers s ! i) now result of
              None \<Rightarrow> s
            | Some (failure, failed) \<Rightarrow>
                s\<lparr>workers := (workers s)[i := (workers s ! i)\<lparr>wk_running := False\<rparr>],
                  outbound := outbound s @ (case failure of Some category \<Rightarrow>
                       if sent then [TaskFailed (wk_id (workers s ! i)) category False] else [] | None \<Rightarrow> []),
                  metrics := (if failed then (metrics s)\<lparr>recent_errors := recent_errors (metrics s) + 1\<rparr> else metrics s)\<rparr>)
      else s)"

text \<open>Dropping the guards of a worker: the permit, the counter and the registry entry.\<close>

definition drop_guards :: "worker \<Rightarrow> session \<Rightarrow> session" where
  "drop_guards w s =
     s\<lparr>capacity := capacity s + 1,
       metrics := (metrics s)\<lparr>inflight := inflight (metrics s) - 1\<rparr>,
       cancellations := (cancellations s)(wk_id w := None)\<rparr>"

definition worker_exits :: "nat \<Rightarrow> session \<Rightarrow> session" where
  "worker_exits i s =
     (if i < length (workers s) \<and> \<not> wk_running (workers s ! i)
      then drop_guards (workers s ! i) (s\<lparr>workers := take i (workers s) @ drop (Suc i) (workers s)\<rparr>)
      else s)"

text \<open>A worker whose execution panics unwinds from where it stands: it sends nothing and counts no error.\<close>

definition worker_panics :: "nat \<Rightarrow> session \<Rightarrow> session" where
  "worker_panics i s =
     (if i < length (workers s) \<and> wk_running (workers s ! i)
      then drop_guards (workers s ! i) (s\<lparr>workers := take i (workers s) @ drop (Suc i) (workers s)\<rparr>)
      else s)"

text \<open>
  The end of the session drops the supervisor and with it the set of its workers, which aborts
  every one of them. The runtime drops the aborted futures one after the other; here it is one step.
\<close>

definition session_drop :: "session \<Rightarrow> session" where
  "session_drop s = (fold drop_guards (workers s) s)\<lparr>workers := []\<rparr>"

section \<open>Accepting a task\<close>

definition MAX_TASK_PAYLOAD_BYTES :: nat where
  "MAX_TASK_PAYLOAD_BYTES = 32 * 1024 * 1024"

record ('k, 't) accept_config =
  task_keys :: "'k TrustedTaskKeys"
  runner_id :: string
  from_timestamp :: "int \<Rightarrow> 't option"

record TaskFrame =
  ticket_json_base64url :: string
  payload_base64url :: string

text \<open>The clock readings of one call, in order: two instants and three wall-clock times.\<close>

record 't readings =
  received_instant :: instant
  received_at :: 't
  consumed_at :: 't
  remaining_at :: 't
  started_instant :: instant

definition send_failure :: "string \<Rightarrow> string \<Rightarrow> bool \<Rightarrow> session \<Rightarrow> session" where
  "send_failure task category retryable s = s\<lparr>outbound := outbound s @ [TaskFailed task category retryable]\<rparr>"

definition execution_deadline :: "instant \<Rightarrow> int \<Rightarrow> instant option" where
  "execution_deadline now remaining_ms =
     (let deadline = now + min (nat remaining_ms) (unat MAX_TASK_EXECUTION_MILLISECONDS) * 1000000 in
      if deadline < instant_limit then Some deadline else None)"

text \<open>After the ticket was consumed: time left, draining, capacity, registration.\<close>

definition start_consumed ::
    "'t time_ops \<Rightarrow> ('k, 't) accept_config \<Rightarrow> 't readings \<Rightarrow> TaskTicketDocument \<Rightarrow> session
      \<Rightarrow> (RunnerFailure, unit) result \<times> session" where
  "start_consumed T cfg rd ticket s =
     (let c = td_claims ticket; task = tt_task_id c; remaining_ms = execution_deadline_ms c - unix_ms T (remaining_at rd) in
      if remaining_ms \<le> 0 then (Inr (), send_failure task ''task_expired_before_execution'' True s)
      else (case execution_deadline (started_instant rd) remaining_ms of
        None \<Rightarrow> (Inl Panicked, s)
      | Some deadline \<Rightarrow>
          (case TaskExecutionPermit_new T (from_timestamp cfg) ticket (received_at rd) (received_instant rd) of
             Inl e \<Rightarrow> (Inl e, s)
           | Inr execution \<Rightarrow>
               if draining (metrics s) then (Inr (), send_failure task ''runner_draining'' True s)
               else (case try_permit s of
                 None \<Rightarrow> (Inr (), send_failure task ''runner_capacity'' True s)
               | Some s1 \<Rightarrow>
                   (case start task deadline execution s1 of
                      (started, s2) \<Rightarrow>
                        (Inr (), if started then s2 else send_failure task ''task_already_active'' False s2))))))"

definition accept_task ::
    "('k, 'sk, 's) ticket_env \<Rightarrow> 't time_ops \<Rightarrow> ('k, 't) accept_config \<Rightarrow> TaskFrame \<Rightarrow> 't readings \<Rightarrow> session
      \<Rightarrow> (RunnerFailure, unit) result \<times> session" where
  "accept_task E T cfg frame rd s =
     (case base64_decode E (ticket_json_base64url frame) of
        None \<Rightarrow> (Inl (Failure ''task_ticket_encoding_invalid''), s)
      | Some ticket_json \<Rightarrow>
     (case base64_decode E (payload_base64url frame) of
        None \<Rightarrow> (Inl (Failure ''task_payload_encoding_invalid''), s)
      | Some payload \<Rightarrow>
        if MAX_TASK_PAYLOAD_BYTES < length payload then (Inl (Failure ''task_payload_too_large''), s)
        else (case verify_task_ticket E T ticket_json (task_keys cfg) (runner_id cfg) payload (received_at rd) of
          Inl (ProtoExpiredTask task) \<Rightarrow> (Inr (), send_failure task ''task_expired_before_execution'' True s)
        | Inl _ \<Rightarrow> (Inl (Failure ''task_ticket_invalid''), s)
        | Inr ticket \<Rightarrow>
            (case consume T (replay s) ticket (consumed_at rd) of
               (Inl ProtoInvalidTime, cache) \<Rightarrow> (Inl (Failure ''task_ticket_expired''), s\<lparr>replay := cache\<rparr>)
             | (Inl _, cache) \<Rightarrow> (Inl (Failure ''task_ticket_replayed''), s\<lparr>replay := cache\<rparr>)
             | (Inr _, cache) \<Rightarrow> start_consumed T cfg rd ticket (s\<lparr>replay := cache\<rparr>)))))"

section \<open>Outcomes of accepting\<close>

text \<open>A session whose tasks are those of another; only the cache and the frames may differ.\<close>

definition same_tasks :: "session \<Rightarrow> session \<Rightarrow> bool" where
  "same_tasks s s' \<longleftrightarrow> capacity s' = capacity s \<and> cancellations s' = cancellations s \<and> workers s' = workers s \<and> metrics s' = metrics s"

definition started_from :: "string \<Rightarrow> instant \<Rightarrow> TaskExecutionPermit \<Rightarrow> session \<Rightarrow> session \<Rightarrow> bool" where
  "started_from task deadline p s s' \<longleftrightarrow> 0 < capacity s \<and> cancellations s task = None
     \<and> s' = snd (start task deadline p (s\<lparr>capacity := capacity s - 1\<rparr>))"

lemma start_consumed_cases:
  assumes "start_consumed T cfg rd ticket s = (r, s')"
  obtains (refused) "same_tasks s s'" "replay s' = replay s"
    | (started) deadline p where "r = Inr ()" "started_from (tt_task_id (td_claims ticket)) deadline p s s'"
        "TaskExecutionPermit_new T (from_timestamp cfg) ticket (received_at rd) (received_instant rd) = Inr p"
        "execution_deadline (started_instant rd) (execution_deadline_ms (td_claims ticket) - unix_ms T (remaining_at rd)) = Some deadline"
  using assms
  by (auto simp: start_consumed_def Let_def same_tasks_def send_failure_def try_permit_def start_def started_from_def
      split: if_splits option.splits sum.splits prod.splits)

lemma accept_task_cases:
  assumes "accept_task E T cfg frame rd s = (r, s')"
  obtains (ignored) "same_tasks s s'" "replay s' = replay s"
    | (consumed) ticket_json payload ticket answer cache where
        "verify_task_ticket E T ticket_json (task_keys cfg) (runner_id cfg) payload (received_at rd) = Inr ticket"
        "consume T (replay s) ticket (consumed_at rd) = (answer, cache)" "same_tasks s s'" "replay s' = cache"
    | (started) ticket_json payload ticket cache deadline p where
        "verify_task_ticket E T ticket_json (task_keys cfg) (runner_id cfg) payload (received_at rd) = Inr ticket"
        "consume T (replay s) ticket (consumed_at rd) = (Inr (), cache)"
        "TaskExecutionPermit_new T (from_timestamp cfg) ticket (received_at rd) (received_instant rd) = Inr p"
        "started_from (tt_task_id (td_claims ticket)) deadline p (s\<lparr>replay := cache\<rparr>) s'"
        "execution_deadline (started_instant rd) (execution_deadline_ms (td_claims ticket) - unix_ms T (remaining_at rd)) = Some deadline"
proof -
  show thesis
  proof (cases "\<exists>ticket_json payload ticket. base64_decode E (ticket_json_base64url frame) = Some ticket_json
      \<and> base64_decode E (payload_base64url frame) = Some payload \<and> length payload \<le> MAX_TASK_PAYLOAD_BYTES
      \<and> verify_task_ticket E T ticket_json (task_keys cfg) (runner_id cfg) payload (received_at rd) = Inr ticket")
    case True
    then obtain ticket_json payload ticket where v: "base64_decode E (ticket_json_base64url frame) = Some ticket_json"
        "base64_decode E (payload_base64url frame) = Some payload" "length payload \<le> MAX_TASK_PAYLOAD_BYTES"
        "verify_task_ticket E T ticket_json (task_keys cfg) (runner_id cfg) payload (received_at rd) = Inr ticket" by blast
    obtain answer cache where c: "consume T (replay s) ticket (consumed_at rd) = (answer, cache)"
      by (cases "consume T (replay s) ticket (consumed_at rd)")
    show thesis
    proof (cases answer)
      case (Inl e)
      with assms v c have "s' = s\<lparr>replay := cache\<rparr>"
        by (auto simp: accept_task_def split: RunnerProtocolError.splits)
      then show thesis by (intro consumed [OF v(4) c]) (simp_all add: same_tasks_def)
    next
      case (Inr u)
      with assms v c have "start_consumed T cfg rd ticket (s\<lparr>replay := cache\<rparr>) = (r, s')"
        by (simp add: accept_task_def)
      then show thesis
      proof (cases rule: start_consumed_cases)
        case refused
        then show thesis by (intro consumed [OF v(4) c]) (simp_all add: same_tasks_def)
      next
        case (started deadline p)
        with Inr c show thesis by (intro that(3) [OF v(4)]) simp_all
      qed
    qed
  next
    case False
    with assms have "same_tasks s s'" "replay s' = replay s"
      by (auto simp: accept_task_def send_failure_def same_tasks_def split: option.splits if_splits sum.splits RunnerProtocolError.splits)
    then show thesis by (rule ignored)
  qed
qed

section \<open>The session keeps its books\<close>

text \<open>The steps of a session. An error of \<open>accept_task\<close> ends the session.\<close>

datatype 't session_op =
    AcceptTask TaskFrame "'t readings"
  | CancelTask string
  | Drain
  | WorkerStops nat instant "bool option" bool
  | WorkerExits nat
  | WorkerPanics nat

fun run_session_op ::
    "('k, 'sk, 's) ticket_env \<Rightarrow> 't time_ops \<Rightarrow> ('k, 't) accept_config \<Rightarrow> 't session_op \<Rightarrow> session \<Rightarrow> session" where
  "run_session_op E T cfg (AcceptTask frame rd) s =
     (case accept_task E T cfg frame rd s of (Inl _, s') \<Rightarrow> session_drop s' | (Inr _, s') \<Rightarrow> s')"
| "run_session_op E T cfg (CancelTask task) s = cancel task s"
| "run_session_op E T cfg Drain s = s\<lparr>metrics := (metrics s)\<lparr>draining := True\<rparr>\<rparr>"
| "run_session_op E T cfg (WorkerStops i now result sent) s = worker_stops i now result sent s"
| "run_session_op E T cfg (WorkerExits i) s = worker_exits i s"
| "run_session_op E T cfg (WorkerPanics i) s = worker_panics i s"

text \<open>
  The books of a session of \<open>n\<close> permits that began with \<open>m\<close> tasks in flight elsewhere: one worker
  per task, a registry entry for each worker that tells whether it was cancelled, a permit for
  each worker, and the counter.
\<close>

definition session_ok :: "nat \<Rightarrow> u32 \<Rightarrow> session \<Rightarrow> bool" where
  "session_ok n m s \<longleftrightarrow> distinct (map wk_id (workers s)) \<and> dom (cancellations s) = wk_id ` set (workers s)
     \<and> (\<forall>w\<in>set (workers s). cancellations s (wk_id w) = Some (\<not> wk_cancelled w))
     \<and> capacity s + length (workers s) = n \<and> inflight (metrics s) = m + of_nat (length (workers s))"

lemma session_new_ok: "session_ok n (inflight m) (session_new n m)"
  by (simp add: session_ok_def session_new_def)

lemma same_tasks_ok: "same_tasks s s' \<Longrightarrow> session_ok n m s \<Longrightarrow> session_ok n m s'"
  by (simp add: same_tasks_def session_ok_def)

lemma started_ok:
  assumes "session_ok n m s" "started_from task deadline p s s'"
  shows "session_ok n m s'"
proof -
  have "task \<notin> wk_id ` set (workers s)" using assms by (auto simp: session_ok_def started_from_def)
  then show ?thesis using assms by (auto simp: session_ok_def started_from_def start_def)
qed

lemma cancel_ok:
  assumes "session_ok n m s"
  shows "session_ok n m (cancel task s)"
proof (cases "cancellations s task = Some True")
  case True
  let ?f = "\<lambda>w. if wk_id w = task then w\<lparr>wk_cancelled := True\<rparr> else w"
  have ids: "wk_id \<circ> ?f = wk_id" by auto
  have "wk_id ` ?f ` set (workers s) = wk_id ` set (workers s)" unfolding image_comp ids ..
  moreover have "task \<in> wk_id ` set (workers s)" using assms True by (auto simp: session_ok_def)
  moreover have "map wk_id (map ?f (workers s)) = map wk_id (workers s)" by (simp add: ids)
  moreover have "cancellations s (wk_id w) = Some (\<not> wk_cancelled w)" if "w \<in> set (workers s)" for w
    using assms that by (simp add: session_ok_def)
  ultimately show ?thesis
    using assms True unfolding session_ok_def cancel_def by (auto simp del: map_map)
qed (use assms in \<open>simp add: cancel_def\<close>)

lemma same_books_ok:
  assumes "session_ok n m s" "map (\<lambda>w. (wk_id w, wk_cancelled w)) (workers s') = map (\<lambda>w. (wk_id w, wk_cancelled w)) (workers s)"
    and "cancellations s' = cancellations s" "capacity s' = capacity s" "inflight (metrics s') = inflight (metrics s)"
  shows "session_ok n m s'"
proof -
  have ids: "map wk_id (workers s') = map wk_id (workers s)"
    using arg_cong [OF assms(2), of "map fst"] by (simp add: comp_def)
  have "cancellations s (wk_id w) = Some (\<not> wk_cancelled w)" if "w \<in> set (workers s')" for w
  proof -
    have "(wk_id w, wk_cancelled w) \<in> set (map (\<lambda>w. (wk_id w, wk_cancelled w)) (workers s'))" using that by simp
    then obtain v where "v \<in> set (workers s)" "wk_id w = wk_id v" "wk_cancelled w = wk_cancelled v"
      unfolding assms(2) by auto
    with assms(1) show ?thesis by (simp add: session_ok_def)
  qed
  moreover have "wk_id ` set (workers s') = wk_id ` set (workers s)" "length (workers s') = length (workers s)"
    using ids by (metis list.set_map, metis length_map)
  ultimately show ?thesis using assms(1,3-5) ids by (simp add: session_ok_def)
qed

lemma worker_stops_ok:
  assumes "session_ok n m s"
  shows "session_ok n m (worker_stops i now result sent s)"
proof (rule same_books_ok [OF assms])
  show "map (\<lambda>w. (wk_id w, wk_cancelled w)) (workers (worker_stops i now result sent s))
      = map (\<lambda>w. (wk_id w, wk_cancelled w)) (workers s)"
    by (auto simp: worker_stops_def list_eq_iff_nth_eq nth_list_update split: option.splits)
qed (auto simp: worker_stops_def split: option.splits)

lemma drop_one_ok:
  assumes "session_ok n m s" "workers s = us @ w # vs"
  shows "session_ok n m (drop_guards w (s\<lparr>workers := us @ vs\<rparr>))"
  using assms by (auto simp: session_ok_def drop_guards_def) (metis image_eqI)+

lemma worker_exits_ok: "session_ok n m s \<Longrightarrow> session_ok n m (worker_exits i s)"
  using drop_one_ok [of n m s "take i (workers s)" "workers s ! i" "drop (Suc i) (workers s)"]
  by (auto simp: worker_exits_def id_take_nth_drop [symmetric])

lemma worker_panics_ok: "session_ok n m s \<Longrightarrow> session_ok n m (worker_panics i s)"
  using drop_one_ok [of n m s "take i (workers s)" "workers s ! i" "drop (Suc i) (workers s)"]
  by (auto simp: worker_panics_def id_take_nth_drop [symmetric])

lemma drop_all_ok:
  assumes "session_ok n m s" "workers s = us @ ws"
  shows "session_ok n m ((fold drop_guards ws s)\<lparr>workers := us\<rparr>)"
  using assms
proof (induction ws arbitrary: s)
  case Nil
  then show ?case by (simp add: session_ok_def)
next
  case (Cons w ws)
  have fold: "(fold drop_guards vs (t\<lparr>workers := x\<rparr>))\<lparr>workers := us\<rparr> = (fold drop_guards vs t)\<lparr>workers := us\<rparr>" for vs t x
  proof (induction vs arbitrary: t)
    case (Cons v vs)
    have "drop_guards v (t\<lparr>workers := x\<rparr>) = (drop_guards v t)\<lparr>workers := x\<rparr>" by (simp add: drop_guards_def)
    with Cons.IH show ?case by simp
  qed simp
  have "session_ok n m (drop_guards w (s\<lparr>workers := us @ ws\<rparr>))" using drop_one_ok Cons.prems by blast
  moreover have "drop_guards w (s\<lparr>workers := us @ ws\<rparr>) = (drop_guards w s)\<lparr>workers := us @ ws\<rparr>"
    by (simp add: drop_guards_def)
  ultimately show ?case using Cons.IH [of "(drop_guards w s)\<lparr>workers := us @ ws\<rparr>"] fold by simp
qed

lemma session_drop_ok: "session_ok n m s \<Longrightarrow> session_ok n m (session_drop s)"
  using drop_all_ok [of n m s "[]"] by (simp add: session_drop_def)

lemma accept_task_ok:
  assumes "session_ok n m s" "accept_task E T cfg frame rd s = (r, s')"
  shows "session_ok n m s'"
  using assms(2)
proof (cases rule: accept_task_cases)
  case (started ticket_json payload ticket cache deadline p)
  have "session_ok n m (s\<lparr>replay := cache\<rparr>)" using assms(1) by (simp add: session_ok_def)
  from started_ok [OF this started(4)] show ?thesis .
qed (use assms(1) same_tasks_ok in blast)+

lemma run_session_op_ok: "session_ok n m s \<Longrightarrow> session_ok n m (run_session_op E T cfg op s)"
proof (cases op)
  case (AcceptTask frame rd)
  assume "session_ok n m s"
  with AcceptTask show ?thesis
    using accept_task_ok [of n m s E T cfg frame rd] session_drop_ok
    by (auto split: prod.splits sum.splits)
next
  case Drain
  assume "session_ok n m s"
  with Drain show ?thesis by (simp add: session_ok_def)
qed (simp_all add: cancel_ok worker_stops_ok worker_exits_ok worker_panics_ok)

lemma session_history_ok: "session_ok n m s \<Longrightarrow> session_ok n m (fold (run_session_op E T cfg) ops s)"
  by (induction ops arbitrary: s) (simp_all add: run_session_op_ok)

text \<open>
  C7: The books of a session balance after any sequence of its steps, whatever frames arrive and
  whenever workers end: a task has at most one worker, the registry holds exactly the tasks of the
  workers and tells which were cancelled, the permits taken are the workers (so a session never
  runs more than its capacity), and the in-flight counter has grown by the workers. The end of the
  session releases all of it, in whatever state the workers are.
\<close>

theorem session_accounts_for_tasks:
  "let s = fold (run_session_op E T cfg) ops (session_new n m) in
     distinct (map wk_id (workers s)) \<and> dom (cancellations s) = wk_id ` set (workers s)
     \<and> list_all (\<lambda>w. cancellations s (wk_id w) = Some (\<not> wk_cancelled w)) (workers s)
     \<and> capacity s + length (workers s) = n
     \<and> inflight (metrics s) = inflight m + of_nat (length (workers s))
     \<and> capacity (session_drop s) = n \<and> cancellations (session_drop s) = Map.empty
     \<and> inflight (metrics (session_drop s)) = inflight m"
proof -
  let ?s = "fold (run_session_op E T cfg) ops (session_new n m)"
  have ok: "session_ok n (inflight m) ?s" by (rule session_history_ok [OF session_new_ok])
  have "session_ok n (inflight m) (session_drop ?s)" "workers (session_drop ?s) = []"
    using session_drop_ok [OF ok] by (simp_all add: session_drop_def)
  with ok show ?thesis by (simp add: session_ok_def list_all_iff Let_def)
qed

section \<open>A ticket starts one worker\<close>

lemma drop_replay [simp]: "replay (session_drop s) = replay s"
proof -
  have "replay (fold drop_guards ws t) = replay t" for ws t
    by (induction ws arbitrary: t) (simp_all add: drop_guards_def)
  then show ?thesis by (simp add: session_drop_def)
qed

fun read_before :: "'t time_ops \<Rightarrow> int \<Rightarrow> 't session_op \<Rightarrow> bool" where
  "read_before T e (AcceptTask frame rd) = (unix_timestamp T (consumed_at rd) < e)"
| "read_before T e _ = True"

lemma accept_keeps_entry:
  assumes "accept_task E T cfg frame rd s = (r, s')" "replay s i = Some e" "unix_timestamp T (consumed_at rd) < e"
  shows "replay s' i = Some e"
  using assms(1)
  by (cases rule: accept_task_cases)
     (use assms(2,3) consume_keeps(1) in \<open>auto simp: started_from_def start_def\<close>)

lemma op_keeps_entry:
  "replay s i = Some e \<Longrightarrow> read_before T e op \<Longrightarrow> replay (run_session_op E T cfg op s) i = Some e"
  by (cases op)
     (auto simp: cancel_def worker_stops_def worker_exits_def worker_panics_def drop_guards_def
       dest: accept_keeps_entry split: prod.splits sum.splits option.splits)

lemma history_keeps_entry:
  "replay s i = Some e \<Longrightarrow> list_all (read_before T e) ops \<Longrightarrow> replay (fold (run_session_op E T cfg) ops s) i = Some e"
  by (induction ops arbitrary: s) (simp_all add: op_keeps_entry)

lemma accept_starts:
  assumes "accept_task E T cfg frame rd s = (r, s')" "workers s' = workers s @ [w]"
  shows "replay s' (wk_id w) = Some (tt_expires_at (td_claims (ep_ticket (wk_permit w))))"
    and "\<exists>cache. consume T (replay s) (ep_ticket (wk_permit w)) (consumed_at rd) = (Inr (), cache)"
    and "wk_id w = tt_task_id (td_claims (ep_ticket (wk_permit w)))"
  using assms(1)
proof (atomize (full), cases rule: accept_task_cases)
  case (started ticket_json payload ticket cache deadline p)
  have p: "ep_ticket p = ticket"
    using started(3) by (auto simp: TaskExecutionPermit_new_def Let_def result_simps split: if_splits)
  from started(4) assms(2) have "w = \<lparr>wk_id = tt_task_id (td_claims ticket), wk_deadline = deadline, wk_permit = p,
      wk_cancelled = False, wk_running = True\<rparr>" "replay s' = cache"
    by (auto simp: started_from_def start_def)
  with started(2) p consume_accepts(1) [OF started(2)]
  show "replay s' (wk_id w) = Some (tt_expires_at (td_claims (ep_ticket (wk_permit w))))
    \<and> (\<exists>cache. consume T (replay s) (ep_ticket (wk_permit w)) (consumed_at rd) = (Inr (), cache))
    \<and> wk_id w = tt_task_id (td_claims (ep_ticket (wk_permit w)))" by simp
qed (use assms(2) in \<open>auto simp: same_tasks_def\<close>)

lemma accept_workers:
  assumes "accept_task E T cfg frame rd s = (r, s')"
  shows "workers s' = workers s \<or> (\<exists>w. workers s' = workers s @ [w])"
  using assms by (cases rule: accept_task_cases) (auto simp: same_tasks_def started_from_def start_def)

text \<open>
  C13: Within a session a ticket starts one worker. Once a frame started a worker, no later frame
  of the session starts another for the same task while the clock readings at consumption stay
  before the expiry of the ticket that was used, even when the first worker has finished, was
  cancelled or hit its deadline in between.
\<close>

theorem task_starts_once:
  assumes "accept_task E T cfg frame rd s0 = (r, s1)" "workers s1 = workers s0 @ [w]"
    and "e = tt_expires_at (td_claims (ep_ticket (wk_permit w)))"
    and "s2 = fold (run_session_op E T cfg) ops s1" "list_all (read_before T e) ops"
    and "accept_task E T cfg frame' rd' s2 = (r', s3)" "unix_timestamp T (consumed_at rd') < e"
  shows "workers s3 = workers s2 \<or> (\<exists>w'. workers s3 = workers s2 @ [w'] \<and> wk_id w' \<noteq> wk_id w)"
proof -
  have entry: "replay s2 (wk_id w) = Some e"
    using history_keeps_entry accept_starts(1) [OF assms(1,2)] assms(3-5) by simp
  have "wk_id w' \<noteq> wk_id w" if w': "workers s3 = workers s2 @ [w']" for w'
  proof
    assume "wk_id w' = wk_id w"
    moreover obtain cache where c: "consume T (replay s2) (ep_ticket (wk_permit w')) (consumed_at rd') = (Inr (), cache)"
      using accept_starts(2) [OF assms(6) w'] by blast
    ultimately show False
      using consume_keeps(2) [OF c, of "wk_id w" e] entry assms(7) accept_starts(3) [OF assms(6) w'] by simp
  qed
  with accept_workers [OF assms(6)] show ?thesis by blast
qed

text \<open>A probe accepted twice by a session with two permits.\<close>

definition probe_config :: "(string, int) accept_config" where
  "probe_config = \<lparr>task_keys = [''key'' \<mapsto> ''secret''], runner_id = ''runner'', from_timestamp = (\<lambda>t. Some (t * 1000000000))\<rparr>"

definition probe_frame :: TaskFrame where
  "probe_frame = \<lparr>ticket_json_base64url = ''ticket'', payload_base64url = ''{}''\<rparr>"

definition probe_readings :: "int readings" where
  "probe_readings = \<lparr>received_instant = 5, received_at = 101000000000, consumed_at = 101000000000,
     remaining_at = 101000000000, started_instant = 6\<rparr>"

definition idle_session :: session where
  "idle_session = session_new 2 \<lparr>inflight = 0, recent_requests = 0, recent_errors = 0, draining = False\<rparr>"

lemma probe_verified:
  "verify_task_ticket (spelled_tickets probe_document) sample_time ''ticket'' [''key'' \<mapsto> ''secret''] ''runner'' ''{}'' 101000000000
     = Inr probe_document"
  using issued_verifies [OF probe_laws probe_issued probe_decoded, of "[''key'' \<mapsto> ''secret'']" 101000000000] probe_times
  by (simp add: FUTURE_CLOCK_SKEW_SECONDS_def) (simp add: probe_issue_def probe_document_def probe_ticket_def)

lemma probe_starts:
  "\<exists>s w. accept_task (spelled_tickets probe_document) sample_time probe_config probe_frame probe_readings idle_session = (Inr (), s)
     \<and> workers s = workers idle_session @ [w] \<and> wk_id w = ''one'' \<and> ep_ticket (wk_permit w) = probe_document"
proof -
  have time: "validate_ticket_time sample_time (td_claims probe_document) 101000000000 = Inr ()"
    using probe_times by (simp add: validate_ticket_time_def fit_i64_def FUTURE_CLOCK_SKEW_SECONDS_def probe_document_def probe_ticket_def)
  have c: "consume sample_time Map.empty probe_document 101000000000 = (Inr (), [''one'' \<mapsto> 220])"
    using time by (simp add: consume_def) (simp add: probe_document_def probe_ticket_def)
  have p: "TaskExecutionPermit_new sample_time (\<lambda>t. Some (t * 1000000000)) probe_document 101000000000 5
      = Inr \<lparr>ep_ticket = probe_document, ep_deadline = 119000000005\<rparr>"
    using time by (simp add: TaskExecutionPermit_new_def)
      (simp add: probe_document_def probe_ticket_def sample_time_def instant_limit_def)
  have d: "execution_deadline_ms (td_claims probe_document) = 103000" "tt_task_id (td_claims probe_document) = ''one''"
    by (simp_all add: probe_document_def probe_ticket_def)
  have e: "execution_deadline 6 2000 = Some 2000000006"
    by (simp add: execution_deadline_def MAX_TASK_EXECUTION_MILLISECONDS_def instant_limit_def)
  have b: "base64_decode (spelled_tickets probe_document) = Some" by (simp add: spelled_tickets_def)
  show ?thesis
    by (simp add: accept_task_def start_consumed_def probe_frame_def probe_config_def probe_readings_def b probe_verified
        MAX_TASK_PAYLOAD_BYTES_def idle_session_def session_new_def c p d e probe_times(3) try_permit_def start_def Let_def)
qed

theorem task_starts_once_witness:
  "\<exists>s1. let s2 = cancel ''one'' s1 in
     workers s1 \<noteq> [] \<and> (\<forall>r s3. accept_task (spelled_tickets probe_document) sample_time probe_config probe_frame probe_readings s2 = (r, s3)
       \<longrightarrow> workers s3 = workers s2 \<or> (\<exists>w'. workers s3 = workers s2 @ [w'] \<and> wk_id w' \<noteq> ''one''))"
proof -
  obtain s1 w where w: "accept_task (spelled_tickets probe_document) sample_time probe_config probe_frame probe_readings idle_session = (Inr (), s1)"
      "workers s1 = workers idle_session @ [w]" "wk_id w = ''one''" "ep_ticket (wk_permit w) = probe_document"
    using probe_starts by blast
  have "unix_timestamp sample_time (consumed_at probe_readings) < tt_expires_at (td_claims (ep_ticket (wk_permit w)))"
    using w(4) probe_times(2) by (simp add: probe_readings_def) (simp add: probe_document_def probe_ticket_def)
  with task_starts_once [OF w(1,2) refl refl, of "[CancelTask ''one'']"] w(2,3)
  show ?thesis by (intro exI [of _ s1]) (auto simp: Let_def)
qed

end
