(* ===== verification/Spec2Isabelle.thy ===== *)
theory Spec2Isabelle
  imports Admission OnlineTrace Switchback Preparation Lifecycle Routing SeatTracking MoneyControl RunnerQuota RunnerTasks
begin

text \<open>
  \<^bold>\<open>The backend of Aster Team.\<close> One installation of the customer backend runs a Control process
  (\<open>control/\<close>) over an encrypted embedded database (\<open>crates/storage\<close>), with a signed license
  (\<open>packages/rust/license-core\<close>) and its observed history (\<open>crates/license-state\<close>), and runners (\<open>runner/\<close>) that execute model
  requests on behalf of Control. A request of a member passes the license policy with the tracked
  seats, an in-flight admission, runner selection and a signed task ticket; when it ends, its charge is
  posted to a ledger. An upgrade executor (\<open>crates/upgrade-core\<close>) replaces a running Control by a
  candidate release without losing a request: it prepares and starts the candidate, closes and
  drains the old process, switches the proxy and retires the old process, from a journal that
  survives a crash of the executor at any moment. File names below are under
  \<open>src/customer/backend/\<close> (\<open>crates/\<close> omitted) or \<open>src/packages/rust/\<close>.

  \<^bold>\<open>Modelling.\<close> Unsigned machine integers are words; signed ones are integers with the range
  written out (\<open>fit_i64\<close>, \<open>in_i64\<close>), so every checked, wrapping or saturating operation of the code
  is visible. A Rust \<open>Result\<close> is a sum with the error on the left and an \<open>Option\<close> an option; a panic
  is a value. A struct is a record, an enum a datatype, the code's traits are records of calls on
  an explicit world. Code that is not in the repository (JSON, base64, SHA-256, HMAC, Ed25519,
  calendars, the random source) is a record of functions given to the definitions; where a result
  needs a documented behaviour of it, a named predicate (\<open>date_laws\<close>, \<open>time_laws\<close>,
  \<open>string_literals\<close>, \<open>ticket_laws\<close>, \<open>prints_in_utc\<close>) says so, and a witness instantiates it.
  Statements of the database, file operations and calls between processes may fail: the world
  carries a schedule of failures, and nothing is assumed of it. Where other processes share a
  resource, the world carries batches of their operations that run between any two calls.

  \<^bold>\<open>Shared theories.\<close> \<open>Prelude\<close> has the vocabulary above, the collections of rewrite rules and the
  calculus of calls on a world; \<open>Decimal\<close> the digits of numbers; \<open>Timestamps\<close> wall-clock instants;
  \<open>Journal\<close> the locales of durable journals, interpreted by the three journals of the upgrade
  executor; \<open>Database\<close> (\<open>storage/src/lib.rs\<close>, \<open>schema/init.sqlcipher.sql\<close>) rows, statements with
  constraints, transactions that roll back, and the hash-chained audit log.

  \<^bold>\<open>Prices and charges\<close> (\<open>policy-core/src/billing.rs\<close> and \<open>billing/\<close>). \<open>Billing\<close>: exact amounts,
  exchange rates, token and image charges; a charge is the exact cost rounded to the nearest nano,
  and amounts survive printing and parsing. \<open>Schedule\<close>: price windows on the local calendar; a
  validated schedule prices every minute exactly once. \<open>Pricing\<close>: versions and rate cards; the
  selection is characterised on every branch, and the charge stands in proportion to the reference
  amount of the admission, which is guidance and not a cap.
  \<open>Admission\<close>: requests in flight per member; an admitted request is covered by the balance
  together with all others in flight. The tracker trait is the locale \<open>in_flight_tracker\<close>.

  \<^bold>\<open>Money.\<close> \<open>MoneyLedger\<close> (\<open>storage/src/money_ledger.rs\<close> and the quota requests of \<open>lib.rs\<close>): after any
  history of calls and failures every balance is the sum of its numbered and chained entries, and a
  write is all or nothing. \<open>MoneyControl\<close> (\<open>control/src/lib.rs\<close>): message codes, verification of a
  ledger, posting with retries and settlement; a settled request has exactly one entry. A ledger
  that verifies reconciles, whoever wrote it, and every ledger written by the calls verifies.

  \<^bold>\<open>Licenses.\<close> \<open>Canonical\<close> (\<open>license-core/src/lib.rs\<close>): the signed bytes determine the document.
  \<open>Entitlements\<close> (\<open>catalog.rs\<close>, \<open>entitlements.rs\<close>): quotas and features and the ceiling of an issuer.
  \<open>License\<close> (\<open>lib.rs\<close>, \<open>v2.rs\<close>, \<open>trust.rs\<close>, \<open>verified_ref.rs\<close>): what an accepted document is authorised
  by, and the ring of trusted keys. \<open>Policy\<close> (\<open>policy-core/src/lib.rs\<close>): decisions about features and
  seats at run time. \<open>SeatTracking\<close> (\<open>license-state/src/lib.rs\<close> and the check of a consuming request
  in \<open>control/src/lib.rs\<close>): the observed history and the recorded start of a seat overage, which is
  tolerated once for the licensed days.

  \<^bold>\<open>Runners.\<close> \<open>Routing\<close> (\<open>routing/src/lib.rs\<close>): selection of a runner and the single permitted switch
  of a delivery. \<open>RunnerQuota\<close> (\<open>storage/src/runner_quota.rs\<close>): places of runners and the bindings of
  an upgrade. \<open>Tickets\<close> (\<open>runner-protocol/\<close>): task tickets, issue, verification and the cache against
  a second use. \<open>RunnerTasks\<close> (\<open>runner/src/main.rs\<close>, \<open>task_execution.rs\<close>, \<open>tasks.rs\<close>): a session's
  permits, workers and registry as a step function; they agree after any steps.

  \<^bold>\<open>Upgrades\<close> (\<open>upgrade-core/\<close>, \<open>control/src/lifecycle.rs\<close>). \<open>UpgradeBase\<close>: slots, jobs, snapshots and
  what one snapshot proves about another. \<open>Migration\<close>: accepted migration progress. \<open>Preparation\<close>:
  the durable preparation; a handoff to the cutover has the accepted operations behind it. \<open>Online\<close> and \<open>OnlineTrace\<close>: the forward cutover, its
  refinement of the journal protocol, a bound on its records, and the evidence behind each command.
  \<open>Switchback\<close>: the reverse operation. \<open>Retirement\<close>: the end of a drained process. \<open>Lifecycle\<close>: the
  request registry of Control; requests are owned until the last handle, waiting loops lose no
  wake-up and retirement is final. The locale \<open>drain_gate\<close> is what the executor relies on. This
  theory composes the two sides: the evidence of a cutover journal means what the executor takes
  it to mean in the process that produced it.

  \<^bold>\<open>Bounds.\<close> The loops of the code are bounded by constants of the code (four attempts of a storage
  mutation, one switch of a delivery, seven records of a cutover) and are
  recursions on that bound; all other recursion is structural or has a measure. A waiting loop is a
  step function on its observations, and its liveness is stated over all interleavings.

  \<^bold>\<open>Approximations.\<close> Release paths of a preparation are compared as strings, where the code compares
  components. The money operations run in a process that has its storage and authentication core,
  and take the billing configuration as an input. The end of a runner session aborts its workers
  in one step. The state file of the license is its authentic claims; each access to it may fail.
  Deleting a runner leaves out the column of upstream accounts that the schema clears.

  \<^bold>\<open>Not modelled.\<close> The MariaDB back end (\<open>storage/src/mariadb.rs\<close>) repeats the operations of the embedded
  one over asynchronous SQL with the isolation of another server; nothing proved here carries over
  to it by itself. Members, sessions, API keys, token and image quotas, vouchers and upstream
  connections in \<open>storage/src/lib.rs\<close>, the license directory with its recovery
  (\<open>license-state/src/transaction.rs\<close>) and the durable outbox and streams of the gateway are left
  out. The HTTP handlers of Control, its start, plugins and providers, the command line and the
  executor's host operations are input and output around the modelled operations. The
  authentication core, the credential vault and the machine identity are calls of cryptographic
  libraries. The maintenance settlement contract is a trait without code. The operations service
  and the web interfaces are in other languages.
\<close>

section \<open>Cutover and the process it drains\<close>

lemma drain_evidence:
  assumes "OnlineJournal_valid j" "oj_phase j = RetiringPrevious \<or> oj_phase j = Committing"
    and "closed j = Some c" "drained j = Some d"
  shows "observes_drain d c" "in_flight (lifecycle d) = 0"
  using assms by (auto simp: OnlineJournal_valid_def drained_ok_def is_some_and_iff)

text \<open>
  C1: The drain evidence of a cutover journal means what the executor takes it to mean. When the
  journal of a valid cutover in its retiring phase holds snapshots that the registry of the
  previous Control produced, then whatever happened in that process between the two snapshots
  and since, as long as its revision is the one recorded, it admitted nothing at any moment from
  the closing snapshot on, it has no request left, the retirement command with the recorded
  revision succeeds, and every snapshot of the registry it leaves is one the executor accepts as
  the retirement of the drained process.
\<close>

theorem cutover_drain_evidence_is_sound:
  assumes "OnlineJournal_valid j" and "oj_phase j = RetiringPrevious"
    and "closed j = Some c" and "drained j = Some d" and "revision (lifecycle d) < - 1"
    and "w = fold run_op bs world_default" and "Registry_snapshot clk (registry w) = Inr (lifecycle c)"
    and "v = fold run_op cs w" and "Registry_snapshot clk' (registry v) = Inr (lifecycle d)"
    and "u = fold run_op ds v" and "reg_revision (registry u) = revision (lifecycle d)"
    and "\<not> reg_poisoned (registry u)"
  shows "(\<forall>k. \<not> reg_accepting (registry (fold run_op (take k (cs @ ds)) w)))
    \<and> requests (registry u) = []
    \<and> (\<exists>s. retire_drained (registry u) (revision (lifecycle d)) = (Inr True, s)
         \<and> (\<forall>reply clk''. same_process reply d \<and> Registry_snapshot clk'' s = Inr (lifecycle reply)
              \<longrightarrow> observes_retirement reply d))"
proof -
  note ev = drain_evidence [OF assms(1) disjI1 [OF assms(2)] assms(3,4)]
  note c = snapshot_fields [OF assms(7)] and d = snapshot_fields [OF assms(9)]
  have u: "u = fold run_op (cs @ ds) w" using assms(8,10) by simp
  have rev: "reg_revision (registry u) = reg_revision (registry w)" "reg_revision (registry u) = reg_revision (registry v)"
    using ev(1) c(3) d(3) assms(11) by (simp_all add: observes_drain_def)
  have "closed_gate w" using ev(1) c(1) by (simp add: observes_drain_def closed_gate_def)
  from gate.closed_prefix [OF this, of "cs @ ds"]
  have prefix: "\<not> reg_accepting (registry (fold run_op (take k (cs @ ds)) w))" for k
    using rev(1) u by (simp add: closed_gate_def)
  have "world_ok v" using reachable_ok [of "bs @ cs"] assms(6,8) by simp
  then have "gate_load v = 0"
    using snapshot_in_flight [OF _ assms(9)] ev(2) by (simp add: gate_load_def)
  moreover have "closed_gate v" using ev(1) d(1) by (simp add: observes_drain_def closed_gate_def)
  ultimately have empty: "requests (registry u) = []" "\<not> reg_accepting (registry u)"
    using gate.closed_history [of v ds] rev(2) assms(10) by (simp_all add: closed_gate_def gate_load_def)
  have "\<not> reg_stopping (registry u)"
    using same_revision_not_stopping [of v ds] ev(1) d(2,3) rev(2) assms(5,10) by (simp add: observes_drain_def)
  moreover obtain r where r: "checked_add (revision (lifecycle d)) 1 = Some r"
    using checked_succ_exists [OF assms(5)] by blast
  ultimately have won: "retire_drained (registry u) (revision (lifecycle d))
      = (Inr True, (registry u)\<lparr>reg_stopping := True, reg_revision := r\<rparr>)"
    using empty assms(11,12) by (simp add: retire_drained_def)
  have "observes_retirement reply d"
    if "same_process reply d" "Registry_snapshot clk'' ((registry u)\<lparr>reg_stopping := True, reg_revision := r\<rparr>) = Inr (lifecycle reply)"
    for reply clk''
    using retirement_reply [OF won that(2)] that(1) ev by (simp add: observes_retirement_def observes_drain_def)
  with won prefix empty(1) show ?thesis by blast
qed

text \<open>A cutover whose previous process closed with one request in flight, which then left.\<close>

definition sample_retiring_journal :: OnlineJournal where
  "sample_retiring_journal = (initial_journal sample_plan)\<lparr>oj_revision := 4, oj_phase := RetiringPrevious,
     opened := Some (sample_runtime Green True False 1 0), closed := Some (sample_runtime Blue False False 4 1),
     drained := Some (sample_runtime Blue False False 4 0), cutover_started_at_ms := Some 1500,
     drain_started_at_ms := Some 1500\<rparr>"

lemma sample_retiring_valid: "OnlineJournal_valid sample_retiring_journal"
  by (simp add: journal_defs sample_retiring_journal_def initial_journal_def sample_plan_valid sample_changed)
     (simp add: sample_plan_def sample_runtime_def changed_admission_def observes_drain_def same_process_def checked_add_def)

definition sample_closing :: "lifecycle_op list" where
  "sample_closing = [SetAdmission 0 True, SetAdmission 1 True, SetAdmission 2 True, Admit 5, SetAdmission 3 False]"

theorem cutover_drain_evidence_is_sound_witness:
  "\<exists>s. retire_drained (registry (fold run_op (sample_closing @ [DropLease 0, Admit 9]) world_default)) 4 = (Inr True, s)"
proof -
  let ?w = "fold run_op sample_closing world_default"
  have b: "instant_plus 5 REQUEST_BUDGET = Some (5 + REQUEST_BUDGET)"
    by (simp add: instant_plus_def REQUEST_BUDGET_def instant_limit_def)
  note run = admit_def Registry_admit_def world_default_def Registry_default_def checked_add_def b Let_def
    on_registry_def set_admission_def drop_lease_def LeaseInner_drop_def sample_closing_def
  have closed: "Registry_snapshot (\<lambda>_. 5) (registry ?w) = Inr (lifecycle (sample_runtime Blue False False 4 1))"
    by (simp add: run Registry_snapshot_def sample_runtime_def age_ms_def u64_try_from_def elapsed_ms_def)
  have drained: "Registry_snapshot (\<lambda>_. 7) (registry (fold run_op [DropLease 0] ?w)) = Inr (lifecycle (sample_runtime Blue False False 4 0))"
    by (simp add: run Registry_snapshot_def sample_runtime_def)
  have now: "reg_revision (registry (fold run_op [Admit 9] (fold run_op [DropLease 0] ?w))) = 4"
      "\<not> reg_poisoned (registry (fold run_op [Admit 9] (fold run_op [DropLease 0] ?w)))"
    by (simp_all add: run)
  have "(4 :: u64) < - 1" by simp
  then have "revision (lifecycle (sample_runtime Blue False False 4 0)) < - 1"
      "revision (lifecycle (sample_runtime Blue False False 4 0)) = 4" by (simp_all add: sample_runtime_def)
  with cutover_drain_evidence_is_sound [OF sample_retiring_valid _ _ _ _ refl closed refl drained refl, of "[Admit 9]"] now
  show ?thesis by (auto simp: sample_retiring_journal_def simp del: run_op.simps)
qed

end
